(* ===== verification/Prelude.thy ===== *)
theory Prelude
  imports Complex_Main "HOL-Library.AList" "HOL-Library.Multiset"
begin

text \<open>
  The prelude: the collections of rules the development's proofs draw on, and the
  generic facts on lists, association lists and relations that several components share.
  Nothing here is about webhooks.

  A database table is a list of rows. Rows are only ever appended (INSERT) or rewritten
  in place (UPDATE); the relation \<open>grows\<close> below says exactly that of a table before and
  after, up to a relation on the rows.
\<close>

section \<open>Collections\<close>

named_theorems run_simps \<open>equations that run a program of the model sequentially\<close>
named_theorems sat_rules \<open>rely/guarantee introduction rules, one per operation\<close>
named_theorems grows_rules \<open>introduction rules for the growth of a table\<close>
named_theorems row_simps \<open>how the operations read and write the rows of a table\<close>

section \<open>Lists\<close>

lemma distinct_map_eq:
  "distinct (map f xs) \<Longrightarrow> x \<in> set xs \<Longrightarrow> y \<in> set xs \<Longrightarrow> f x = f y \<Longrightarrow> x = y"
  by (auto simp: distinct_map inj_on_def)

lemma map_cong_key:
  "(\<And>x. x \<in> set xs \<Longrightarrow> k (g x) = k x) \<Longrightarrow> map k (map g xs) = map k xs"
  by simp

lemma filter_map_if:
  "(\<And>x. P x \<Longrightarrow> Q (f x) = Q x) \<Longrightarrow>
   map k (filter Q (map (\<lambda>x. if P x then f x else x) xs)) =
   map (\<lambda>x. k (if P x then f x else x)) (filter Q xs)"
  by (induction xs) auto

lemma sum_list_filter_le:
  fixes f :: "'a \<Rightarrow> nat"
  shows "sum_list (map f (filter P xs)) \<le> sum_list (map f xs)"
  by (induction xs) auto

lemma length_filter_map_if_le:
  "(\<And>x. x \<in> set xs \<Longrightarrow> Q (g x) \<Longrightarrow> Q x) \<Longrightarrow>
   length (filter Q (map g xs)) \<le> length (filter Q xs)"
  by (induction xs) auto

text \<open>The newest \<open>n\<close> entries of a log, oldest first.\<close>

definition newest :: "nat \<Rightarrow> 'a list \<Rightarrow> 'a list" where
  "newest n xs = drop (length xs - n) xs"

lemma newest_short [simp]: "length xs \<le> n \<Longrightarrow> newest n xs = xs"
  by (simp add: newest_def)

lemma length_newest [simp]: "length (newest n xs) = min n (length xs)"
  by (simp add: newest_def min_def)

lemma newest_append: "newest n (newest n xs @ ys) = newest n (xs @ ys)"
  by (cases "length xs \<le> n") (simp_all add: newest_def add.commute)

section \<open>Tables that grow\<close>

definition grows :: "('a \<Rightarrow> 'a \<Rightarrow> bool) \<Rightarrow> 'a list \<Rightarrow> 'a list \<Rightarrow> bool" where
  "grows r xs ys \<longleftrightarrow> length xs \<le> length ys \<and> (\<forall>i < length xs. r (xs ! i) (ys ! i))"

lemma grows_refl [grows_rules]: "(\<And>x. r x x) \<Longrightarrow> grows r xs xs"
  by (simp add: grows_def)

lemma grows_trans:
  assumes r: "\<And>x y z. r x y \<Longrightarrow> r y z \<Longrightarrow> r x z"
    and xy: "grows r xs ys" and yz: "grows r ys zs"
  shows "grows r xs zs"
  unfolding grows_def
proof (intro conjI allI impI)
  from xy yz show "length xs \<le> length zs" by (simp add: grows_def)
  fix i
  assume "i < length xs"
  with xy yz have "r (xs ! i) (ys ! i)" and "r (ys ! i) (zs ! i)" by (auto simp: grows_def)
  then show "r (xs ! i) (zs ! i)" by (rule r)
qed

lemma grows_map [grows_rules]:
  "(\<And>x. x \<in> set xs \<Longrightarrow> r x (f x)) \<Longrightarrow> grows r xs (map f xs)"
  by (simp add: grows_def)

lemma grows_append [grows_rules]: "(\<And>x. r x x) \<Longrightarrow> grows r xs (xs @ ys)"
  by (simp add: grows_def nth_append)

lemma grows_nthD: "grows r xs ys \<Longrightarrow> i < length xs \<Longrightarrow> i < length ys \<and> r (xs ! i) (ys ! i)"
  by (auto simp: grows_def)

lemma grows_memD: "grows r xs ys \<Longrightarrow> x \<in> set xs \<Longrightarrow> \<exists>y \<in> set ys. r x y"
  by (metis grows_nthD in_set_conv_nth nth_mem)

lemma grows_mono: "grows r xs ys \<Longrightarrow> (\<And>x y. r x y \<Longrightarrow> s x y) \<Longrightarrow> grows s xs ys"
  by (auto simp: grows_def)

section \<open>Association lists as JavaScript maps\<close>

text \<open>
  \<open>Map.set\<close> keeps the position of a key that is present and appends a new one;
  \<open>AList.update\<close> does the same.
\<close>

lemma map_of_update_eq [simp]: "map_of (AList.update k v m) k = Some v"
  by (simp add: update_conv')

lemma map_of_update_other [simp]: "k \<noteq> k' \<Longrightarrow> map_of (AList.update k v m) k' = map_of m k'"
  by (simp add: update_conv')

section \<open>Results that may be errors\<close>

definition sum_bind :: "'e + 'a \<Rightarrow> ('a \<Rightarrow> 'e + 'b) \<Rightarrow> 'e + 'b" where
  "sum_bind r k = (case r of Inl e \<Rightarrow> Inl e | Inr x \<Rightarrow> k x)"

lemma sum_bind_simps [simp]:
  "sum_bind (Inl e) k = Inl e"
  "sum_bind (Inr x) k = k x"
  by (simp_all add: sum_bind_def)

lemma sum_bind_Inr_iff: "sum_bind r k = Inr y \<longleftrightarrow> (\<exists>x. r = Inr x \<and> k x = Inr y)"
  by (cases r) auto

lemma sum_bind_Inl_iff: "sum_bind r k = Inl e \<longleftrightarrow> r = Inl e \<or> (\<exists>x. r = Inr x \<and> k x = Inl e)"
  by (cases r) auto

text \<open>\<open>xs.map(f)\<close> where \<open>f\<close> may throw: the first error stops it.\<close>

primrec map_sum_list :: "('a \<Rightarrow> 'e + 'b) \<Rightarrow> 'a list \<Rightarrow> 'e + 'b list" where
  "map_sum_list f [] = Inr []"
| "map_sum_list f (x # xs) =
     sum_bind (f x) (\<lambda>y. sum_bind (map_sum_list f xs) (\<lambda>ys. Inr (y # ys)))"

lemma map_sum_list_Inr:
  "map_sum_list f xs = Inr ys \<longleftrightarrow> list_all2 (\<lambda>x y. f x = Inr y) xs ys"
proof (induction xs arbitrary: ys)
  case Nil
  then show ?case by auto
next
  case (Cons x xs)
  show ?case
    by (cases ys) (auto simp: sum_bind_Inr_iff Cons.IH [symmetric])
qed

end
