(* ===== verification/JsLib.thy ===== *)
theory JsLib
  imports Prelude
begin

text \<open>
  What the program uses of JavaScript's standard library. A Number of the configuration is a
  rational: the model is exact where IEEE doubles round, and has no negative zero. A Date is
  the number of milliseconds since the epoch. A string is a list of characters, each standing
  for one UTF-16 code unit, so lengths and slices count what JavaScript counts.
\<close>

section \<open>Numbers\<close>

text \<open>ToIntegerOrInfinity (as in \<open>slice\<close> and \<open>new Date(x)\<close>) drops the fraction.\<close>

definition js_trunc :: "rat \<Rightarrow> int" where
  "js_trunc r = (if 0 \<le> r then \<lfloor>r\<rfloor> else \<lceil>r\<rceil>)"

text \<open>\<open>Math.round\<close> rounds a half up.\<close>

definition js_round :: "rat \<Rightarrow> int" where
  "js_round r = \<lfloor>r + 1 / 2\<rfloor>"

lemma js_trunc_of_int [simp]: "js_trunc (of_int i) = i"
  by (simp add: js_trunc_def)

lemma js_trunc_numeral [simp]:
  "js_trunc 0 = 0" "js_trunc 1 = 1" "js_trunc (numeral n) = numeral n"
  by (simp_all add: js_trunc_def)

lemma js_trunc_nonneg: "0 \<le> r \<Longrightarrow> 0 \<le> js_trunc r"
  by (simp add: js_trunc_def)

lemma js_trunc_mono: "r \<le> s \<Longrightarrow> js_trunc r \<le> js_trunc s"
proof -
  assume rs: "r \<le> s"
  show ?thesis
  proof (cases "0 \<le> r \<longleftrightarrow> 0 \<le> s")
    case True
    with rs show ?thesis by (auto simp: js_trunc_def intro: floor_mono ceiling_mono)
  next
    case False
    with rs have "r < 0" "0 \<le> s" by auto
    then have "\<lceil>r\<rceil> \<le> 0" "0 \<le> \<lfloor>s\<rfloor>" by (auto simp: ceiling_le_iff)
    then have "\<lceil>r\<rceil> \<le> \<lfloor>s\<rfloor>" by linarith
    with \<open>r < 0\<close> \<open>0 \<le> s\<close> show ?thesis by (simp add: js_trunc_def)
  qed
qed

lemma js_trunc_le: "0 \<le> r \<Longrightarrow> of_int (js_trunc r) \<le> r"
  by (simp add: js_trunc_def)

lemma js_trunc_add_int: "0 \<le> r \<Longrightarrow> 0 \<le> i \<Longrightarrow> js_trunc (of_int i + r) = i + js_trunc r"
  by (simp add: js_trunc_def)

text \<open>\<open>String(n)\<close> and template literals: plain decimal notation.\<close>

definition digit :: "nat \<Rightarrow> char" where
  "digit d = ''0123456789'' ! d"

fun show_nat :: "nat \<Rightarrow> string" where
  "show_nat n = (if n < 10 then [digit n] else show_nat (n div 10) @ [digit (n mod 10)])"

declare show_nat.simps [simp del]

definition show_int :: "int \<Rightarrow> string" where
  "show_int i = (if i < 0 then ''-'' @ show_nat (nat (- i)) else show_nat (nat i))"

text \<open>
  The digits after the point; the fuel bounds them by 20, more than a double carries.
\<close>

fun show_fraction :: "nat \<Rightarrow> rat \<Rightarrow> string" where
  "show_fraction 0 r = []"
| "show_fraction (Suc k) r =
     (if r = 0 then [] else digit (nat \<lfloor>10 * r\<rfloor>) # show_fraction k (frac (10 * r)))"

definition show_num :: "rat \<Rightarrow> string" where
  "show_num r =
     (if r < 0 then ''-'' else []) @ show_nat (nat \<lfloor>\<bar>r\<bar>\<rfloor>) @
     (if frac \<bar>r\<bar> = 0 then [] else ''.'' @ show_fraction 20 (frac \<bar>r\<bar>))"

section \<open>Strings\<close>

definition lower_char :: "char \<Rightarrow> char" where
  "lower_char c = (let n = (of_char c :: nat) in if 65 \<le> n \<and> n \<le> 90 then char_of (n + 32) else c)"

text \<open>\<open>s.toLowerCase()\<close>, on the ASCII letters.\<close>

definition to_lower :: "string \<Rightarrow> string" where
  "to_lower s = map lower_char s"

text \<open>\<open>s.includes(t)\<close>, and a regular expression that is a plain word.\<close>

fun starts_with :: "string \<Rightarrow> string \<Rightarrow> bool" where
  "starts_with s [] = True"
| "starts_with [] (t # ts) = False"
| "starts_with (c # s) (t # ts) = (c = t \<and> starts_with s ts)"

fun js_includes :: "string \<Rightarrow> string \<Rightarrow> bool" where
  "js_includes [] t = (t = [])"
| "js_includes (c # s) t = (starts_with (c # s) t \<or> js_includes s t)"

definition js_space :: "char \<Rightarrow> bool" where
  "js_space c = (let n = (of_char c :: nat) in n = 32 \<or> (9 \<le> n \<and> n \<le> 13) \<or> n = 160)"

definition js_trim :: "string \<Rightarrow> string" where
  "js_trim s = rev (dropWhile js_space (rev (dropWhile js_space s)))"

text \<open>\<open>s.split(c)\<close> with a one-character separator.\<close>

fun js_split :: "char \<Rightarrow> string \<Rightarrow> string list" where
  "js_split c [] = [[]]"
| "js_split c (x # xs) =
     (if x = c then [] # js_split c xs
      else case js_split c xs of [] \<Rightarrow> [[x]] | p # ps \<Rightarrow> (x # p) # ps)"

text \<open>\<open>s.slice(0, n)\<close> with \<open>n\<close> a natural number is \<open>take n s\<close>; \<open>padStart(n, '0')\<close>:\<close>

definition pad0 :: "nat \<Rightarrow> string \<Rightarrow> string" where
  "pad0 n s = replicate (n - length s) (CHR ''0'') @ s"

section \<open>Dates\<close>

text \<open>
  \<open>new Date(x)\<close> on a time value drops the fraction (TimeClip); the model leaves out the
  range limit of about 285,000 years. The civil date of a day count is the usual proleptic
  Gregorian computation with years starting in March.
\<close>

definition js_date :: "rat \<Rightarrow> int" where
  "js_date r = js_trunc r"

definition civil :: "int \<Rightarrow> int \<times> int \<times> int" where
  "civil days =
     (let z = days + 719468;
          era = z div 146097;
          doe = z mod 146097;
          yoe = (doe - doe div 1460 + doe div 36524 - doe div 146096) div 365;
          doy = doe - (365 * yoe + yoe div 4 - yoe div 100);
          mp = (5 * doy + 2) div 153;
          d = doy - (153 * mp + 2) div 5 + 1;
          m = (if mp < 10 then mp + 3 else mp - 9);
          y = yoe + era * 400 + (if m \<le> 2 then 1 else 0)
      in (y, m, d))"

definition show_year :: "int \<Rightarrow> string" where
  "show_year y =
     (if 0 \<le> y \<and> y \<le> 9999 then pad0 4 (show_int y)
      else (if y < 0 then ''-'' else ''+'') @ pad0 6 (show_int \<bar>y\<bar>))"

definition toISOString :: "int \<Rightarrow> string" where
  "toISOString t =
     (let (y, m, d) = civil (t div 86400000);
          r = t mod 86400000
      in show_year y @ ''-'' @ pad0 2 (show_int m) @ ''-'' @ pad0 2 (show_int d) @ ''T'' @
         pad0 2 (show_int (r div 3600000)) @ '':'' @ pad0 2 (show_int (r div 60000 mod 60)) @ '':'' @
         pad0 2 (show_int (r div 1000 mod 60)) @ ''.'' @ pad0 3 (show_int (r mod 1000)) @ ''Z'')"

text \<open>What \<open>Number(raw)\<close> may be; the sign of an infinity is not kept.\<close>

datatype jsnum = NaN | Infinite | Fin rat

section \<open>JSON\<close>

datatype json =
    JNull
  | JBool bool
  | JNum rat
  | JStr string
  | JArr "json list"
  | JObj "(string \<times> json) list"

text \<open>\<open>JSON.stringify\<close> without indentation.\<close>

definition hex4 :: "nat \<Rightarrow> string" where
  "hex4 n = map (\<lambda>d. ''0123456789abcdef'' ! d) [n div 4096 mod 16, n div 256 mod 16, n div 16 mod 16, n mod 16]"

definition quote_char :: "char \<Rightarrow> string" where
  "quote_char c =
     (let n = (of_char c :: nat); backslash = char_of (92 :: nat) in
      if n = 34 then [backslash, c]
      else if n = 92 then [backslash, c]
      else if n = 8 then [backslash, CHR ''b'']
      else if n = 9 then [backslash, CHR ''t'']
      else if n = 10 then [backslash, CHR ''n'']
      else if n = 12 then [backslash, CHR ''f'']
      else if n = 13 then [backslash, CHR ''r'']
      else if n < 32 then [backslash, CHR ''u''] @ hex4 n
      else [c])"

definition quote :: "string \<Rightarrow> string" where
  "quote s = [char_of (34 :: nat)] @ concat (map quote_char s) @ [char_of (34 :: nat)]"

fun commas :: "string list \<Rightarrow> string" where
  "commas [] = []"
| "commas [s] = s"
| "commas (s # ss) = s @ '','' @ commas ss"

fun stringify :: "json \<Rightarrow> string" where
  "stringify JNull = ''null''"
| "stringify (JBool b) = (if b then ''true'' else ''false'')"
| "stringify (JNum r) = show_num r"
| "stringify (JStr s) = quote s"
| "stringify (JArr js) = ''['' @ commas (map stringify js) @ '']''"
| "stringify (JObj kvs) = ''{'' @ commas (map (\<lambda>(k, j). quote k @ '':'' @ stringify j) kvs) @ ''}''"

section \<open>Nullable values\<close>

text \<open>\<open>x ?? y\<close>.\<close>

definition coalesce :: "'a option \<Rightarrow> 'a \<Rightarrow> 'a" where
  "coalesce x y = (case x of None \<Rightarrow> y | Some v \<Rightarrow> v)"

lemma coalesce_simps [simp]: "coalesce None y = y" "coalesce (Some v) y = v"
  by (simp_all add: coalesce_def)

end
