(* ===== verification/Common.thy ===== *)
theory Common
  imports JsLib
begin

text \<open>
  The shared vocabulary of the server, \<open>apps/server/src/common\<close>: the delivery state machine
  (\<open>delivery-status.enum.ts\<close>), the attempt enums (\<open>attempt.enums.ts\<close>), the recognition of a
  unique-constraint violation (\<open>unique-violation.ts\<close>) and the realtime event
  (\<open>realtime-event.ts\<close>). Constructors carry the source's names and are written qualified
  (\<open>DeliveryStatus.FAILED\<close>, \<open>AttemptStatus.FAILED\<close>), as the source writes them. The lemmas show
  what the transition table means: which walks through it exist.
\<close>

section \<open>Enums\<close>

datatype AttemptStatus = IN_PROGRESS | SUCCESS | FAILED

datatype DeliveryErrorType =
    HTTP_ERROR
  | TIMEOUT
  | CONNECTION_REFUSED
  | DNS_ERROR
  | NETWORK_ERROR
  | WORKER_CRASH
  | UNKNOWN

datatype FailureClassification = RETRYABLE | PERMANENT

datatype DeliveryStatus = PENDING | DELIVERING | RETRYING | DELIVERED | FAILED

text \<open>The five statuses as an enumerated type, so that a statement on all of them computes.\<close>

instantiation DeliveryStatus :: enum
begin

definition enum_DeliveryStatus :: "DeliveryStatus list" where
  "enum_DeliveryStatus =
     [PENDING, DELIVERING, RETRYING, DELIVERED, DeliveryStatus.FAILED]"

definition enum_all_DeliveryStatus :: "(DeliveryStatus \<Rightarrow> bool) \<Rightarrow> bool" where
  "enum_all_DeliveryStatus P \<longleftrightarrow>
     P PENDING \<and> P DELIVERING \<and> P RETRYING \<and> P DELIVERED \<and> P DeliveryStatus.FAILED"

definition enum_ex_DeliveryStatus :: "(DeliveryStatus \<Rightarrow> bool) \<Rightarrow> bool" where
  "enum_ex_DeliveryStatus P \<longleftrightarrow>
     P PENDING \<or> P DELIVERING \<or> P RETRYING \<or> P DELIVERED \<or> P DeliveryStatus.FAILED"

instance
proof
  have all: "s \<in> set (enum_class.enum :: DeliveryStatus list)" for s :: DeliveryStatus
    by (cases s) (simp_all add: enum_DeliveryStatus_def)
  then show "UNIV = set (enum_class.enum :: DeliveryStatus list)" by auto
  show "distinct (enum_class.enum :: DeliveryStatus list)" by (simp add: enum_DeliveryStatus_def)
  show "enum_class.enum_all P = Ball (UNIV :: DeliveryStatus set) P" for P
    unfolding enum_all_DeliveryStatus_def by (metis DeliveryStatus.exhaust UNIV_I)
  show "enum_class.enum_ex P = Bex (UNIV :: DeliveryStatus set) P" for P
    unfolding enum_ex_DeliveryStatus_def by (metis DeliveryStatus.exhaust UNIV_I)
qed

end

text \<open>The string values of the enum, used by the client and in messages.\<close>

fun status_name :: "DeliveryStatus \<Rightarrow> string" where
  "status_name PENDING = ''PENDING''"
| "status_name DELIVERING = ''DELIVERING''"
| "status_name RETRYING = ''RETRYING''"
| "status_name DELIVERED = ''DELIVERED''"
| "status_name DeliveryStatus.FAILED = ''FAILED''"

fun error_type_name :: "DeliveryErrorType \<Rightarrow> string" where
  "error_type_name HTTP_ERROR = ''HTTP_ERROR''"
| "error_type_name TIMEOUT = ''TIMEOUT''"
| "error_type_name CONNECTION_REFUSED = ''CONNECTION_REFUSED''"
| "error_type_name DNS_ERROR = ''DNS_ERROR''"
| "error_type_name NETWORK_ERROR = ''NETWORK_ERROR''"
| "error_type_name WORKER_CRASH = ''WORKER_CRASH''"
| "error_type_name UNKNOWN = ''UNKNOWN''"

section \<open>The delivery state machine\<close>

definition TERMINAL_STATUSES :: "DeliveryStatus list" where
  "TERMINAL_STATUSES = [DELIVERED, DeliveryStatus.FAILED]"

definition CLAIMABLE_STATUSES :: "DeliveryStatus list" where
  "CLAIMABLE_STATUSES = [PENDING, RETRYING]"

fun ALLOWED_TRANSITIONS :: "DeliveryStatus \<Rightarrow> DeliveryStatus list" where
  "ALLOWED_TRANSITIONS PENDING = [DELIVERING]"
| "ALLOWED_TRANSITIONS DELIVERING = [DELIVERED, RETRYING, DeliveryStatus.FAILED]"
| "ALLOWED_TRANSITIONS RETRYING = [DELIVERING]"
| "ALLOWED_TRANSITIONS DELIVERED = []"
| "ALLOWED_TRANSITIONS DeliveryStatus.FAILED = []"

definition canTransition :: "DeliveryStatus \<Rightarrow> DeliveryStatus \<Rightarrow> bool" where
  "canTransition from to \<longleftrightarrow> to \<in> set (ALLOWED_TRANSITIONS from)"

definition isTerminal :: "DeliveryStatus \<Rightarrow> bool" where
  "isTerminal status \<longleftrightarrow> status \<in> set TERMINAL_STATUSES"

text \<open>What can be thrown: the driver's error wrapped by the ORM, and the program's own errors.\<close>

record driver_error =
  de_code :: "string option"
  de_errno :: "int option"

datatype exn =
    QueryFailedError "driver_error option" string
  | InvalidDeliveryTransitionError DeliveryStatus DeliveryStatus "string option"
  | NotFoundException string
  | JsError string

definition assertTransition ::
  "DeliveryStatus \<Rightarrow> DeliveryStatus \<Rightarrow> string option \<Rightarrow> exn + unit" where
  "assertTransition from to eventId =
     (if \<not> canTransition from to then Inl (InvalidDeliveryTransitionError from to eventId)
      else Inr ())"

section \<open>Unique-constraint violations\<close>

definition isUniqueViolation :: "exn \<Rightarrow> bool" where
  "isUniqueViolation error =
     (case error of
        QueryFailedError driverError message \<Rightarrow>
          (let code = Option.bind driverError de_code;
               errno = Option.bind driverError de_errno
           in if code = Some ''ER_DUP_ENTRY'' \<or> errno = Some 1062 then True
              else if code = Some ''SQLITE_CONSTRAINT_UNIQUE'' \<or>
                      code = Some ''SQLITE_CONSTRAINT_PRIMARYKEY'' then True
              else js_includes (to_lower message) ''unique constraint failed'' \<or>
                   js_includes (to_lower message) ''duplicate entry'')
      | _ \<Rightarrow> False)"

section \<open>Realtime events\<close>

datatype RealtimeEventType =
    EVENT_ACCEPTED
  | DUPLICATE_EVENT
  | DELIVERY_STARTED
  | DELIVERY_SUCCEEDED
  | DELIVERY_FAILED
  | DELIVERY_RETRY_SCHEDULED
  | DELIVERY_EXHAUSTED
  | DELIVERY_RECOVERED
  | RECEIVER_DELIVERY_RECEIVED
  | RECEIVER_CONFIG_CHANGED

fun event_type_name :: "RealtimeEventType \<Rightarrow> string" where
  "event_type_name EVENT_ACCEPTED = ''event.accepted''"
| "event_type_name DUPLICATE_EVENT = ''duplicate.event''"
| "event_type_name DELIVERY_STARTED = ''delivery.started''"
| "event_type_name DELIVERY_SUCCEEDED = ''delivery.succeeded''"
| "event_type_name DELIVERY_FAILED = ''delivery.failed''"
| "event_type_name DELIVERY_RETRY_SCHEDULED = ''delivery.retry_scheduled''"
| "event_type_name DELIVERY_EXHAUSTED = ''delivery.exhausted''"
| "event_type_name DELIVERY_RECOVERED = ''delivery.recovered''"
| "event_type_name RECEIVER_DELIVERY_RECEIVED = ''receiver.delivery_received''"
| "event_type_name RECEIVER_CONFIG_CHANGED = ''receiver.config_changed''"

text \<open>
  An optional field is an option; an optional field that may also be \<open>null\<close> is an option of an
  option, \<open>None\<close> for an absent field and \<open>Some None\<close> for \<open>null\<close>. The field \<open>re_emittedAt\<close> is
  absent until the publisher fills it.
\<close>

record RealtimeEvent =
  re_type :: RealtimeEventType
  re_eventId :: string
  re_message :: string
  re_emittedAt :: "string option"
  re_status :: "DeliveryStatus option"
  re_eventType :: "string option"
  re_attemptNumber :: "jsnum option"
  re_maxAttempts :: "rat option"
  re_httpStatus :: "int option option"
  re_errorType :: "DeliveryErrorType option option"
  re_errorMessage :: "string option option"
  re_classification :: "FailureClassification option"
  re_nextAttemptAt :: "string option option"
  re_attemptsRemaining :: "rat option"
  re_durationMs :: "int option"
  re_duplicate :: "bool option"

definition realtime_event :: "RealtimeEventType \<Rightarrow> string \<Rightarrow> string \<Rightarrow> RealtimeEvent" where
  "realtime_event type eventId message =
     \<lparr>re_type = type, re_eventId = eventId, re_message = message, re_emittedAt = None,
      re_status = None, re_eventType = None, re_attemptNumber = None, re_maxAttempts = None,
      re_httpStatus = None, re_errorType = None, re_errorMessage = None,
      re_classification = None, re_nextAttemptAt = None, re_attemptsRemaining = None,
      re_durationMs = None, re_duplicate = None\<rparr>"

section \<open>What the transition table means\<close>

lemma canTransition_simps [simp]:
  "canTransition PENDING t \<longleftrightarrow> t = DELIVERING"
  "canTransition RETRYING t \<longleftrightarrow> t = DELIVERING"
  "canTransition DELIVERING t \<longleftrightarrow> t = DELIVERED \<or> t = RETRYING \<or> t = DeliveryStatus.FAILED"
  "\<not> canTransition DELIVERED t"
  "\<not> canTransition DeliveryStatus.FAILED t"
  by (auto simp: canTransition_def)

lemma isTerminal_simps [simp]:
  "isTerminal DELIVERED" "isTerminal DeliveryStatus.FAILED"
  "\<not> isTerminal PENDING" "\<not> isTerminal DELIVERING" "\<not> isTerminal RETRYING"
  by (auto simp: isTerminal_def TERMINAL_STATUSES_def)

lemma claimable_iff [simp]: "s \<in> set CLAIMABLE_STATUSES \<longleftrightarrow> s = PENDING \<or> s = RETRYING"
  by (auto simp: CLAIMABLE_STATUSES_def)

text \<open>
  The state machine as the comment in the source draws it: the specification the table is
  checked against.
\<close>

inductive delivery_step :: "DeliveryStatus \<Rightarrow> DeliveryStatus \<Rightarrow> bool" where
  claim: "s = PENDING \<or> s = RETRYING \<Longrightarrow> delivery_step s DELIVERING"
| succeed: "delivery_step DELIVERING DELIVERED"
| retry: "delivery_step DELIVERING RETRYING"
| give_up: "delivery_step DELIVERING DeliveryStatus.FAILED"

inductive_simps delivery_step_from [simp]:
  "delivery_step PENDING t" "delivery_step DELIVERING t" "delivery_step RETRYING t"
  "delivery_step DELIVERED t" "delivery_step DeliveryStatus.FAILED t"

lemma canTransition_delivery_step: "canTransition s t = delivery_step s t"
  by (cases s) auto

text \<open>A walk through the table: the list of statuses a job goes through after \<open>s\<close>.\<close>

fun walk :: "DeliveryStatus \<Rightarrow> DeliveryStatus list \<Rightarrow> bool" where
  "walk s [] = True"
| "walk s (t # ts) = (canTransition s t \<and> walk t ts)"

text \<open>The attempts of a walk are its visits to DELIVERING.\<close>

definition visits :: "DeliveryStatus list \<Rightarrow> nat" where
  "visits ts = length (filter ((=) DELIVERING) ts)"

lemma walk_alternates:
  "walk s ts \<Longrightarrow>
   (s = PENDING \<or> s = RETRYING \<longrightarrow> length ts \<le> 2 * visits ts) \<and>
   (s = DELIVERING \<longrightarrow> length ts \<le> 2 * visits ts + 1) \<and>
   (isTerminal s \<longrightarrow> ts = [])"
proof (induction ts arbitrary: s)
  case Nil
  then show ?case by (simp add: visits_def)
next
  case (Cons t ts)
  have "isTerminal t \<Longrightarrow> ts = []" using Cons by auto
  then show ?case using Cons by (cases s; cases t) (auto simp: visits_def)
qed

text \<open>
  The transition table is the state machine of the specification, a terminal
  status is exactly one with no way out, and the only way into DELIVERING is from a status
  the worker may claim.
\<close>

theorem transition_table_correct:
  "canTransition s t = delivery_step s t \<and>
   (isTerminal s \<longleftrightarrow> (\<forall>u. \<not> canTransition s u)) \<and>
   (canTransition s DELIVERING \<longleftrightarrow> s \<in> set CLAIMABLE_STATUSES) \<and>
   assertTransition s t e =
     (if delivery_step s t then Inr () else Inl (InvalidDeliveryTransitionError s t e))"
  by (cases s) (auto simp: canTransition_delivery_step assertTransition_def)

text \<open>
  A walk from PENDING that visits DELIVERING \<open>n\<close> times has at most \<open>2 n\<close> steps:
  nothing in the table lets a job move without an attempt, so a bound on the attempts bounds
  the whole life of a job.
\<close>

theorem walk_bounded_by_attempts:
  "walk PENDING ts \<Longrightarrow> length ts \<le> 2 * visits ts"
  using walk_alternates by blast

theorem walk_bounded_by_attempts_witness:
  "walk PENDING [DELIVERING, RETRYING, DELIVERING, DELIVERED] \<and>
   length [DELIVERING, RETRYING, DELIVERING, DELIVERED] \<le>
     2 * visits [DELIVERING, RETRYING, DELIVERING, DELIVERED]"
proof -
  have "walk PENDING [DELIVERING, RETRYING, DELIVERING, DELIVERED]" by simp
  then show ?thesis using walk_bounded_by_attempts by blast
qed

end
