(* ===== verification/Config.thy ===== *)
theory Config
  imports Common
begin

text \<open>
  \<open>apps/server/src/config/configuration.ts\<close>: the environment read into a typed configuration.
  The process environment is a partial map from names to strings, and a
  \<open>ConfigurationError\<close> is the left value of a sum. \<open>Number(raw)\<close> is modelled by its grammar
  over exact rationals. The lemmas show what a configuration that was accepted satisfies, and
  that the padding of the delays ends and gives one delay per wait.
\<close>

section \<open>Reading a number\<close>

definition is_digit :: "char \<Rightarrow> bool" where
  "is_digit c = (let n = (of_char c :: nat) in 48 \<le> n \<and> n \<le> 57)"

definition digits_value :: "string \<Rightarrow> nat" where
  "digits_value s = foldl (\<lambda>n c. 10 * n + (of_char c - 48)) 0 s"

text \<open>The exponent part of a decimal literal: absent, or \<open>e\<close>, an optional sign and digits.\<close>

definition exponent :: "string \<Rightarrow> int option" where
  "exponent s =
     (case s of
        [] \<Rightarrow> Some 0
      | c # r \<Rightarrow>
          if c = CHR ''e'' \<or> c = CHR ''E'' then
            (let (neg, ds) = (case r of [] \<Rightarrow> (False, [])
                              | d # r' \<Rightarrow> if d = CHR ''-'' then (True, r')
                                         else if d = CHR ''+'' then (False, r') else (False, r))
             in if ds \<noteq> [] \<and> list_all is_digit ds
                then Some (if neg then - int (digits_value ds) else int (digits_value ds)) else None)
          else None)"

definition pow10 :: "int \<Rightarrow> rat" where
  "pow10 e = (if 0 \<le> e then 10 ^ nat e else 1 / 10 ^ nat (- e))"

definition unsigned_decimal :: "string \<Rightarrow> rat option" where
  "unsigned_decimal s =
     (let ip = takeWhile is_digit s;
          r = dropWhile is_digit s;
          point = (case r of [] \<Rightarrow> False | c # _ \<Rightarrow> c = CHR ''.'');
          fp = (if point then takeWhile is_digit (tl r) else []);
          r' = (if point then dropWhile is_digit (tl r) else r)
      in if ip = [] \<and> fp = [] then None
         else map_option (\<lambda>e. of_nat (digits_value (ip @ fp)) * pow10 (e - int (length fp)))
                (exponent r'))"

definition radix_digit :: "nat \<Rightarrow> char \<Rightarrow> nat option" where
  "radix_digit b c =
     (let n = (of_char c :: nat);
          d = (if 48 \<le> n \<and> n \<le> 57 then n - 48
               else if 97 \<le> n \<and> n \<le> 102 then n - 87
               else if 65 \<le> n \<and> n \<le> 70 then n - 55 else 99)
      in if d < b then Some d else None)"

fun radix_value :: "nat \<Rightarrow> nat \<Rightarrow> string \<Rightarrow> nat option" where
  "radix_value b acc [] = Some acc"
| "radix_value b acc (c # cs) =
     (case radix_digit b c of None \<Rightarrow> None | Some d \<Rightarrow> radix_value b (b * acc + d) cs)"

definition radix_literal :: "string \<Rightarrow> rat option" where
  "radix_literal s =
     (case s of
        z # x # c # cs \<Rightarrow>
          if z = CHR ''0'' then
            (let b = (if x = CHR ''x'' \<or> x = CHR ''X'' then Some 16
                      else if x = CHR ''o'' \<or> x = CHR ''O'' then Some 8
                      else if x = CHR ''b'' \<or> x = CHR ''B'' then Some 2 else None)
             in Option.bind b (\<lambda>b. map_option of_nat (radix_value b 0 (c # cs))))
          else None
      | _ \<Rightarrow> None)"

text \<open>A value of this size or more, \<open>2 ^ 1024 - 2 ^ 970\<close>, rounds to an infinity.\<close>

definition overflow_bound :: int where
  "overflow_bound = 179769313486231580793728971405303415079934132710037826936173778980444968292764750946649017977587207096330286416692887910946555547851940402630657488671505820681908902000708383676273854845817711531764475730270069855571366959622842914819860834936475292719074168444365510704342711559699508093042880177904174497792"

definition clip :: "rat \<Rightarrow> jsnum" where
  "clip r = (if overflow_bound \<le> \<lfloor>\<bar>r\<bar>\<rfloor> then Infinite else Fin r)"

text \<open>\<open>Number(raw)\<close> of a string.\<close>

definition js_Number :: "string \<Rightarrow> jsnum" where
  "js_Number raw =
     (let s = js_trim raw in
      if s = [] then Fin 0
      else case radix_literal s of Some r \<Rightarrow> clip r
      | None \<Rightarrow>
          (let (neg, u) = (case s of [] \<Rightarrow> (False, [])
                           | c # r \<Rightarrow> if c = CHR ''-'' then (True, r)
                                     else if c = CHR ''+'' then (False, r) else (False, s))
           in if u = ''Infinity'' then Infinite
              else case unsigned_decimal u of
                None \<Rightarrow> NaN
              | Some r \<Rightarrow> clip (if neg then - r else r)))"

fun isFinite :: "jsnum \<Rightarrow> bool" where
  "isFinite (Fin r) = True"
| "isFinite NaN = False"
| "isFinite Infinite = False"

section \<open>The configuration\<close>

datatype DatabaseDriver = mysql | sqlite

record http_config =
  http_port :: rat
  corsOrigin :: string

record database_config =
  db_driver :: DatabaseDriver
  db_host :: string
  db_port :: rat
  db_username :: string
  db_password :: string
  db_name :: string
  db_logging :: bool
  db_file :: string
  db_synchronize :: bool

record webhook_config =
  targetUrl :: string
  timeoutMs :: rat
  signingSecret :: string

record retry_config =
  maxAttempts :: rat
  delaysMs :: "rat list"

record worker_config =
  worker_enabled :: bool
  worker_id :: string
  pollIntervalMs :: rat
  batchSize :: rat
  leaseTimeoutMs :: rat

record AppConfiguration =
  cfg_env :: string
  cfg_http :: http_config
  cfg_database :: database_config
  cfg_webhook :: webhook_config
  cfg_retry :: retry_config
  cfg_worker :: worker_config

datatype config_error = ConfigurationError string

definition dquoted :: "string \<Rightarrow> string" where
  "dquoted s = [CHR 0x22] @ s @ [CHR 0x22]"

type_synonym process_env = "string \<Rightarrow> string option"

definition readString :: "process_env \<Rightarrow> string \<Rightarrow> string option \<Rightarrow> config_error + string" where
  "readString env key fallback =
     (let raw = env key in
      if raw = None \<or> raw = Some '''' then
        (case fallback of
           None \<Rightarrow> Inl (ConfigurationError (''Missing required environment variable '' @ key))
         | Some f \<Rightarrow> Inr f)
      else Inr (the raw))"

definition readNumber :: "process_env \<Rightarrow> string \<Rightarrow> rat \<Rightarrow> config_error + rat" where
  "readNumber env key fallback =
     (let raw = env key in
      if raw = None \<or> raw = Some '''' then Inr fallback
      else case js_Number (the raw) of
        Fin parsed \<Rightarrow> Inr parsed
      | _ \<Rightarrow> Inl (ConfigurationError (''Environment variable '' @ key @
               '' must be a number, got '' @ dquoted (the raw))))"

definition readBoolean :: "process_env \<Rightarrow> string \<Rightarrow> bool \<Rightarrow> config_error + bool" where
  "readBoolean env key fallback =
     (let raw = env key in
      if raw = None \<or> raw = Some '''' then Inr fallback
      else if to_lower (the raw) \<in> set [''true'', ''1'', ''yes''] then Inr True
      else if to_lower (the raw) \<in> set [''false'', ''0'', ''no''] then Inr False
      else Inl (ConfigurationError (''Environment variable '' @ key @
             '' must be a boolean, got '' @ dquoted (the raw))))"

definition parse_delay :: "string \<Rightarrow> config_error + rat" where
  "parse_delay value =
     (case js_Number value of
        Fin parsed \<Rightarrow>
          if parsed < 0 then
            Inl (ConfigurationError (''RETRY_DELAYS_MS contains an invalid value '' @ dquoted value))
          else Inr parsed
      | _ \<Rightarrow> Inl (ConfigurationError (''RETRY_DELAYS_MS contains an invalid value '' @ dquoted value)))"

text \<open>The \<open>while\<close> loop that repeats the last delay until there are enough.\<close>

definition last_delay :: "rat list \<Rightarrow> rat" where
  "last_delay delays = (if delays = [] then 0 else last delays)"

function pad_delays :: "rat list \<Rightarrow> rat \<Rightarrow> rat list" where
  "pad_delays delays required =
     (if of_nat (length delays) < required
      then pad_delays (delays @ [last_delay delays]) required else delays)"
  by pat_completeness auto
termination
proof (relation "measure (\<lambda>(delays, required). nat \<lceil>required\<rceil> - length delays)", simp)
  fix delays :: "rat list" and required :: rat
  assume "of_nat (length delays) < required"
  then have "int (length delays) < \<lceil>required\<rceil>" by (simp add: less_ceiling_iff)
  then show "((delays @ [last_delay delays], required), delays, required)
      \<in> measure (\<lambda>(delays, required). nat \<lceil>required\<rceil> - length delays)"
    by simp
qed

declare pad_delays.simps [simp del]

definition readRetryDelays :: "process_env \<Rightarrow> rat \<Rightarrow> config_error + rat list" where
  "readRetryDelays env maxA =
     (let list = coalesce (env ''RETRY_DELAYS_MS'') [] in
      sum_bind
        (if list \<noteq> [] then
           map_sum_list parse_delay (filter (\<lambda>v. v \<noteq> []) (map js_trim (js_split (CHR '','') list)))
         else
           sum_bind (readNumber env ''RETRY_DELAY_1_MS'' 300000) (\<lambda>d1.
           sum_bind (readNumber env ''RETRY_DELAY_2_MS'' 1800000) (\<lambda>d2. Inr [d1, d2])))
        (\<lambda>delays.
           let required = max (maxA - 1) 0
           in Inr (take (nat (js_trunc required)) (pad_delays delays required))))"

definition buildConfiguration :: "process_env \<Rightarrow> int \<Rightarrow> config_error + AppConfiguration" where
  "buildConfiguration env pid =
     sum_bind (readString env ''DB_DRIVER'' (Some ''mysql'')) (\<lambda>driver.
     if driver \<noteq> ''mysql'' \<and> driver \<noteq> ''sqlite'' then
       Inl (ConfigurationError (''DB_DRIVER must be '' @ dquoted ''mysql'' @ '' or '' @ dquoted ''sqlite'' @
         '', got '' @ dquoted driver))
     else
     sum_bind (readNumber env ''MAX_ATTEMPTS'' 3) (\<lambda>maxA.
     if maxA < 1 then Inl (ConfigurationError ''MAX_ATTEMPTS must be at least 1'')
     else
     sum_bind (readNumber env ''PORT'' 3001) (\<lambda>port.
     sum_bind (readString env ''NODE_ENV'' (Some ''development'')) (\<lambda>nodeEnv.
     sum_bind (readString env ''CORS_ORIGIN'' (Some ''*'')) (\<lambda>cors.
     sum_bind (readString env ''DB_HOST'' (Some ''localhost'')) (\<lambda>host.
     sum_bind (readNumber env ''DB_PORT'' 3306) (\<lambda>dbPort.
     sum_bind (readString env ''DB_USER'' (Some ''webhook'')) (\<lambda>username.
     sum_bind (readString env ''DB_PASSWORD'' (Some ''webhook'')) (\<lambda>password.
     sum_bind (readString env ''DB_NAME'' (Some ''webhook_engine'')) (\<lambda>name.
     sum_bind (readBoolean env ''DB_LOGGING'' False) (\<lambda>logging.
     sum_bind (readString env ''DB_FILE'' (Some '':memory:'')) (\<lambda>file.
     sum_bind (readBoolean env ''DB_SYNCHRONIZE'' (driver = ''sqlite'')) (\<lambda>synchronize.
     sum_bind (readString env ''WEBHOOK_TARGET_URL''
                (Some (''http://localhost:'' @ show_num port @ ''/test-receiver/webhook''))) (\<lambda>target.
     sum_bind (readNumber env ''WEBHOOK_TIMEOUT_MS'' 5000) (\<lambda>timeout.
     sum_bind (readString env ''WEBHOOK_SIGNING_SECRET'' (Some ''dev-secret'')) (\<lambda>secret.
     sum_bind (readRetryDelays env maxA) (\<lambda>delays.
     sum_bind (readBoolean env ''WORKER_ENABLED'' True) (\<lambda>enabled.
     sum_bind (readString env ''WORKER_ID'' (Some (''worker-'' @ show_int pid))) (\<lambda>workerId.
     sum_bind (readNumber env ''WORKER_POLL_INTERVAL_MS'' 1000) (\<lambda>poll.
     sum_bind (readNumber env ''WORKER_BATCH_SIZE'' 10) (\<lambda>batch.
     sum_bind (readNumber env ''WORKER_LEASE_TIMEOUT_MS'' 60000) (\<lambda>lease.
     Inr \<lparr>cfg_env = nodeEnv,
          cfg_http = \<lparr>http_port = port, corsOrigin = cors\<rparr>,
          cfg_database =
            \<lparr>db_driver = (if driver = ''sqlite'' then sqlite else mysql), db_host = host,
             db_port = dbPort, db_username = username, db_password = password, db_name = name,
             db_logging = logging, db_file = file, db_synchronize = synchronize\<rparr>,
          cfg_webhook = \<lparr>targetUrl = target, timeoutMs = timeout, signingSecret = secret\<rparr>,
          cfg_retry = \<lparr>maxAttempts = maxA, delaysMs = delays\<rparr>,
          cfg_worker = \<lparr>worker_enabled = enabled, worker_id = workerId, pollIntervalMs = poll,
                        batchSize = batch, leaseTimeoutMs = lease\<rparr>\<rparr>))))))))))))))))))))))"

section \<open>What an accepted configuration satisfies\<close>

lemma last_delay_snoc [simp]: "last_delay (ds @ [x]) = x"
  by (simp add: last_delay_def)

lemma pad_delays_eq:
  "pad_delays ds r = ds @ replicate (nat \<lceil>r\<rceil> - length ds) (last_delay ds)"
proof (induction ds r rule: pad_delays.induct)
  case (1 ds r)
  show ?case
  proof (cases "of_nat (length ds) < r")
    case True
    then have "int (length ds) < \<lceil>r\<rceil>" by (simp add: less_ceiling_iff)
    then have "nat \<lceil>r\<rceil> - length ds = Suc (nat \<lceil>r\<rceil> - length (ds @ [last_delay ds]))" by simp
    with True "1.IH" show ?thesis by (subst pad_delays.simps) simp
  next
    case False
    then have "\<lceil>r\<rceil> \<le> int (length ds)" by (simp add: ceiling_le_iff)
    with False show ?thesis by (subst pad_delays.simps) simp
  qed
qed

text \<open>The delay after attempt \<open>i + 1\<close>: the configured one, or the last one again.\<close>

definition delay_at :: "rat list \<Rightarrow> nat \<Rightarrow> rat" where
  "delay_at ds i = (if i < length ds then ds ! i else last_delay ds)"

lemma nth_pad_delays: "i < nat \<lceil>r\<rceil> \<Longrightarrow> pad_delays ds r ! i = delay_at ds i"
  by (auto simp: pad_delays_eq delay_at_def nth_append)

lemma padded_delays:
  fixes r :: rat
  assumes "0 \<le> r"
  shows "take (nat (js_trunc r)) (pad_delays ds r) = map (delay_at ds) [0..<nat \<lfloor>r\<rfloor>]"
proof (rule nth_equalityI)
  have up: "nat \<lfloor>r\<rfloor> \<le> nat \<lceil>r\<rceil>" by (intro nat_mono) (simp add: floor_le_ceiling)
  then show "length (take (nat (js_trunc r)) (pad_delays ds r)) =
      length (map (delay_at ds) [0..<nat \<lfloor>r\<rfloor>])"
    using assms by (simp add: js_trunc_def pad_delays_eq)
  fix i
  assume "i < length (take (nat (js_trunc r)) (pad_delays ds r))"
  with assms have "i < nat \<lfloor>r\<rfloor>" by (simp add: js_trunc_def)
  with up assms show "take (nat (js_trunc r)) (pad_delays ds r) ! i =
      map (delay_at ds) [0..<nat \<lfloor>r\<rfloor>] ! i"
    by (simp add: js_trunc_def nth_pad_delays)
qed

lemma parse_delay_nonneg: "parse_delay v = Inr d \<Longrightarrow> 0 \<le> d"
  by (auto simp: parse_delay_def split: jsnum.splits if_splits)

lemma map_parse_delay_nonneg: "map_sum_list parse_delay vs = Inr ds \<Longrightarrow> \<forall>d \<in> set ds. 0 \<le> d"
  by (auto simp: map_sum_list_Inr list_all2_conv_all_nth in_set_conv_nth dest!: parse_delay_nonneg)

lemma readRetryDelays_Inr:
  assumes "readRetryDelays env m = Inr ds" and "1 \<le> m"
  shows "\<exists>cs. ds = map (delay_at cs) [0..<nat (\<lfloor>m\<rfloor> - 1)] \<and>
    (if coalesce (env ''RETRY_DELAYS_MS'') [] \<noteq> [] then \<forall>c \<in> set cs. 0 \<le> c
     else \<exists>d1 d2. cs = [d1, d2] \<and> readNumber env ''RETRY_DELAY_1_MS'' 300000 = Inr d1 \<and>
            readNumber env ''RETRY_DELAY_2_MS'' 1800000 = Inr d2)"
proof -
  let ?list = "coalesce (env ''RETRY_DELAYS_MS'') []"
  from assms obtain cs where
    cs: "(if ?list \<noteq> [] then
            map_sum_list parse_delay (filter (\<lambda>v. v \<noteq> []) (map js_trim (js_split (CHR '','') ?list)))
          else sum_bind (readNumber env ''RETRY_DELAY_1_MS'' 300000) (\<lambda>d1.
               sum_bind (readNumber env ''RETRY_DELAY_2_MS'' 1800000) (\<lambda>d2. Inr [d1, d2]))) = Inr cs"
    and ds: "ds = take (nat (js_trunc (max (m - 1) 0))) (pad_delays cs (max (m - 1) 0))"
    unfolding readRetryDelays_def Let_def sum_bind_Inr_iff by blast
  have "ds = map (delay_at cs) [0..<nat (\<lfloor>m\<rfloor> - 1)]"
    unfolding ds using padded_delays [of "m - 1" cs] assms(2) by (simp add: max_def)
  with cs show ?thesis
    by (intro exI [of _ cs])
       (auto simp: sum_bind_Inr_iff dest: map_parse_delay_nonneg split: if_splits)
qed

text \<open>The same, for the settings by name.\<close>

lemma buildConfiguration_retry:
  assumes "buildConfiguration env pid = Inr c"
  shows "1 \<le> maxAttempts (cfg_retry c) \<and>
    readNumber env ''MAX_ATTEMPTS'' 3 = Inr (maxAttempts (cfg_retry c)) \<and>
    readRetryDelays env (maxAttempts (cfg_retry c)) = Inr (delaysMs (cfg_retry c))"
  using assms by (auto simp: buildConfiguration_def sum_bind_Inr_iff split: if_splits)

lemma accepted_delays:
  assumes "buildConfiguration env pid = Inr c"
  shows "1 \<le> maxAttempts (cfg_retry c) \<and>
    (\<exists>cs. delaysMs (cfg_retry c) = map (delay_at cs) [0..<nat (\<lfloor>maxAttempts (cfg_retry c)\<rfloor> - 1)])"
  using buildConfiguration_retry [OF assms] readRetryDelays_Inr by blast

text \<open>
  A configuration that was accepted allows at least one attempt and has exactly
  one delay for each wait between two attempts: the configured delays in order, the last one
  repeated when there are too few. Delays of RETRY_DELAYS_MS are never negative.
\<close>

theorem accepted_retry_configuration:
  assumes "buildConfiguration env pid = Inr c"
  shows "1 \<le> maxAttempts (cfg_retry c) \<and>
    (\<exists>cs. delaysMs (cfg_retry c) = map (delay_at cs) [0..<nat (\<lfloor>maxAttempts (cfg_retry c)\<rfloor> - 1)] \<and>
       (if coalesce (env ''RETRY_DELAYS_MS'') [] \<noteq> [] then \<forall>d \<in> set cs. 0 \<le> d
        else \<exists>d1 d2. cs = [d1, d2] \<and> readNumber env ''RETRY_DELAY_1_MS'' 300000 = Inr d1 \<and>
               readNumber env ''RETRY_DELAY_2_MS'' 1800000 = Inr d2))"
  using buildConfiguration_retry [OF assms] readRetryDelays_Inr by blast

lemmas reading = readString_def readNumber_def readBoolean_def Let_def

text \<open>A sample environment: five attempts, two configured delays.\<close>

definition sample_env :: process_env where
  "sample_env key =
     (if key = ''MAX_ATTEMPTS'' then Some ''5''
      else if key = ''RETRY_DELAYS_MS'' then Some ''100, 2.5e2'' else None)"

lemma sample_env_retry:
  "map_sum id cfg_retry (buildConfiguration sample_env 7) =
     Inr \<lparr>maxAttempts = 5, delaysMs = [100, 250, 250, 250]\<rparr>"
proof -
  have "js_Number ''5'' = Fin 5" by code_simp
  moreover have "readRetryDelays sample_env 5 = Inr [100, 250, 250, 250]" by code_simp
  ultimately show ?thesis
    by (simp add: buildConfiguration_def reading sample_env_def [of "_ # _"])
qed

theorem accepted_retry_configuration_witness:
  "\<exists>c. buildConfiguration sample_env 7 = Inr c \<and> delaysMs (cfg_retry c) = [100, 250, 250, 250] \<and>
     1 \<le> maxAttempts (cfg_retry c)"
proof -
  from sample_env_retry obtain c where c: "buildConfiguration sample_env 7 = Inr c"
    and r: "cfg_retry c = \<lparr>maxAttempts = 5, delaysMs = [100, 250, 250, 250]\<rparr>"
    by (cases "buildConfiguration sample_env 7") auto
  from accepted_retry_configuration [OF c] c r show ?thesis by auto
qed

text \<open>
  Property C39. The padding loop of the delays ends for every list and every bound, and what
  it returns starts with the configured delays, is long enough, and repeats the last delay.
\<close>

theorem pad_delays_total:
  "pad_delays ds r = ds @ replicate (nat \<lceil>r\<rceil> - length ds) (last_delay ds) \<and>
   r \<le> of_nat (length (pad_delays ds r))"
proof -
  have "r \<le> of_int \<lceil>r\<rceil>" by simp
  also have "(of_int \<lceil>r\<rceil> :: rat) \<le> of_nat (length ds + (nat \<lceil>r\<rceil> - length ds))"
    by linarith
  finally show ?thesis by (simp add: pad_delays_eq)
qed

text \<open>
  Invalid settings stop the process: a driver that is neither MySQL nor SQLite,
  and, with a valid driver, a MAX_ATTEMPTS that is no finite number or is below one.
\<close>

theorem invalid_configuration_refused:
  assumes "(\<exists>d. env ''DB_DRIVER'' = Some d \<and> d \<notin> {[], ''mysql'', ''sqlite''}) \<or>
    (\<exists>s. env ''MAX_ATTEMPTS'' = Some s \<and> s \<noteq> [] \<and>
       (\<not> isFinite (js_Number s) \<or> (\<exists>m. js_Number s = Fin m \<and> m < 1)))"
  shows "\<exists>e. buildConfiguration env pid = Inl e"
proof (cases "buildConfiguration env pid")
  case (Inr c)
  then have "1 \<le> maxAttempts (cfg_retry c)"
    and "readNumber env ''MAX_ATTEMPTS'' 3 = Inr (maxAttempts (cfg_retry c))"
    and "\<exists>d. readString env ''DB_DRIVER'' (Some ''mysql'') = Inr d \<and> d \<in> {''mysql'', ''sqlite''}"
    using buildConfiguration_retry [OF Inr]
    by (auto simp: buildConfiguration_def sum_bind_Inr_iff split: if_splits)
  with assms have False
    by (auto simp: readNumber_def readString_def Let_def split: if_splits jsnum.splits)
  then show ?thesis ..
qed simp

theorem invalid_configuration_refused_witness:
  "\<exists>e. buildConfiguration ((\<lambda>_. None)(''MAX_ATTEMPTS'' := Some ''0'')) 7 = Inl e"
proof (rule invalid_configuration_refused)
  let ?e = "(\<lambda>_. None)(''MAX_ATTEMPTS'' := Some ''0'') :: process_env"
  have "js_Number ''0'' = Fin 0" by code_simp
  then have "?e ''MAX_ATTEMPTS'' = Some ''0'' \<and> ''0'' \<noteq> [] \<and>
      (\<not> isFinite (js_Number ''0'') \<or> (\<exists>m. js_Number ''0'' = Fin m \<and> m < 1))"
    by simp
  then show "(\<exists>d. ?e ''DB_DRIVER'' = Some d \<and> d \<notin> {[], ''mysql'', ''sqlite''}) \<or>
    (\<exists>s. ?e ''MAX_ATTEMPTS'' = Some s \<and> s \<noteq> [] \<and>
       (\<not> isFinite (js_Number s) \<or> (\<exists>m. js_Number s = Fin m \<and> m < 1)))"
    by blast
qed

text \<open>
  The two ways to write the delays are checked differently: a negative delay in
  RETRY_DELAYS_MS is refused, the same delay in RETRY_DELAY_1_MS is accepted and reaches the
  retry policy.
\<close>

theorem negative_named_delay_accepted:
  "(\<exists>e. buildConfiguration ((\<lambda>_. None)(''RETRY_DELAYS_MS'' := Some ''-5'')) 7 = Inl e) \<and>
   map_sum id (delaysMs \<circ> cfg_retry)
     (buildConfiguration ((\<lambda>_. None)(''RETRY_DELAY_1_MS'' := Some ''-5'')) 7) =
     Inr [-5, 1800000]"
proof
  let ?e1 = "(\<lambda>_. None)(''RETRY_DELAYS_MS'' := Some ''-5'') :: process_env"
  let ?e2 = "(\<lambda>_. None)(''RETRY_DELAY_1_MS'' := Some ''-5'') :: process_env"
  have "readRetryDelays ?e1 3 = Inl (ConfigurationError
      (''RETRY_DELAYS_MS contains an invalid value '' @ dquoted ''-5''))"
    by code_simp
  then show "\<exists>e. buildConfiguration ?e1 7 = Inl e"
    by (simp add: buildConfiguration_def reading)
  have "readRetryDelays ?e2 3 = Inr [-5, 1800000]" by code_simp
  then show "map_sum id (delaysMs \<circ> cfg_retry) (buildConfiguration ?e2 7) = Inr [-5, 1800000]"
    by (simp add: buildConfiguration_def reading)
qed

end
