(* ===== verification/WriteQueue.thy ===== *)
theory WriteQueue
  imports Config
begin

text \<open>
  \<open>apps/server/src/database/transaction.runner.ts\<close>: on SQLite the runner chains units of work on a
  promise so that one transaction runs at a time; on MySQL it passes them through. A unit is
  named by the order of its call. The theorems: at most one transaction runs, the units start and
  settle in the order of the calls, and a unit that fails does not hold up the next.
\<close>

section \<open>The runner\<close>

text \<open>
  A unit of work waits for the promise it was chained on (\<open>None\<close> is the initial
  \<open>Promise.resolve()\<close>, \<open>Some i\<close> the settlement of unit \<open>i\<close>), has its transaction open, or has
  settled, with success or not.
\<close>

datatype unit_state = Waiting "nat option" | Open | Settled bool

record runner =
  tr_serializeWrites :: bool
  tr_queue :: "nat option"
  tr_units :: "unit_state list"

definition new_runner :: "DatabaseDriver \<Rightarrow> runner" where
  "new_runner driver = \<lparr>tr_serializeWrites = (driver = sqlite), tr_queue = None, tr_units = []\<rparr>"

text \<open>\<open>run(work)\<close>: the call chains the unit on the queue and makes the queue wait for it.\<close>

definition run_work :: "runner \<Rightarrow> runner" where
  "run_work r =
     (if \<not> tr_serializeWrites r then r\<lparr>tr_units := tr_units r @ [Open]\<rparr>
      else r\<lparr>tr_units := tr_units r @ [Waiting (tr_queue r)], tr_queue := Some (length (tr_units r))\<rparr>)"

text \<open>
  The queue's promise fulfils whether the unit succeeded or failed, so a unit chained on it may
  begin once the unit before it has settled either way.
\<close>

definition unblocked :: "unit_state list \<Rightarrow> nat option \<Rightarrow> bool" where
  "unblocked us p = (case p of None \<Rightarrow> True | Some i \<Rightarrow> (case us ! i of Settled _ \<Rightarrow> True | _ \<Rightarrow> False))"

inductive runner_step :: "runner \<Rightarrow> runner \<Rightarrow> bool" where
  call: "runner_step r (run_work r)"
| start: "i < length (tr_units r) \<Longrightarrow> tr_units r ! i = Waiting p \<Longrightarrow> unblocked (tr_units r) p \<Longrightarrow>
    runner_step r (r\<lparr>tr_units := (tr_units r)[i := Open]\<rparr>)"
| settle: "i < length (tr_units r) \<Longrightarrow> tr_units r ! i = Open \<Longrightarrow>
    runner_step r (r\<lparr>tr_units := (tr_units r)[i := Settled ok]\<rparr>)"

inductive reachable_runner :: "DatabaseDriver \<Rightarrow> runner \<Rightarrow> bool" for driver where
  new: "reachable_runner driver (new_runner driver)"
| step: "reachable_runner driver r \<Longrightarrow> runner_step r r' \<Longrightarrow> reachable_runner driver r'"

section \<open>First come, first served\<close>

definition is_settled :: "unit_state \<Rightarrow> bool" where
  "is_settled u = (case u of Settled _ \<Rightarrow> True | _ \<Rightarrow> False)"

lemma is_settled_simps [simp]: "is_settled (Settled b)" "\<not> is_settled Open" "\<not> is_settled (Waiting p)"
  by (simp_all add: is_settled_def)

lemma unblocked_simps [simp]: "unblocked us None" "unblocked us (Some i) = is_settled (us ! i)"
  by (simp_all add: unblocked_def is_settled_def)

definition before :: "nat \<Rightarrow> nat option" where
  "before i = (case i of 0 \<Rightarrow> None | Suc k \<Rightarrow> Some k)"

text \<open>A unit waits for the one before it, and once it has begun, all before it have settled.\<close>

definition fifo :: "runner \<Rightarrow> bool" where
  "fifo r \<longleftrightarrow>
     tr_queue r = before (length (tr_units r)) \<and>
     (\<forall>i < length (tr_units r).
        case tr_units r ! i of
          Waiting p \<Rightarrow> p = before i
        | _ \<Rightarrow> \<forall>j < i. is_settled (tr_units r ! j))"

lemma fifo_waiting: "fifo r \<Longrightarrow> i < length (tr_units r) \<Longrightarrow> tr_units r ! i = Waiting p \<Longrightarrow> p = before i"
  by (auto simp: fifo_def)

lemma fifo_begun:
  "fifo r \<Longrightarrow> i < length (tr_units r) \<Longrightarrow> \<forall>p. tr_units r ! i \<noteq> Waiting p \<Longrightarrow> j < i \<Longrightarrow> is_settled (tr_units r ! j)"
  unfolding fifo_def by (cases "tr_units r ! i") (force split: unit_state.splits)+

lemma fifo_before:
  assumes "fifo r" and "i < length (tr_units r)" and "unblocked (tr_units r) (before i)" and "j < i"
  shows "is_settled (tr_units r ! j)"
proof (cases i)
  case (Suc k)
  with assms have k: "is_settled (tr_units r ! k)" by (simp add: before_def)
  then have "\<forall>p. tr_units r ! k \<noteq> Waiting p" by auto
  with k fifo_begun [OF assms(1), of k j] assms(2,4) Suc show ?thesis by (cases "j = k") auto
qed (use assms in simp)

lemma fifoI:
  assumes "tr_queue r = before (length (tr_units r))"
    and "\<And>i p. i < length (tr_units r) \<Longrightarrow> tr_units r ! i = Waiting p \<Longrightarrow> p = before i"
    and "\<And>i j. i < length (tr_units r) \<Longrightarrow> \<forall>p. tr_units r ! i \<noteq> Waiting p \<Longrightarrow> j < i \<Longrightarrow> is_settled (tr_units r ! j)"
  shows "fifo r"
  using assms unfolding fifo_def by (auto split: unit_state.split)

lemma fifo_step:
  assumes "runner_step r r'" and "fifo r" and s: "tr_serializeWrites r"
  shows "fifo r' \<and> tr_serializeWrites r'"
  using assms(1)
proof cases
  case call
  have "fifo (run_work r)"
  proof (rule fifoI)
    show "tr_queue (run_work r) = before (length (tr_units (run_work r)))"
      using s by (simp add: run_work_def before_def)
    have units: "tr_units (run_work r) = tr_units r @ [Waiting (tr_queue r)]" using s by (simp add: run_work_def)
    show "p = before i" if "i < length (tr_units (run_work r))" "tr_units (run_work r) ! i = Waiting p" for i p
      using that assms(2) fifo_waiting [OF assms(2)]
      by (cases "i < length (tr_units r)") (auto simp: units nth_append fifo_def less_Suc_eq)
    show "is_settled (tr_units (run_work r) ! j)"
      if "i < length (tr_units (run_work r))" "\<forall>p. tr_units (run_work r) ! i \<noteq> Waiting p" "j < i" for i j
      using that fifo_begun [OF assms(2), of i j]
      by (cases "i < length (tr_units r)") (auto simp: units nth_append less_Suc_eq)
  qed
  with call s show ?thesis by (simp add: run_work_def)
next
  case (start k p)
  have earlier: "is_settled (tr_units r ! j)" if "j < k" for j
    using fifo_before [OF assms(2) start(2) _ that] fifo_waiting [OF assms(2) start(2,3)] start(4) by simp
  have later: "i < k \<or> i = k" if "i < length (tr_units r)" "\<forall>p. tr_units r ! i \<noteq> Waiting p" for i
  proof (rule ccontr)
    assume "\<not> (i < k \<or> i = k)"
    with fifo_begun [OF assms(2) that, of k] start(3) show False by simp
  qed
  have units: "tr_units r' = (tr_units r)[k := Open]" "tr_queue r' = tr_queue r" using start by simp_all
  have "fifo r'"
  proof (rule fifoI)
    show "tr_queue r' = before (length (tr_units r'))" using assms(2) by (simp add: units fifo_def)
    show "p = before i" if "i < length (tr_units r')" "tr_units r' ! i = Waiting p" for i p
      using that fifo_waiting [OF assms(2), of i p] by (cases "i = k") (auto simp: units)
    show "is_settled (tr_units r' ! j)"
      if "i < length (tr_units r')" "\<forall>p. tr_units r' ! i \<noteq> Waiting p" "j < i" for i j
    proof -
      have "i = k \<or> i < k" using later [of i] that(1,2) by (cases "i = k") (auto simp: units)
      then have "j < k" using that(3) by linarith
      with earlier show ?thesis by (simp add: units)
    qed
  qed
  with start s show ?thesis by simp
next
  case (settle k ok)
  have "fifo r'"
    using assms(2) fifo_waiting [OF assms(2)] fifo_begun [OF assms(2)] settle
    by (intro fifoI) (auto simp: nth_list_update fifo_def split: if_splits)
  with settle s show ?thesis by simp
qed

lemma reachable_fifo: "reachable_runner sqlite r \<Longrightarrow> fifo r \<and> tr_serializeWrites r"
proof (induction rule: reachable_runner.induct)
  case new
  show ?case by (simp add: new_runner_def fifo_def before_def)
next
  case (step r r')
  then show ?case using fifo_step by blast
qed

section \<open>The theorems\<close>

text \<open>
  Property C26. On SQLite transactions never overlap and are first come, first served: of the units
  of work the runner was given, at most one has its transaction open, and whenever a unit has begun,
  every unit submitted before it has settled.
\<close>

theorem writes_never_overlap:
  assumes "reachable_runner sqlite r" and "i < length (tr_units r)" and "tr_units r ! i = Open"
  shows "(\<forall>j < length (tr_units r). tr_units r ! j = Open \<longrightarrow> j = i) \<and>
    (\<forall>j < i. is_settled (tr_units r ! j)) \<and>
    (\<forall>j. i < j \<longrightarrow> j < length (tr_units r) \<longrightarrow> (\<exists>p. tr_units r ! j = Waiting p))"
proof -
  have fifo: "fifo r" using reachable_fifo [OF assms(1)] by simp
  have earlier: "is_settled (tr_units r ! j)" if "j < i" for j
    using fifo_begun [OF fifo assms(2) _ that] assms(3) by simp
  have later: "\<exists>p. tr_units r ! j = Waiting p" if "i < j" "j < length (tr_units r)" for j
    using fifo_begun [OF fifo that(2) _ that(1)] assms(3) by auto
  have "j = i" if j: "j < length (tr_units r)" "tr_units r ! j = Open" for j
  proof (cases j i rule: linorder_cases)
    case less
    with earlier [of j] j show ?thesis by simp
  next
    case greater
    with later [of j] j show ?thesis by simp
  qed
  with earlier later show ?thesis by blast
qed

definition demo_runner :: runner where
  "demo_runner = \<lparr>tr_serializeWrites = True, tr_queue = Some 1, tr_units = [Open, Waiting (Some 0)]\<rparr>"

lemma demo_runner_reachable: "reachable_runner sqlite demo_runner"
proof -
  let ?r = "run_work (run_work (new_runner sqlite))"
  have r: "reachable_runner sqlite ?r" by (rule reachable_runner.step [OF reachable_runner.step [OF reachable_runner.new runner_step.call] runner_step.call])
  have "runner_step ?r (?r\<lparr>tr_units := (tr_units ?r)[0 := Open]\<rparr>)"
    by (rule runner_step.start [where p = None]) (simp_all add: run_work_def new_runner_def)
  moreover have "?r\<lparr>tr_units := (tr_units ?r)[0 := Open]\<rparr> = demo_runner"
    by (simp add: run_work_def new_runner_def demo_runner_def)
  ultimately show ?thesis using r reachable_runner.step by metis
qed

theorem writes_never_overlap_witness:
  "tr_units demo_runner ! 0 = Open \<and> length (tr_units demo_runner) = 2 \<and> (\<exists>p. tr_units demo_runner ! 1 = Waiting p)"
proof -
  have "0 < length (tr_units demo_runner)" "tr_units demo_runner ! 0 = Open" "length (tr_units demo_runner) = 2"
    by (simp_all add: demo_runner_def)
  moreover from writes_never_overlap [OF demo_runner_reachable this(1,2), THEN conjunct2, THEN conjunct2] this(3)
  have "\<exists>p. tr_units demo_runner ! 1 = Waiting p" by (elim allE [where x = 1]) simp
  ultimately show ?thesis by blast
qed

lemma step_keeps_units:
  assumes "runner_step r r'" and "i < length (tr_units r)"
  shows "i < length (tr_units r') \<and> (is_settled (tr_units r ! i) \<longrightarrow> tr_units r' ! i = tr_units r ! i)"
  using assms(1)
proof cases
  case call
  with assms(2) show ?thesis by (simp add: run_work_def nth_append)
next
  case (start k p)
  with assms(2) show ?thesis unfolding start(1) by (cases "i = k") (auto simp: start(3))
next
  case (settle k ok)
  with assms(2) show ?thesis unfolding settle(1) by (cases "i = k") (auto simp: settle(3))
qed

text \<open>
  Property C27. The write queue never gets stuck: as long as a unit of work is unsettled, the first
  such unit has its transaction open or may open it now, whether the units before it succeeded or
  failed; no unit is ever lost, and a settled one keeps its outcome.
\<close>

theorem write_queue_never_stuck:
  assumes "reachable_runner sqlite r" and "i < length (tr_units r)" and "\<not> is_settled (tr_units r ! i)"
    and "\<forall>j < i. is_settled (tr_units r ! j)"
  shows "(tr_units r ! i = Open \<or> runner_step r (r\<lparr>tr_units := (tr_units r)[i := Open]\<rparr>)) \<and>
    (\<forall>r'. runner_step r r' \<longrightarrow> i < length (tr_units r') \<and>
       (\<forall>j < i. tr_units r' ! j = tr_units r ! j))"
proof -
  have fifo: "fifo r" using reachable_fifo [OF assms(1)] by simp
  have "tr_units r ! i = Open \<or> runner_step r (r\<lparr>tr_units := (tr_units r)[i := Open]\<rparr>)"
  proof (cases "tr_units r ! i")
    case (Waiting p)
    then have "p = before i" using fifo_waiting [OF fifo assms(2)] by blast
    then have "unblocked (tr_units r) p" using assms(4) by (cases i) (simp_all add: before_def)
    with Waiting assms(2) show ?thesis by (auto intro: runner_step.start)
  qed (use assms(3) in simp_all)
  moreover have "i < length (tr_units r') \<and> (\<forall>j < i. tr_units r' ! j = tr_units r ! j)" if "runner_step r r'" for r'
    using step_keeps_units [OF that] assms(2,4) by (meson less_trans)
  ultimately show ?thesis by blast
qed

theorem write_queue_never_stuck_witness:
  "\<exists>r. reachable_runner sqlite r \<and> tr_units r ! 0 = Settled False \<and>
     (tr_units r ! 1 = Open \<or> runner_step r (r\<lparr>tr_units := (tr_units r)[1 := Open]\<rparr>))"
proof -
  let ?r = "demo_runner\<lparr>tr_units := (tr_units demo_runner)[0 := Settled False]\<rparr>"
  have r: "reachable_runner sqlite ?r"
    by (rule reachable_runner.step [OF demo_runner_reachable], rule runner_step.settle) (simp_all add: demo_runner_def)
  have "tr_units ?r = [Settled False, Waiting (Some 0)]" by (simp add: demo_runner_def)
  then have "1 < length (tr_units ?r)" "\<not> is_settled (tr_units ?r ! 1)" "\<forall>j < 1. is_settled (tr_units ?r ! j)"
    "tr_units ?r ! 0 = Settled False"
    by (simp_all add: less_Suc_eq)
  with write_queue_never_stuck [OF r this(1-3)] r show ?thesis by blast
qed

end
