(* ===== verification/Prog.thy ===== *)
theory Prog
  imports Prelude
begin

text \<open>
  Programs as resumptions. An asynchronous method of the server runs between two
  \<open>await\<close>s without interruption; at an \<open>await\<close> any other request handler or worker may
  run. A program is therefore a tree: it has returned, it has thrown, or it performs one
  atomic action on the world and continues. The two meanings of a program derive from the
  same tree: \<open>run\<close> executes it alone, and \<open>pool_step\<close> interleaves the actions of any
  number of programs, any of which may die between two actions.

  The predicate \<open>sat\<close> is a rely/guarantee judgement on a program: \<open>R\<close> is what the others
  may do between two actions, \<open>I\<close> the invariant every action keeps, \<open>G\<close> what each action
  guarantees, \<open>Q\<close> and \<open>E\<close> the postconditions of a return and of a throw.
\<close>

section \<open>Programs\<close>

datatype (dead 'w, dead 'e, dead 'a) prog =
    Ret 'a
  | Raise 'e
  | Act "'w \<Rightarrow> ('w, 'e, 'a) prog \<times> 'w"

lemma prog_induct [case_names Ret Raise Act]:
  assumes "\<And>x. P (Ret x)" and "\<And>e. P (Raise e)"
    and "\<And>f. (\<And>w. P (fst (f w))) \<Longrightarrow> P (Act f)"
  shows "P p"
proof (induction p)
  case (Act f)
  then show ?case by (intro assms(3)) (metis fsts.intros rangeI)
qed (fact assms)+

primrec bindP :: "('w, 'e, 'a) prog \<Rightarrow> ('a \<Rightarrow> ('w, 'e, 'b) prog) \<Rightarrow> ('w, 'e, 'b) prog" where
  "bindP (Ret x) k = k x"
| "bindP (Raise e) k = Raise e"
| "bindP (Act f) k = Act (\<lambda>w. map_prod (\<lambda>p. bindP p k) id (f w))"

text \<open>\<open>try p catch (e) h\<close>.\<close>

primrec catchP :: "('w, 'e, 'a) prog \<Rightarrow> ('e \<Rightarrow> ('w, 'e, 'a) prog) \<Rightarrow> ('w, 'e, 'a) prog" where
  "catchP (Ret x) h = Ret x"
| "catchP (Raise e) h = h e"
| "catchP (Act f) h = Act (\<lambda>w. map_prod (\<lambda>p. catchP p h) id (f w))"

text \<open>\<open>for (const x of xs) s = body(x, s)\<close>: the loop over a list, one body after the other.\<close>

primrec forP :: "'x list \<Rightarrow> ('x \<Rightarrow> 's \<Rightarrow> ('w, 'e, 's) prog) \<Rightarrow> 's \<Rightarrow> ('w, 'e, 's) prog" where
  "forP [] body s = Ret s"
| "forP (x # xs) body s = bindP (body x s) (forP xs body)"

text \<open>One atomic action that cannot throw.\<close>

definition actP :: "('w \<Rightarrow> 'a \<times> 'w) \<Rightarrow> ('w, 'e, 'a) prog" where
  "actP f = Act (\<lambda>w. map_prod Ret id (f w))"

text \<open>An atomic action that may throw.\<close>

definition tryP :: "('w \<Rightarrow> ('e + 'a) \<times> 'w) \<Rightarrow> ('w, 'e, 'a) prog" where
  "tryP f = Act (\<lambda>w. map_prod (case_sum Raise Ret) id (f w))"

section \<open>Running a program alone\<close>

primrec run :: "('w, 'e, 'a) prog \<Rightarrow> 'w \<Rightarrow> ('e + 'a) \<times> 'w" where
  "run (Ret x) = (\<lambda>w. (Inr x, w))"
| "run (Raise e) = (\<lambda>w. (Inl e, w))"
| "run (Act f) = (\<lambda>w. case map_prod run id (f w) of (g, w') \<Rightarrow> g w')"

lemma run_Act [simp]: "run (Act f) w = run (fst (f w)) (snd (f w))"
  by (simp add: map_prod_def split_beta)

declare run.simps(3) [simp del]

lemma run_bindP [run_simps]:
  "run (bindP p k) w = (case run p w of (Inl e, w') \<Rightarrow> (Inl e, w') | (Inr x, w') \<Rightarrow> run (k x) w')"
  by (induction p arbitrary: w rule: prog_induct) (auto split: sum.splits)

lemma run_catchP [run_simps]:
  "run (catchP p h) w = (case run p w of (Inl e, w') \<Rightarrow> run (h e) w' | (Inr x, w') \<Rightarrow> (Inr x, w'))"
  by (induction p arbitrary: w rule: prog_induct) (auto split: sum.splits)

lemma run_actP [run_simps]: "run (actP f) w = (case f w of (x, w') \<Rightarrow> (Inr x, w'))"
  by (simp add: actP_def split_beta)

lemma run_tryP [run_simps]: "run (tryP f) w = f w"
  by (cases "f w") (auto simp: tryP_def split: sum.splits)

section \<open>Rely/guarantee judgements\<close>

primrec sat ::
  "('w \<Rightarrow> 'w \<Rightarrow> bool) \<Rightarrow> ('w \<Rightarrow> bool) \<Rightarrow> ('w \<Rightarrow> 'w \<Rightarrow> bool) \<Rightarrow> ('a \<Rightarrow> 'w \<Rightarrow> bool) \<Rightarrow>
   ('e \<Rightarrow> 'w \<Rightarrow> bool) \<Rightarrow> ('w, 'e, 'a) prog \<Rightarrow> 'w \<Rightarrow> bool" where
  "sat R I G Q E (Ret x) = (\<lambda>w. Q x w)"
| "sat R I G Q E (Raise e) = (\<lambda>w. E e w)"
| "sat R I G Q E (Act f) = (\<lambda>w. case map_prod (sat R I G Q E) id (f w) of
     (s, w') \<Rightarrow> I w' \<and> G w w' \<and> (\<forall>w''. R w' w'' \<longrightarrow> I w'' \<longrightarrow> s w''))"

lemma sat_Act [simp]:
  "sat R I G Q E (Act f) w \<longleftrightarrow>
     I (snd (f w)) \<and> G w (snd (f w)) \<and>
     (\<forall>w''. R (snd (f w)) w'' \<longrightarrow> I w'' \<longrightarrow> sat R I G Q E (fst (f w)) w'')"
  by (simp add: map_prod_def split_beta)

declare sat.simps(3) [simp del]

lemma sat_bindP:
  assumes "sat R I G Q' E p w" and "I w"
    and "\<And>x w. Q' x w \<Longrightarrow> I w \<Longrightarrow> sat R I G Q E (k x) w"
  shows "sat R I G Q E (bindP p k) w"
  using assms by (induction p arbitrary: w rule: prog_induct) auto

lemma sat_catchP:
  assumes "sat R I G Q E' p w" and "I w"
    and "\<And>e w. E' e w \<Longrightarrow> I w \<Longrightarrow> sat R I G Q E (h e) w"
  shows "sat R I G Q E (catchP p h) w"
  using assms by (induction p arbitrary: w rule: prog_induct) auto

lemma sat_conseq:
  assumes "sat R I G Q E p w" and "I w"
    and "\<And>x w. Q x w \<Longrightarrow> I w \<Longrightarrow> Q' x w" and "\<And>e w. E e w \<Longrightarrow> I w \<Longrightarrow> E' e w"
    and "\<And>v v'. I v \<Longrightarrow> I v' \<Longrightarrow> G v v' \<Longrightarrow> G' v v'" and "\<And>v v'. R' v v' \<Longrightarrow> R v v'"
  shows "sat R' I G' Q' E' p w"
  using assms by (induction p arbitrary: w rule: prog_induct) auto

lemma sat_forP:
  assumes "L s w" and "I w"
    and "\<And>x s w. x \<in> set xs \<Longrightarrow> L s w \<Longrightarrow> I w \<Longrightarrow> sat R I G L E (body x s) w"
  shows "sat R I G L E (forP xs body s) w"
  using assms
proof (induction xs arbitrary: s w)
  case Nil
  then show ?case by simp
next
  case (Cons x xs)
  have "sat R I G L E (body x s) w" using Cons.prems by simp
  then show ?case
    by simp (rule sat_bindP, assumption, rule Cons.prems(2), rule Cons.IH, auto intro: Cons.prems)
qed

text \<open>A judgement speaks for the sequential run as soon as the rely allows no interference.\<close>

lemma sat_run:
  assumes "sat R I G Q E p w" and "I w" and "\<And>v. R v v" and "\<And>v. G v v"
    and "\<And>u v v'. G u v \<Longrightarrow> G v v' \<Longrightarrow> G u v'"
  shows "I (snd (run p w)) \<and> G w (snd (run p w)) \<and>
    (case fst (run p w) of Inl e \<Rightarrow> E e (snd (run p w)) | Inr x \<Rightarrow> Q x (snd (run p w)))"
  using assms(1,2)
proof (induction p arbitrary: w rule: prog_induct)
  case (Act f)
  let ?w = "snd (f w)"
  from Act.prems have I: "I ?w" and G: "G w ?w" and "sat R I G Q E (fst (f w)) ?w"
    by (auto simp: assms(3))
  from Act.IH [OF this(3) I] G have "I (snd (run (fst (f w)) ?w)) \<and> G w (snd (run (fst (f w)) ?w)) \<and>
    (case fst (run (fst (f w)) ?w) of Inl e \<Rightarrow> E e (snd (run (fst (f w)) ?w))
     | Inr x \<Rightarrow> Q x (snd (run (fst (f w)) ?w)))"
    by (blast intro: assms(5))
  then show ?case by (simp only: run_Act)
qed (auto simp: assms(4))

section \<open>Interleaving\<close>

text \<open>
  A pool holds the running programs by slot. Any program may do its next action, any may
  die (a crash, or the end of a finished one), and a free slot may start one of the
  programs \<open>entry\<close> allows it.
\<close>

type_synonym ('k, 'w, 'e, 'a) pool = "('k \<Rightarrow> ('w, 'e, 'a) prog option) \<times> 'w"

inductive pool_step ::
  "('k \<Rightarrow> ('w, 'e, 'a) prog set) \<Rightarrow> ('k, 'w, 'e, 'a) pool \<Rightarrow> ('k, 'w, 'e, 'a) pool \<Rightarrow> bool"
  for entry where
  act: "ps k = Some (Act f) \<Longrightarrow> pool_step entry (ps, w) (ps(k \<mapsto> fst (f w)), snd (f w))"
| die: "pool_step entry (ps, w) (ps(k := None), w)"
| spawn: "ps k = None \<Longrightarrow> p \<in> entry k \<Longrightarrow> pool_step entry (ps, w) (ps(k \<mapsto> p), w)"

inductive pool_steps ::
  "('k \<Rightarrow> ('w, 'e, 'a) prog set) \<Rightarrow> ('k, 'w, 'e, 'a) pool \<Rightarrow> ('k, 'w, 'e, 'a) pool \<Rightarrow> bool"
  for entry where
  start: "pool_steps entry c c"
| further: "pool_steps entry c c' \<Longrightarrow> pool_step entry c' c'' \<Longrightarrow> pool_steps entry c c''"

lemma pool_steps_trans:
  "pool_steps entry c' c'' \<Longrightarrow> pool_steps entry c c' \<Longrightarrow> pool_steps entry c c''"
  by (induction rule: pool_steps.induct) (auto intro: pool_steps.intros)

inductive_cases pool_stepE: "pool_step entry (ps, w) (ps', w')"

text \<open>
  The interface of a concurrent system: what every slot relies on and guarantees, and that
  every program a slot may start meets its judgement. The lemmas of the locale carry the
  judgements of the single programs to every interleaving of them.
\<close>

locale concurrent_system =
  fixes entry :: "'k \<Rightarrow> ('w, 'e, 'a) prog set"
    and I :: "'w \<Rightarrow> bool"
    and R :: "'k \<Rightarrow> 'w \<Rightarrow> 'w \<Rightarrow> bool"
    and G :: "'k \<Rightarrow> 'w \<Rightarrow> 'w \<Rightarrow> bool"
    and H :: "'w \<Rightarrow> 'w \<Rightarrow> bool"
  assumes rely_refl: "R k w w"
    and rely_trans: "R k u v \<Longrightarrow> R k v w \<Longrightarrow> R k u w"
    and guarantee_rely: "j \<noteq> k \<Longrightarrow> I u \<Longrightarrow> I v \<Longrightarrow> G j u v \<Longrightarrow> R k u v"
    and entry_sat: "p \<in> entry k \<Longrightarrow> I w \<Longrightarrow> sat (R k) I (G k) (\<lambda>_ _. True) (\<lambda>_ _. True) p w"
    and history_refl: "H w w"
    and history_trans: "H u v \<Longrightarrow> H v w \<Longrightarrow> H u w"
    and guarantee_history: "I u \<Longrightarrow> I v \<Longrightarrow> G k u v \<Longrightarrow> H u v"
begin

definition ready :: "('k, 'w, 'e, 'a) pool \<Rightarrow> bool" where
  "ready c \<longleftrightarrow> I (snd c) \<and>
     (\<forall>k p w'. fst c k = Some p \<longrightarrow> R k (snd c) w' \<longrightarrow> I w' \<longrightarrow>
        sat (R k) I (G k) (\<lambda>_ _. True) (\<lambda>_ _. True) p w')"

lemma ready_start: "I w \<Longrightarrow> ready (Map.empty, w)"
  by (simp add: ready_def)

lemma ready_act:
  assumes r: "ready (ps, w)" and k: "ps k = Some (Act f)"
  shows "ready (ps(k \<mapsto> fst (f w)), snd (f w)) \<and> G k w (snd (f w))"
proof -
  let ?w = "snd (f w)"
  from r k have "sat (R k) I (G k) (\<lambda>_ _. True) (\<lambda>_ _. True) (Act f) w"
    unfolding ready_def fst_conv snd_conv using rely_refl by blast
  then have I': "I ?w" and G': "G k w ?w"
    and own: "\<And>w'. R k ?w w' \<Longrightarrow> I w' \<Longrightarrow> sat (R k) I (G k) (\<lambda>_ _. True) (\<lambda>_ _. True) (fst (f w)) w'"
    by auto
  from r have I: "I w" by (simp add: ready_def)
  have other: "sat (R j) I (G j) (\<lambda>_ _. True) (\<lambda>_ _. True) p w'"
    if "j \<noteq> k" "ps j = Some p" "R j ?w w'" "I w'" for j p w'
  proof -
    from that(1) have "R j w ?w" by (intro guarantee_rely [OF _ I I' G']) simp
    then have "R j w w'" using that(3) by (rule rely_trans)
    with r that show ?thesis by (auto simp: ready_def)
  qed
  with I' G' own show ?thesis by (auto simp: ready_def)
qed

lemma ready_step: "pool_step entry c c' \<Longrightarrow> ready c \<Longrightarrow> ready c' \<and> H (snd c) (snd c')"
proof (induction rule: pool_step.induct)
  case (act ps k f w)
  then have "ready (ps(k \<mapsto> fst (f w)), snd (f w))" and "G k w (snd (f w))"
    using ready_act by blast+
  with act show ?case by (auto simp: ready_def intro: guarantee_history)
next
  case (die ps w k)
  then show ?case by (auto simp: ready_def history_refl)
next
  case (spawn ps k p w)
  then show ?case by (auto simp: ready_def history_refl intro: entry_sat)
qed

lemma ready_steps: "pool_steps entry c c' \<Longrightarrow> ready c \<Longrightarrow> ready c' \<and> H (snd c) (snd c')"
  by (induction rule: pool_steps.induct)
     (auto intro: history_refl history_trans dest: ready_step)

lemma reachable_invariant: "pool_steps entry (Map.empty, w0) (ps, w) \<Longrightarrow> I w0 \<Longrightarrow> I w"
  using ready_steps [of "(Map.empty, w0)" "(ps, w)"] by (simp add: ready_start) (simp add: ready_def)

text \<open>What a slot guarantees holds of its next action in every reachable state.\<close>

lemma reachable_guarantee:
  assumes "pool_steps entry (Map.empty, w0) (ps, w)" and "I w0" and "ps k = Some (Act f)"
  shows "G k w (snd (f w))"
  using ready_steps [OF assms(1) ready_start [OF assms(2)]] ready_act assms(3) by blast

lemma reachable_history:
  assumes "pool_steps entry (Map.empty, w0) c" and "pool_steps entry c c'" and "I w0"
  shows "H (snd c) (snd c')"
  using assms ready_steps ready_start by blast

end

section \<open>Derived forms\<close>

definition mapP :: "('a \<Rightarrow> 'b) \<Rightarrow> ('w, 'e, 'a) prog \<Rightarrow> ('w, 'e, 'b) prog" where
  "mapP f p = bindP p (\<lambda>x. Ret (f x))"

text \<open>The result of a program, thrown or returned, as a value.\<close>

definition attemptP :: "('w, 'e, 'a) prog \<Rightarrow> ('w, 'e, 'e + 'a) prog" where
  "attemptP p = catchP (mapP Inr p) (\<lambda>e. Ret (Inl e))"

text \<open>\<open>try { p } finally { f }\<close>.\<close>

definition finallyP :: "('w, 'e, 'a) prog \<Rightarrow> ('w, 'e, unit) prog \<Rightarrow> ('w, 'e, 'a) prog" where
  "finallyP p f =
     bindP (attemptP p) (\<lambda>r. bindP f (\<lambda>_. case r of Inl e \<Rightarrow> Raise e | Inr x \<Rightarrow> Ret x))"

lemma run_mapP [run_simps]:
  "run (mapP f p) w = (case run p w of (Inl e, w') \<Rightarrow> (Inl e, w') | (Inr x, w') \<Rightarrow> (Inr (f x), w'))"
  by (auto simp: mapP_def run_bindP split: prod.splits sum.splits)

lemma run_attemptP [run_simps]: "run (attemptP p) w = (case run p w of (r, w') \<Rightarrow> (Inr r, w'))"
  by (auto simp: attemptP_def run_catchP run_mapP split: prod.splits sum.splits)

end
