(* ===== verification/Webhook.thy ===== *)
theory Webhook
  imports Config
begin

text \<open>
  The pure part of \<open>apps/server/src/delivery/webhook.client.ts\<close>: the request that goes out,
  and how a response or a transport failure becomes a normalised result. The HTTP library and
  the HMAC are not under src/: \<open>theory World\<close> takes the exchange as a parameter of the model,
  and \<open>sign\<close> takes the keyed hash as an argument.
\<close>

record WebhookDeliveryRequest =
  wr_eventId :: string
  wr_type :: string
  wr_occurredAt :: int
  wr_payload :: json
  wr_attemptNumber :: int

record WebhookDeliveryResult =
  wd_responded :: bool
  wd_httpStatus :: "int option"
  wd_errorType :: "DeliveryErrorType option"
  wd_errorMessage :: "string option"
  wd_durationMs :: int

section \<open>The HTTP library's interface\<close>

record http_request =
  hr_url :: string
  hr_body :: json
  hr_timeout :: rat
  hr_headers :: "(string \<times> string) list"

text \<open>A response; its data is absent, a string or a JSON value.\<close>

record axios_response =
  ax_status :: int
  ax_statusText :: string
  ax_data :: "json option"

text \<open>What a failed call throws: its \<open>code\<close>, its \<open>message\<close>, and \<open>String(error)\<close>.\<close>

record axios_error =
  ae_code :: "string option"
  ae_message :: "string option"
  ae_string :: string

type_synonym http_reply = "axios_error + axios_response"

section \<open>The request\<close>

definition webhook_body :: "WebhookDeliveryRequest \<Rightarrow> json" where
  "webhook_body request =
     JObj [(''eventId'', JStr (wr_eventId request)),
           (''type'', JStr (wr_type request)),
           (''occurredAt'', JStr (toISOString (wr_occurredAt request))),
           (''payload'', wr_payload request)]"

definition sign :: "(string \<Rightarrow> string \<Rightarrow> string) \<Rightarrow> string \<Rightarrow> string \<Rightarrow> string" where
  "sign hmacSha256Hex body secret = ''sha256='' @ hmacSha256Hex secret body"

definition webhook_request ::
  "webhook_config \<Rightarrow> (string \<Rightarrow> string \<Rightarrow> string) \<Rightarrow> int \<Rightarrow> WebhookDeliveryRequest \<Rightarrow> http_request" where
  "webhook_request cfg hmacSha256Hex now request =
     (let body = webhook_body request;
          serialized = stringify body
      in \<lparr>hr_url = targetUrl cfg, hr_body = body, hr_timeout = timeoutMs cfg,
          hr_headers =
            [(''Content-Type'', ''application/json''),
             (''X-Webhook-Event-Id'', wr_eventId request),
             (''X-Webhook-Event-Type'', wr_type request),
             (''X-Webhook-Attempt'', show_int (wr_attemptNumber request)),
             (''X-Webhook-Timestamp'', toISOString now),
             (''X-Webhook-Signature'', sign hmacSha256Hex serialized (signingSecret cfg))]\<rparr>)"

section \<open>The result\<close>

definition httpReason :: "int \<Rightarrow> string" where
  "httpReason status =
     coalesce (map_of
       [(400, ''Bad Request''), (401, ''Unauthorized''), (403, ''Forbidden''), (404, ''Not Found''),
        (405, ''Method Not Allowed''), (408, ''Request Timeout''), (422, ''Unprocessable Entity''),
        (429, ''Too Many Requests''), (500, ''Internal Server Error''), (502, ''Bad Gateway''),
        (503, ''Service Unavailable''), (504, ''Gateway Timeout'')] status) ''HTTP Error''"

definition body_text :: "json option \<Rightarrow> string" where
  "body_text data =
     (case data of
        Some (JStr s) \<Rightarrow> s
      | None \<Rightarrow> stringify (JStr [])
      | Some JNull \<Rightarrow> stringify (JStr [])
      | Some j \<Rightarrow> stringify j)"

definition describeHttpFailure :: "axios_response \<Rightarrow> string" where
  "describeHttpFailure response =
     (let statusText = (if ax_statusText response \<noteq> [] then ax_statusText response
                        else httpReason (ax_status response));
          body = body_text (ax_data response);
          detail = (if body \<noteq> [] \<and> body \<noteq> ''{}'' \<and> body \<noteq> [CHR 0x22, CHR 0x22]
                    then '' '' @ take 300 body else [])
      in js_trim (show_int (ax_status response) @ '' '' @ statusText @ detail))"

definition transport_error_type :: "string option \<Rightarrow> DeliveryErrorType" where
  "transport_error_type code =
     (case code of
        None \<Rightarrow> UNKNOWN
      | Some c \<Rightarrow>
          if c \<in> set [''ECONNABORTED'', ''ETIMEDOUT'', ''ERR_CANCELED''] then TIMEOUT
          else if c = ''ECONNREFUSED'' then CONNECTION_REFUSED
          else if c \<in> set [''ENOTFOUND'', ''EAI_AGAIN''] then DNS_ERROR
          else if c \<in> set [''ECONNRESET'', ''EPIPE'', ''EHOSTUNREACH'', ''ENETUNREACH'', ''ERR_BAD_RESPONSE'']
            then NETWORK_ERROR
          else if c \<noteq> [] then NETWORK_ERROR else UNKNOWN)"

definition mapTransportError :: "axios_error \<Rightarrow> DeliveryErrorType \<times> string" where
  "mapTransportError error =
     (let code = ae_code error;
          message = coalesce (ae_message error) (ae_string error)
      in (transport_error_type code,
          (case code of
             None \<Rightarrow> message
           | Some c \<Rightarrow> if c \<noteq> [] then c @ '': '' @ message else message)))"

text \<open>
  The value \<open>send\<close> returns for a reply; it returns one for every reply, a delivery outcome is
  never an exception.
\<close>

definition delivery_result :: "int \<Rightarrow> http_reply \<Rightarrow> WebhookDeliveryResult" where
  "delivery_result durationMs reply =
     (case reply of
        Inr response \<Rightarrow>
          (let ok = 200 \<le> ax_status response \<and> ax_status response < 300
           in \<lparr>wd_responded = True, wd_httpStatus = Some (ax_status response),
               wd_errorType = (if ok then None else Some HTTP_ERROR),
               wd_errorMessage = (if ok then None else Some (describeHttpFailure response)),
               wd_durationMs = durationMs\<rparr>)
      | Inl error \<Rightarrow>
          (let (errorType, errorMessage) = mapTransportError error
           in \<lparr>wd_responded = False, wd_httpStatus = None, wd_errorType = Some errorType,
               wd_errorMessage = Some errorMessage, wd_durationMs = durationMs\<rparr>))"

section \<open>Facts\<close>

definition ok_status :: "int \<Rightarrow> bool" where
  "ok_status s \<longleftrightarrow> 200 \<le> s \<and> s < 300"

definition reply_ok :: "http_reply \<Rightarrow> bool" where
  "reply_ok reply = (case reply of Inr response \<Rightarrow> ok_status (ax_status response) | Inl _ \<Rightarrow> False)"

lemma delivery_result_simps [simp]:
  "wd_responded (delivery_result d (Inr r)) \<and> wd_httpStatus (delivery_result d (Inr r)) = Some (ax_status r)"
  "\<not> wd_responded (delivery_result d (Inl e))"
  "wd_httpStatus (delivery_result d (Inl e)) = None"
  "wd_durationMs (delivery_result d reply) = d"
  by (auto simp: delivery_result_def Let_def split: sum.splits prod.splits)

text \<open>
  Property C40. A normalised result is well formed: it carries an error type and a message
  exactly when the receiver did not answer 2xx, an HTTP status exactly when it answered, and
  its error type says which: HTTP_ERROR for an answer, another one for a transport failure,
  and never WORKER_CRASH, which is reserved for lease recovery.
\<close>

theorem delivery_result_well_formed:
  "(wd_errorType (delivery_result d reply) = None \<longleftrightarrow> reply_ok reply) \<and>
   (wd_errorMessage (delivery_result d reply) = None \<longleftrightarrow> reply_ok reply) \<and>
   (wd_responded (delivery_result d reply) \<longleftrightarrow> wd_httpStatus (delivery_result d reply) \<noteq> None) \<and>
   (wd_errorType (delivery_result d reply) = Some HTTP_ERROR \<longleftrightarrow>
      wd_responded (delivery_result d reply) \<and> \<not> reply_ok reply) \<and>
   wd_errorType (delivery_result d reply) \<noteq> Some WORKER_CRASH"
  by (cases reply)
     (auto simp: delivery_result_def mapTransportError_def transport_error_type_def Let_def
        reply_ok_def ok_status_def split: option.splits)

end
