(* ===== verification/Policy.thy ===== *)
theory Policy
  imports Webhook
begin

text \<open>
  \<open>apps/server/src/delivery/retry-policy.ts\<close>: the classification of a result and the arithmetic
  of the retry budget. The locale \<open>retry_budget\<close> is what the delivery service relies on; it is
  interpreted on the policy below. The lemmas give the classification of every status, and the
  policy's delays under a configuration that \<open>theory Config\<close> accepted.
\<close>

datatype AttemptOutcome = Delivered_2xx | Failure FailureClassification

definition RETRYABLE_CLIENT_STATUSES :: "int list" where
  "RETRYABLE_CLIENT_STATUSES = [408, 429]"

definition classifyHttpStatus :: "int \<Rightarrow> AttemptOutcome" where
  "classifyHttpStatus status =
     (if 200 \<le> status \<and> status < 300 then Delivered_2xx
      else if status \<in> set RETRYABLE_CLIENT_STATUSES then Failure RETRYABLE
      else if 500 \<le> status then Failure RETRYABLE
      else Failure PERMANENT)"

definition classifyResult :: "WebhookDeliveryResult \<Rightarrow> AttemptOutcome" where
  "classifyResult result =
     (if \<not> wd_responded result \<or> wd_httpStatus result = None then Failure RETRYABLE
      else classifyHttpStatus (the (wd_httpStatus result)))"

definition isExhausted :: "retry_config \<Rightarrow> int \<Rightarrow> bool" where
  "isExhausted cfg attemptNumber \<longleftrightarrow> maxAttempts cfg \<le> of_int attemptNumber"

definition attemptsRemaining :: "retry_config \<Rightarrow> int \<Rightarrow> rat" where
  "attemptsRemaining cfg attemptNumber = max 0 (maxAttempts cfg - of_int attemptNumber)"

definition delayAfterAttemptMs :: "retry_config \<Rightarrow> int \<Rightarrow> rat" where
  "delayAfterAttemptMs cfg attemptNumber =
     (let delays = delaysMs cfg in
      if length delays = 0 then 0
      else let i = min (attemptNumber - 1) (int (length delays) - 1)
           in if 0 \<le> i \<and> i < int (length delays) then delays ! nat i else 0)"

definition nextAttemptAt :: "retry_config \<Rightarrow> int \<Rightarrow> int \<Rightarrow> int" where
  "nextAttemptAt cfg attemptNumber from =
     js_date (of_int from + delayAfterAttemptMs cfg attemptNumber)"

section \<open>The budget the delivery service relies on\<close>

locale retry_budget =
  fixes exhausted :: "int \<Rightarrow> bool"
    and budget :: int
  assumes exhausted_iff: "exhausted n \<longleftrightarrow> budget \<le> n"
begin

lemma next_within: "\<not> exhausted n \<Longrightarrow> n + 1 \<le> budget"
  by (simp add: exhausted_iff)

lemma exhausted_mono: "exhausted n \<Longrightarrow> n \<le> m \<Longrightarrow> exhausted m"
  by (simp add: exhausted_iff)

lemma exhausted_at: "exhausted budget"
  by (simp add: exhausted_iff)

text \<open>Claiming again and again from a count that is not exhausted ends at the budget.\<close>

lemma claims_bounded: "\<forall>i < k. \<not> exhausted (n + int i) \<Longrightarrow> n \<le> budget \<Longrightarrow> n + int k \<le> budget"
  by (cases k) (auto simp: exhausted_iff not_le dest: spec [of _ "k - 1"])

end

interpretation rb: retry_budget "isExhausted cfg" "\<lceil>maxAttempts cfg\<rceil>" for cfg
  by unfold_locales (simp add: isExhausted_def ceiling_le_iff)

section \<open>Facts\<close>

lemma classify_reply:
  "classifyResult (delivery_result d reply) =
     (case reply of Inl _ \<Rightarrow> Failure RETRYABLE | Inr response \<Rightarrow> classifyHttpStatus (ax_status response))"
  by (cases reply) (auto simp: classifyResult_def)

lemma classify_success_iff: "classifyResult (delivery_result d reply) = Delivered_2xx \<longleftrightarrow> reply_ok reply"
  by (auto simp: classify_reply classifyHttpStatus_def reply_ok_def ok_status_def split: sum.splits)

lemma first_not_exhausted: "1 \<le> maxAttempts cfg \<Longrightarrow> \<not> isExhausted cfg 0"
  by (simp add: isExhausted_def)

lemma delay_zero_or_configured:
  "delayAfterAttemptMs cfg n = 0 \<or> delayAfterAttemptMs cfg n \<in> set (delaysMs cfg)"
proof -
  let ?i = "min (n - 1) (int (length (delaysMs cfg)) - 1)"
  have "delaysMs cfg ! nat ?i \<in> set (delaysMs cfg)" if "0 \<le> ?i" "?i < int (length (delaysMs cfg))"
    using that by (intro nth_mem) linarith
  then show ?thesis by (simp add: delayAfterAttemptMs_def Let_def)
qed

text \<open>
  The classification of an attempt, case by case: a transport failure is worth a
  retry; an answer is a success exactly for 2xx; 408, 429 and everything from 500 up are worth
  a retry; every other status, redirects and the remaining 4xx included, is permanent.
\<close>

theorem classification_complete:
  "classifyResult (delivery_result d (Inl e)) = Failure RETRYABLE \<and>
   classifyResult (delivery_result d (Inr r)) =
     (let s = ax_status r in
      if s \<in> {200..299} then Delivered_2xx
      else if s \<in> {408, 429} \<union> {500..} then Failure RETRYABLE
      else Failure PERMANENT)"
  by (auto simp: classify_reply classifyHttpStatus_def RETRYABLE_CLIENT_STATUSES_def Let_def)

text \<open>
  The budget's three views agree: an attempt is the last one exactly when no
  attempts remain, and exactly when its number has reached the configured maximum (rounded up,
  when the setting is no integer).
\<close>

theorem budget_views_agree:
  "(isExhausted cfg n \<longleftrightarrow> attemptsRemaining cfg n = 0) \<and>
   (isExhausted cfg n \<longleftrightarrow> \<lceil>maxAttempts cfg\<rceil> \<le> n) \<and>
   0 \<le> attemptsRemaining cfg n"
  using rb.exhausted_iff [of cfg n] by (auto simp: attemptsRemaining_def isExhausted_def max_def)

text \<open>
  Under an accepted configuration every wait has a configured delay: after
  attempt \<open>n\<close> of an integral budget, as long as it was not the last, the policy waits the
  \<open>n\<close>-th configured delay (the last one again when there are fewer), and the list is read in
  bounds.
\<close>

theorem delay_after_attempt:
  assumes "buildConfiguration env pid = Inr c" and "1 \<le> n"
    and "of_int n + 1 \<le> maxAttempts (cfg_retry c)"
  shows "nat (n - 1) < length (delaysMs (cfg_retry c)) \<and>
    delayAfterAttemptMs (cfg_retry c) n = delaysMs (cfg_retry c) ! nat (n - 1)"
proof -
  let ?m = "maxAttempts (cfg_retry c)"
  obtain cs where "delaysMs (cfg_retry c) = map (delay_at cs) [0..<nat (\<lfloor>?m\<rfloor> - 1)]"
    using accepted_delays [OF assms(1)] by blast
  moreover have "of_int (n + 1) \<le> ?m" using assms(3) by simp
  then have "n + 1 \<le> \<lfloor>?m\<rfloor>" by (simp only: le_floor_iff)
  then have "n \<le> \<lfloor>?m\<rfloor> - 1" by simp
  moreover have "1 \<le> ?m" using buildConfiguration_retry [OF assms(1)] by simp
  ultimately have "n \<le> int (length (delaysMs (cfg_retry c)))" using assms(2) by simp
  with assms(2) show ?thesis by (auto simp: delayAfterAttemptMs_def Let_def min_def)
qed

theorem delay_after_attempt_witness:
  "\<exists>c. buildConfiguration sample_env 7 = Inr c \<and> delayAfterAttemptMs (cfg_retry c) 3 = 250"
proof -
  from sample_env_retry obtain c where c: "buildConfiguration sample_env 7 = Inr c"
    and r: "cfg_retry c = \<lparr>maxAttempts = 5, delaysMs = [100, 250, 250, 250]\<rparr>"
    by (cases "buildConfiguration sample_env 7") auto
  from delay_after_attempt [OF c, of 3] r have "delayAfterAttemptMs (cfg_retry c) 3 = 250"
    by (simp add: numeral_eq_Suc)
  with c show ?thesis by blast
qed

text \<open>
  The next attempt is never scheduled before the moment it is computed from,
  whatever the attempt number, when no configured delay is negative.
\<close>

theorem next_attempt_not_before_now:
  assumes "\<forall>d \<in> set (delaysMs cfg). 0 \<le> d" and "0 \<le> from"
  shows "from \<le> nextAttemptAt cfg n from \<and>
    nextAttemptAt cfg n from = from + js_trunc (delayAfterAttemptMs cfg n)"
proof -
  have "0 \<le> delayAfterAttemptMs cfg n"
    using assms(1) delay_zero_or_configured [of cfg n] by auto
  then show ?thesis
    by (simp add: nextAttemptAt_def js_date_def js_trunc_add_int js_trunc_nonneg assms(2))
qed

theorem next_attempt_not_before_now_witness:
  "1000 \<le> nextAttemptAt \<lparr>maxAttempts = 3, delaysMs = [5, 7]\<rparr> 2 1000"
  using next_attempt_not_before_now [of "\<lparr>maxAttempts = 3, delaysMs = [5, 7]\<rparr>" 1000 2] by simp

end
