(* ===== verification/Metrics.thy ===== *)
theory Metrics
  imports Common
begin

text \<open>
  \<open>apps/server/src/metrics/metrics.service.ts\<close>: the in-process registry. A JavaScript \<open>Map\<close> is
  an association list in insertion order. The three rolling windows share the contract of the
  locale \<open>rolling_window\<close>, whose lemma says that a window holds the last values pushed.
\<close>

record metrics_state =
  m_counters :: "(string \<times> int) list"
  m_httpStatuses :: "(int \<times> int) list"
  m_workerProcessingMs :: "int list"
  m_attemptDurationsMs :: "int list"
  m_deliveryLatenciesMs :: "int list"
  m_startedAt :: int

record MetricsSnapshot =
  ms_counters :: "(string \<times> int) list"
  ms_httpStatusDistribution :: "(string \<times> int) list"
  ms_averageWorkerProcessingMs :: "int option"
  ms_averageAttemptDurationMs :: "int option"
  ms_averageDeliveryLatencyMs :: "int option"
  ms_uptimeSeconds :: int

definition ROLLING_WINDOW :: nat where
  "ROLLING_WINDOW = 500"

definition EVENTS_ACCEPTED_KEY :: string where "EVENTS_ACCEPTED_KEY = ''events_accepted''"
definition EVENTS_DUPLICATE_KEY :: string where "EVENTS_DUPLICATE_KEY = ''events_duplicate''"
definition DELIVERY_ATTEMPTS_KEY :: string where "DELIVERY_ATTEMPTS_KEY = ''delivery_attempts''"
definition DELIVERIES_SUCCEEDED_KEY :: string where "DELIVERIES_SUCCEEDED_KEY = ''deliveries_succeeded''"
definition FAILURES_RETRYABLE_KEY :: string where "FAILURES_RETRYABLE_KEY = ''failures_retryable''"
definition FAILURES_PERMANENT_KEY :: string where "FAILURES_PERMANENT_KEY = ''failures_permanent''"
definition DELIVERIES_EXHAUSTED_KEY :: string where "DELIVERIES_EXHAUSTED_KEY = ''deliveries_exhausted''"
definition RETRIES_SCHEDULED_KEY :: string where "RETRIES_SCHEDULED_KEY = ''retries_scheduled''"
definition JOBS_RECOVERED_KEY :: string where "JOBS_RECOVERED_KEY = ''jobs_recovered''"
definition WORKER_TICKS_KEY :: string where "WORKER_TICKS_KEY = ''worker_ticks''"

definition new_metrics :: "int \<Rightarrow> metrics_state" where
  "new_metrics now =
     \<lparr>m_counters = [], m_httpStatuses = [], m_workerProcessingMs = [], m_attemptDurationsMs = [],
      m_deliveryLatenciesMs = [], m_startedAt = now\<rparr>"

definition increment :: "string \<Rightarrow> int \<Rightarrow> metrics_state \<Rightarrow> metrics_state" where
  "increment name by m =
     m\<lparr>m_counters := AList.update name (coalesce (map_of (m_counters m) name) 0 + by) (m_counters m)\<rparr>"

definition recordHttpStatus :: "int \<Rightarrow> metrics_state \<Rightarrow> metrics_state" where
  "recordHttpStatus status m =
     m\<lparr>m_httpStatuses :=
         AList.update status (coalesce (map_of (m_httpStatuses m) status) 0 + 1) (m_httpStatuses m)\<rparr>"

definition push :: "int list \<Rightarrow> int \<Rightarrow> int list" where
  "push window value =
     (let w = window @ [value] in if ROLLING_WINDOW < length w then tl w else w)"

definition recordWorkerProcessing :: "int \<Rightarrow> metrics_state \<Rightarrow> metrics_state" where
  "recordWorkerProcessing d m = m\<lparr>m_workerProcessingMs := push (m_workerProcessingMs m) d\<rparr>"

definition recordAttemptDuration :: "int \<Rightarrow> metrics_state \<Rightarrow> metrics_state" where
  "recordAttemptDuration d m = m\<lparr>m_attemptDurationsMs := push (m_attemptDurationsMs m) d\<rparr>"

definition recordDeliveryLatency :: "int \<Rightarrow> metrics_state \<Rightarrow> metrics_state" where
  "recordDeliveryLatency d m = m\<lparr>m_deliveryLatenciesMs := push (m_deliveryLatenciesMs m) d\<rparr>"

definition counter :: "metrics_state \<Rightarrow> string \<Rightarrow> int" where
  "counter m name = coalesce (map_of (m_counters m) name) 0"

definition average :: "int list \<Rightarrow> int option" where
  "average values =
     (if length values = 0 then None
      else Some (js_round (of_int (foldl (+) 0 values) / of_nat (length values))))"

definition snapshot :: "int \<Rightarrow> metrics_state \<Rightarrow> MetricsSnapshot" where
  "snapshot now m =
     \<lparr>ms_counters = m_counters m,
      ms_httpStatusDistribution =
        map (\<lambda>(status, count). (show_int status, count)) (sort_key fst (m_httpStatuses m)),
      ms_averageWorkerProcessingMs = average (m_workerProcessingMs m),
      ms_averageAttemptDurationMs = average (m_attemptDurationsMs m),
      ms_averageDeliveryLatencyMs = average (m_deliveryLatenciesMs m),
      ms_uptimeSeconds = js_round (of_int (now - m_startedAt m) / 1000)\<rparr>"

definition reset :: "metrics_state \<Rightarrow> metrics_state" where
  "reset m =
     m\<lparr>m_counters := [], m_httpStatuses := [], m_workerProcessingMs := [],
       m_attemptDurationsMs := [], m_deliveryLatenciesMs := []\<rparr>"

section \<open>Windows\<close>

text \<open>A log that keeps the newest \<open>cap\<close> entries, oldest first under \<open>items\<close>.\<close>

locale rolling_window =
  fixes add :: "'x \<Rightarrow> 'l \<Rightarrow> 'l"
    and items :: "'l \<Rightarrow> 'x list"
    and cap :: nat
  assumes items_add:
    "length (items l) \<le> cap \<Longrightarrow> items (add x l) = newest cap (items l @ [x])"
begin

lemma length_add: "length (items l) \<le> cap \<Longrightarrow> length (items (add x l)) \<le> cap"
  by (simp add: items_add)

lemma items_fold:
  "length (items l) \<le> cap \<Longrightarrow> items (fold add xs l) = newest cap (items l @ xs)"
proof (induction xs arbitrary: l)
  case Nil
  then show ?case by simp
next
  case (Cons x xs)
  from Cons.IH [OF length_add [OF Cons.prems]] Cons.prems show ?case
    by (simp add: items_add newest_append)
qed

lemma length_fold: "length (items l) \<le> cap \<Longrightarrow> length (items (fold add xs l)) \<le> cap"
  by (simp add: items_fold)

end

interpretation window: rolling_window "\<lambda>v w. push w v" "\<lambda>w. w" ROLLING_WINDOW
proof
  fix l :: "int list" and x :: int
  assume "length l \<le> ROLLING_WINDOW"
  then show "push l x = newest ROLLING_WINDOW (l @ [x])"
    by (cases "length l = ROLLING_WINDOW")
       (simp_all add: push_def Let_def newest_def drop_Suc del: drop_append)
qed

text \<open>
  A rolling window never holds more than 500 values and holds exactly the last
  500 pushed: after any sequence of pushes on an empty window it is the tail of the sequence.
\<close>

theorem window_holds_newest:
  "fold (\<lambda>v w. push w v) xs [] = newest 500 xs \<and> length (fold (\<lambda>v w. push w v) xs []) \<le> 500"
  using window.items_fold [of "[]" xs] window.length_fold [of "[]" xs]
  by (simp add: ROLLING_WINDOW_def)

section \<open>Counters and averages\<close>

lemma counter_increment [simp]:
  "counter (increment name by m) name' = counter m name' + (if name' = name then by else 0)"
  by (cases "name' = name") (simp_all add: counter_def increment_def)

text \<open>
  A counter counts: after any sequence of increments it has grown by the sum of
  the amounts added under its own name, whatever was added under the others.
\<close>

theorem counters_count:
  "counter (fold (\<lambda>(name, by) m. increment name by m) incs m) name =
   counter m name + sum_list (map snd (filter (\<lambda>(n, _). n = name) incs))"
  by (induction incs arbitrary: m) auto

lemma foldl_plus_sum_list: "foldl (+) (a :: int) xs = a + sum_list xs"
  by (induction xs arbitrary: a) auto

lemma sum_list_bounds:
  fixes lo hi :: int
  assumes "\<forall>x \<in> set xs. lo \<le> x \<and> x \<le> hi"
  shows "lo * int (length xs) \<le> sum_list xs \<and> sum_list xs \<le> hi * int (length xs)"
  using assms by (induction xs) (auto simp: algebra_simps)

lemma js_round_between:
  fixes r :: rat
  assumes "of_int lo \<le> r" and "r \<le> of_int hi"
  shows "lo \<le> js_round r \<and> js_round r \<le> hi"
proof
  show "lo \<le> js_round r" using assms(1) by (simp add: js_round_def le_floor_iff)
  have "r + 1 / 2 < of_int (hi + 1)" using assms(2) by simp
  then have "js_round r < hi + 1" unfolding js_round_def by (simp only: floor_less_iff)
  then show "js_round r \<le> hi" by simp
qed

text \<open>
  An average is reported exactly for a non-empty window, and rounding never
  takes it outside the range of the values.
\<close>

theorem average_within_range:
  assumes "\<forall>x \<in> set values. lo \<le> x \<and> x \<le> hi"
  shows "(average values = None \<longleftrightarrow> values = []) \<and>
    (\<forall>a. average values = Some a \<longrightarrow> lo \<le> a \<and> a \<le> hi)"
proof (cases "values = []")
  case False
  let ?n = "of_nat (length values) :: rat"
  have pos: "0 < ?n" using False by simp
  have "of_int (lo * int (length values)) \<le> (of_int (sum_list values) :: rat)"
    and "(of_int (sum_list values) :: rat) \<le> of_int (hi * int (length values))"
    using sum_list_bounds [OF assms] by (simp_all only: of_int_le_iff)
  then have "of_int lo \<le> of_int (sum_list values) / ?n"
    and "of_int (sum_list values) / ?n \<le> of_int hi"
    using pos by (simp_all add: field_simps)
  then have "lo \<le> js_round (of_int (sum_list values) / ?n) \<and>
      js_round (of_int (sum_list values) / ?n) \<le> hi"
    by (rule js_round_between)
  with False show ?thesis by (simp add: average_def foldl_plus_sum_list)
qed (simp add: average_def)

theorem average_within_range_witness:
  "average [3, 4, 10] = Some 6 \<and> (3::int) \<le> 6 \<and> (6::int) \<le> 10"
proof -
  have "average [3, 4, 10] = Some 6" by code_simp
  with average_within_range [of "[3, 4, 10]" 3 10] show ?thesis by simp
qed

end
