(* ===== verification/NodeTypes.thy ===== *)
theory NodeTypes
  imports Metrics
begin

text \<open>
  The shapes a node keeps or sends that belong to components with theories of their own: the statistics of
  \<open>dashboard.service.ts\<close>, which the gateway pushes, and the configuration and memory of
  \<open>test-receiver.service.ts\<close>.
\<close>

section \<open>Dashboard statistics\<close>

record StatusTotals =
  st_events :: nat
  st_pending :: nat
  st_delivering :: nat
  st_retrying :: nat
  st_delivered :: nat
  st_failed :: nat

record AttemptTotals =
  at_total :: nat
  at_succeeded :: nat
  at_failed :: nat
  at_inProgress :: nat
  at_averagePerEvent :: rat

record DeliveryFigures =
  df_maxAttempts :: rat
  df_averageDeliveryLatencyMs :: "int option"
  df_averageAttemptDurationMs :: "int option"
  df_averageWorkerTickMs :: "int option"
  df_successRate :: "rat option"

record DashboardStats =
  ds_totals :: StatusTotals
  ds_attempts :: AttemptTotals
  ds_delivery :: DeliveryFigures
  ds_httpStatusDistribution :: "(string \<times> int) list"
  ds_counters :: "(string \<times> int) list"
  ds_connectedClients :: int
  ds_generatedAt :: string

section \<open>The test receiver\<close>

datatype ReceiverMode = SUCCESS_mode | FAIL_ONCE | FAIL_ALWAYS

definition mode_name :: "ReceiverMode \<Rightarrow> string" where
  "mode_name m =
     (case m of SUCCESS_mode \<Rightarrow> ''SUCCESS'' | FAIL_ONCE \<Rightarrow> ''FAIL_ONCE'' | FAIL_ALWAYS \<Rightarrow> ''FAIL_ALWAYS'')"

text \<open>A field of the configuration is declared present, but may be \<open>undefined\<close> at run time.\<close>

record ReceiverConfig =
  rc_mode :: "ReceiverMode option"
  rc_failureStatus :: "int option"
  rc_latencyMs :: "int option"

record receiver =
  rv_config :: ReceiverConfig
  rv_deliveries :: "(string \<times> nat) list"
  rv_totalReceived :: nat
  rv_duplicateDeliveries :: nat
  rv_lastReceivedAt :: "int option"

definition new_receiver :: receiver where
  "new_receiver =
     \<lparr>rv_config = \<lparr>rc_mode = Some SUCCESS_mode, rc_failureStatus = Some 503, rc_latencyMs = Some 0\<rparr>,
      rv_deliveries = [], rv_totalReceived = 0, rv_duplicateDeliveries = 0, rv_lastReceivedAt = None\<rparr>"

end
