(* ===== verification/World.thy ===== *)
theory World
  imports Prog Policy NodeTypes "HOL-Library.Product_Lexorder"
begin

text \<open>
  The world the server acts on. The three entities (\<open>event.entity.ts\<close>,
  \<open>delivery-job.entity.ts\<close>, \<open>delivery-attempt.entity.ts\<close>) are records, and the database is the
  three tables of the migration with their unique keys, plus the history of the HTTP exchanges.
  A node is one server process: its metrics, its worker's flags and its websocket gateway.

  What is not under src/ is a field of the environment \<open>env\<close>, read at the position of the
  action in the run: the two clocks, the UUID generator, the receiver's answer, the HMAC, the
  socket server, the driver's errors, the collation under which the database compares strings
  (\<open>e_fold\<close>, the identity on SQLite, case folding on MySQL) and its LIKE, the order in which a
  SELECT produces rows and how many of them a LIMIT keeps, and \<open>e_fault\<close>, which may make any
  statement fail, before or after its effect.
\<close>

section \<open>Entities and tables\<close>

record event_row =
  er_id :: string
  er_eventId :: string
  er_type :: string
  er_occurredAt :: int
  er_payload :: json
  er_status :: DeliveryStatus
  er_createdAt :: int
  er_updatedAt :: int

record job_row =
  jr_id :: string
  jr_eventId :: string
  jr_status :: DeliveryStatus
  jr_attemptCount :: int
  jr_nextAttemptAt :: int
  jr_lockedAt :: "int option"
  jr_lockedBy :: "string option"
  jr_createdAt :: int
  jr_updatedAt :: int

record attempt_row =
  ar_id :: string
  ar_eventId :: string
  ar_attemptNumber :: int
  ar_startedAt :: int
  ar_completedAt :: "int option"
  ar_status :: AttemptStatus
  ar_httpStatus :: "int option"
  ar_errorType :: "DeliveryErrorType option"
  ar_errorMessage :: "string option"
  ar_createdAt :: int

text \<open>One HTTP exchange: what was asked to be delivered, what went out, what came back.\<close>

record exchange =
  wx_delivery :: WebhookDeliveryRequest
  wx_request :: http_request
  wx_reply :: http_reply

record db =
  events :: "event_row list"
  jobs :: "job_row list"
  attempts :: "attempt_row list"
  wire :: "exchange list"

definition empty_db :: db where
  "empty_db = \<lparr>events = [], jobs = [], attempts = [], wire = []\<rparr>"

section \<open>Nodes, the environment, the world\<close>

record gateway =
  g_server :: bool
  g_connections :: int
  g_emitted :: "(string \<times> RealtimeEvent) list"
  g_activity :: "RealtimeEvent list"
  g_stats :: "DashboardStats list"

record worker_state =
  wk_timer :: "rat option"
  wk_stopped :: bool
  wk_ticking :: bool
  wk_lastTickAt :: "int option"

record node =
  n_metrics :: metrics_state
  n_worker :: worker_state
  n_gateway :: gateway
  n_receiver :: receiver

definition new_node :: node where
  "new_node =
     \<lparr>n_metrics = new_metrics 0,
      n_worker = \<lparr>wk_timer = None, wk_stopped = False, wk_ticking = False, wk_lastTickAt = None\<rparr>,
      n_gateway = \<lparr>g_server = True, g_connections = 0, g_emitted = [], g_activity = [], g_stats = []\<rparr>,
      n_receiver = new_receiver\<rparr>"

text \<open>A statement may fail before it reaches the database, or its reply may get lost.\<close>

datatype db_fault = Lost_request exn | Lost_reply exn

record env =
  e_cfg :: AppConfiguration
  e_node :: nat
  e_clock :: "nat \<Rightarrow> int"
  e_db_clock :: "nat \<Rightarrow> int"
  e_fault :: "nat \<Rightarrow> db_fault option"
  e_uuid :: "nat \<Rightarrow> nat \<Rightarrow> string"
  e_exchange :: "nat \<Rightarrow> http_request \<Rightarrow> http_reply"
  e_hmac :: "string \<Rightarrow> string \<Rightarrow> string"
  e_socket :: "nat \<Rightarrow> exn option"
  e_fold :: "string \<Rightarrow> string"
  e_like :: "string \<Rightarrow> string \<Rightarrow> bool"
  e_limit :: "rat \<Rightarrow> nat \<Rightarrow> nat"
  e_scan_events :: "nat \<Rightarrow> event_row list \<Rightarrow> event_row list"
  e_scan_jobs :: "nat \<Rightarrow> job_row list \<Rightarrow> job_row list"
  e_scan_attempts :: "nat \<Rightarrow> attempt_row list \<Rightarrow> attempt_row list"
  e_duplicate_key :: exn
  e_foreign_key :: exn

text \<open>
  What the code relies on: the driver reports a duplicate key in a form the program
  recognises, a SELECT produces every row once, in some order, and a positive integral LIMIT
  keeps that many rows (what a fractional or a non-positive limit does is left open).
\<close>

definition sane_env :: "env \<Rightarrow> bool" where
  "sane_env env \<longleftrightarrow>
     isUniqueViolation (e_duplicate_key env) \<and>
     \<not> isUniqueViolation (e_foreign_key env) \<and>
     (\<forall>n k. 0 < n \<longrightarrow> e_limit env (of_nat n) k = min n k) \<and>
     (\<forall>t es. mset (e_scan_events env t es) = mset es) \<and>
     (\<forall>t js. mset (e_scan_jobs env t js) = mset js) \<and>
     (\<forall>t as. mset (e_scan_attempts env t as) = mset as)"

record world =
  w_db :: db
  w_nodes :: "nat \<Rightarrow> node"
  w_tick :: nat

definition bump :: "world \<Rightarrow> world" where
  "bump w = w\<lparr>w_tick := Suc (w_tick w)\<rparr>"

type_synonym 'a io = "(world, exn, 'a) prog"

section \<open>Actions\<close>

text \<open>\<open>new Date()\<close> and \<open>Date.now()\<close>.\<close>

definition nowP :: "env \<Rightarrow> int io" where
  "nowP env = actP (\<lambda>w. (e_clock env (w_tick w), bump w))"

definition nodeP :: "env \<Rightarrow> (node \<Rightarrow> node) \<Rightarrow> unit io" where
  "nodeP env f =
     actP (\<lambda>w. ((), bump (w\<lparr>w_nodes := (w_nodes w)(e_node env := f (w_nodes w (e_node env)))\<rparr>)))"

definition readNodeP :: "env \<Rightarrow> (node \<Rightarrow> 'a) \<Rightarrow> 'a io" where
  "readNodeP env f = actP (\<lambda>w. (f (w_nodes w (e_node env)), bump w))"

definition metricP :: "env \<Rightarrow> (metrics_state \<Rightarrow> metrics_state) \<Rightarrow> unit io" where
  "metricP env f = nodeP env (\<lambda>n. n\<lparr>n_metrics := f (n_metrics n)\<rparr>)"

definition workerP :: "env \<Rightarrow> (worker_state \<Rightarrow> worker_state) \<Rightarrow> unit io" where
  "workerP env f = nodeP env (\<lambda>n. n\<lparr>n_worker := f (n_worker n)\<rparr>)"

definition throwP :: "exn + 'a \<Rightarrow> 'a io" where
  "throwP r = (case r of Inl e \<Rightarrow> Raise e | Inr x \<Rightarrow> Ret x)"

text \<open>
  A statement or transaction on the database, at a position of the run. It takes effect as a
  whole or, when it fails, not at all.
\<close>

type_synonym 'a stmt = "nat \<Rightarrow> db \<Rightarrow> (exn + 'a) \<times> db"

definition bindS :: "'a stmt \<Rightarrow> ('a \<Rightarrow> 'b stmt) \<Rightarrow> 'b stmt" where
  "bindS s k = (\<lambda>t d. case s t d of (Inl e, d') \<Rightarrow> (Inl e, d') | (Inr x, d') \<Rightarrow> k x t d')"

definition stmtP :: "env \<Rightarrow> 'a stmt \<Rightarrow> 'a io" where
  "stmtP env s =
     tryP (\<lambda>w.
       let (r, d') = s (w_tick w) (w_db w);
           after = bump (case r of Inl _ \<Rightarrow> w | Inr _ \<Rightarrow> w\<lparr>w_db := d'\<rparr>)
       in case e_fault env (w_tick w) of
            None \<Rightarrow> (r, after)
          | Some (Lost_request e) \<Rightarrow> (Inl e, bump w)
          | Some (Lost_reply e) \<Rightarrow> (Inl e, after))"

section \<open>SQL\<close>

definition sql_eq :: "env \<Rightarrow> string \<Rightarrow> string \<Rightarrow> bool" where
  "sql_eq env a b \<longleftrightarrow> e_fold env a = e_fold env b"

text \<open>ORDER BY a key, and LIMIT.\<close>

definition sql_order :: "('a \<Rightarrow> 'k::linorder) \<Rightarrow> 'a list \<Rightarrow> 'a list" where
  "sql_order key rows = sort_key key rows"

definition sql_take :: "env \<Rightarrow> rat \<Rightarrow> 'a list \<Rightarrow> 'a list" where
  "sql_take env limit rows = take (e_limit env limit (length rows)) rows"

definition select_events :: "env \<Rightarrow> (event_row \<Rightarrow> bool) \<Rightarrow> event_row list stmt" where
  "select_events env P = (\<lambda>t d. (Inr (filter P (e_scan_events env t (events d))), d))"

definition select_jobs :: "env \<Rightarrow> (job_row \<Rightarrow> bool) \<Rightarrow> job_row list stmt" where
  "select_jobs env P = (\<lambda>t d. (Inr (filter P (e_scan_jobs env t (jobs d))), d))"

definition select_attempts :: "env \<Rightarrow> (attempt_row \<Rightarrow> bool) \<Rightarrow> attempt_row list stmt" where
  "select_attempts env P = (\<lambda>t d. (Inr (filter P (e_scan_attempts env t (attempts d))), d))"

text \<open>The first row of a result, as \<open>findOne\<close> returns it.\<close>

definition first_row :: "'a list \<Rightarrow> 'a option" where
  "first_row rows = (case rows of [] \<Rightarrow> None | r # _ \<Rightarrow> Some r)"

text \<open>
  INSERT, with the unique keys of the migration: the primary keys, \<open>uq_events_event_id\<close>,
  \<open>uq_delivery_jobs_event_id\<close>, \<open>uq_delivery_attempts_event_attempt\<close>; the foreign keys exist in
  the MySQL schema only.
\<close>

definition fk_violated :: "env \<Rightarrow> string \<Rightarrow> db \<Rightarrow> bool" where
  "fk_violated env eventId d \<longleftrightarrow>
     db_driver (cfg_database (e_cfg env)) = mysql \<and>
     \<not> list_ex (\<lambda>r. sql_eq env (er_eventId r) eventId) (events d)"

definition insert_event_row :: "env \<Rightarrow> (nat \<Rightarrow> event_row) \<Rightarrow> event_row stmt" where
  "insert_event_row env mk = (\<lambda>t d.
     let row = mk t in
     if list_ex (\<lambda>r. sql_eq env (er_eventId r) (er_eventId row) \<or> sql_eq env (er_id r) (er_id row))
          (events d)
     then (Inl (e_duplicate_key env), d)
     else (Inr row, d\<lparr>events := events d @ [row]\<rparr>))"

definition insert_job_row :: "env \<Rightarrow> (nat \<Rightarrow> job_row) \<Rightarrow> unit stmt" where
  "insert_job_row env mk = (\<lambda>t d.
     let row = mk t in
     if list_ex (\<lambda>r. sql_eq env (jr_eventId r) (jr_eventId row) \<or> sql_eq env (jr_id r) (jr_id row))
          (jobs d)
     then (Inl (e_duplicate_key env), d)
     else if fk_violated env (jr_eventId row) d then (Inl (e_foreign_key env), d)
     else (Inr (), d\<lparr>jobs := jobs d @ [row]\<rparr>))"

definition insert_attempt_row :: "env \<Rightarrow> (nat \<Rightarrow> attempt_row) \<Rightarrow> attempt_row stmt" where
  "insert_attempt_row env mk = (\<lambda>t d.
     let row = mk t in
     if list_ex (\<lambda>r. (sql_eq env (ar_eventId r) (ar_eventId row) \<and>
            ar_attemptNumber r = ar_attemptNumber row) \<or> sql_eq env (ar_id r) (ar_id row))
          (attempts d)
     then (Inl (e_duplicate_key env), d)
     else if fk_violated env (ar_eventId row) d then (Inl (e_foreign_key env), d)
     else (Inr row, d\<lparr>attempts := attempts d @ [row]\<rparr>))"

text \<open>UPDATE \<open>...\<close> WHERE: rewrites the matching rows in place and counts them; TypeORM sets \<open>updatedAt\<close>.\<close>

definition update_jobs :: "env \<Rightarrow> (job_row \<Rightarrow> bool) \<Rightarrow> (job_row \<Rightarrow> job_row) \<Rightarrow> nat stmt" where
  "update_jobs env P f = (\<lambda>t d.
     (Inr (length (filter P (jobs d))),
      d\<lparr>jobs := map (\<lambda>r. if P r then (f r)\<lparr>jr_updatedAt := e_db_clock env t\<rparr> else r) (jobs d)\<rparr>))"

definition update_events :: "env \<Rightarrow> (event_row \<Rightarrow> bool) \<Rightarrow> (event_row \<Rightarrow> event_row) \<Rightarrow> nat stmt" where
  "update_events env P f = (\<lambda>t d.
     (Inr (length (filter P (events d))),
      d\<lparr>events := map (\<lambda>r. if P r then (f r)\<lparr>er_updatedAt := e_db_clock env t\<rparr> else r) (events d)\<rparr>))"

definition update_attempts :: "(attempt_row \<Rightarrow> bool) \<Rightarrow> (attempt_row \<Rightarrow> attempt_row) \<Rightarrow> nat stmt" where
  "update_attempts P f = (\<lambda>t d.
     (Inr (length (filter P (attempts d))),
      d\<lparr>attempts := map (\<lambda>r. if P r then f r else r) (attempts d)\<rparr>))"

lemma sane_scan:
  assumes "sane_env env"
  shows "set (e_scan_events env t es) = set es" "set (e_scan_jobs env t js) = set js"
    "set (e_scan_attempts env t as) = set as"
proof -
  from assms have "mset (e_scan_events env t es) = mset es" "mset (e_scan_jobs env t js) = mset js"
    "mset (e_scan_attempts env t as) = mset as" by (simp_all add: sane_env_def)
  then show "set (e_scan_events env t es) = set es" "set (e_scan_jobs env t js) = set js"
    "set (e_scan_attempts env t as) = set as" by (auto dest: mset_eq_setD)
qed

lemma set_sql_order [simp]: "set (sql_order key rows) = set rows"
  by (simp add: sql_order_def)

lemma set_sql_take: "set (sql_take env limit rows) \<subseteq> set rows"
  by (simp add: sql_take_def set_take_subset)

lemma first_row_None: "first_row rows = None \<longleftrightarrow> rows = []"
  by (simp add: first_row_def split: list.split)

lemma first_row_Some: "first_row rows = Some r \<Longrightarrow> r \<in> set rows"
  by (auto simp: first_row_def split: list.splits)

section \<open>Running actions alone\<close>

lemma bump_simps [simp]:
  "w_db (bump w) = w_db w" "w_nodes (bump w) = w_nodes w" "w_tick (bump w) = Suc (w_tick w)"
  by (simp_all add: bump_def)

lemma run_nowP [run_simps]: "run (nowP env) w = (Inr (e_clock env (w_tick w)), bump w)"
  by (simp add: nowP_def run_simps)

lemma run_nodeP [run_simps]:
  "run (nodeP env f) w =
     (Inr (), bump (w\<lparr>w_nodes := (w_nodes w)(e_node env := f (w_nodes w (e_node env)))\<rparr>))"
  by (simp add: nodeP_def run_simps)

lemma run_readNodeP [run_simps]: "run (readNodeP env f) w = (Inr (f (w_nodes w (e_node env))), bump w)"
  by (simp add: readNodeP_def run_simps)

lemma run_stmtP [run_simps]:
  "e_fault env = (\<lambda>_. None) \<Longrightarrow>
   run (stmtP env s) w =
     (case s (w_tick w) (w_db w) of
        (Inl e, d') \<Rightarrow> (Inl e, bump w)
      | (Inr x, d') \<Rightarrow> (Inr x, bump (w\<lparr>w_db := d'\<rparr>)))"
  by (auto simp: stmtP_def run_simps Let_def split: prod.splits sum.splits)

section \<open>Judgements on the database\<close>

text \<open>
  What the clients are told: an announcement of a status is true in a database \<open>d\<close> when \<open>T\<close> holds
  there of its event and status; \<open>tells T\<close> is a step that only emits what is true after it.
\<close>

definition emitted :: "world \<Rightarrow> nat \<Rightarrow> (string \<times> RealtimeEvent) list" where
  "emitted w n = g_emitted (n_gateway (w_nodes w n))"

definition told :: "(string \<Rightarrow> DeliveryStatus \<Rightarrow> db \<Rightarrow> bool) \<Rightarrow> RealtimeEvent \<Rightarrow> db \<Rightarrow> bool" where
  "told T ev d \<longleftrightarrow> (\<forall>s. re_status ev = Some s \<longrightarrow> T (re_eventId ev) s d)"

definition tells :: "(string \<Rightarrow> DeliveryStatus \<Rightarrow> db \<Rightarrow> bool) \<Rightarrow> world \<Rightarrow> world \<Rightarrow> bool" where
  "tells T w w' \<longleftrightarrow>
     (\<forall>n. \<exists>sent. emitted w' n = emitted w n @ sent \<and> (\<forall>(c, ev) \<in> set sent. told T ev (w_db w')))"

lemma tells_quiet: "(\<And>n. emitted w' n = emitted w n) \<Longrightarrow> tells T w w'"
  by (simp add: tells_def)

lemma emitted_simps [simp]:
  "emitted (bump w) = emitted w" "emitted (w\<lparr>w_db := d\<rparr>) = emitted w"
  by (simp_all add: emitted_def [abs_def])

lemma emitted_node:
  "emitted (w\<lparr>w_nodes := (w_nodes w)(k := n)\<rparr>) = (emitted w)(k := g_emitted (n_gateway n))"
  by (auto simp: emitted_def)

text \<open>
  The invariants and guarantees of the development speak of the database, and of what is
  emitted; \<open>dsat\<close> is the judgement of a program from any world with that database.
\<close>

abbreviation wsat ::
  "(db \<Rightarrow> db \<Rightarrow> bool) \<Rightarrow> (db \<Rightarrow> bool) \<Rightarrow> (db \<Rightarrow> db \<Rightarrow> bool) \<Rightarrow> ('a \<Rightarrow> db \<Rightarrow> bool) \<Rightarrow>
   (exn \<Rightarrow> db \<Rightarrow> bool) \<Rightarrow> 'a io \<Rightarrow> world \<Rightarrow> bool" where
  "wsat R I G Q E \<equiv>
     sat (\<lambda>w w'. R (w_db w) (w_db w')) (\<lambda>w. I (w_db w)) (\<lambda>w w'. G (w_db w) (w_db w'))
       (\<lambda>x w. Q x (w_db w)) (\<lambda>e w. E e (w_db w))"

abbreviation tsat ::
  "(string \<Rightarrow> DeliveryStatus \<Rightarrow> db \<Rightarrow> bool) \<Rightarrow> (db \<Rightarrow> db \<Rightarrow> bool) \<Rightarrow> (db \<Rightarrow> bool) \<Rightarrow> (db \<Rightarrow> db \<Rightarrow> bool) \<Rightarrow>
   ('a \<Rightarrow> db \<Rightarrow> bool) \<Rightarrow> (exn \<Rightarrow> db \<Rightarrow> bool) \<Rightarrow> 'a io \<Rightarrow> world \<Rightarrow> bool" where
  "tsat T R I G Q E \<equiv>
     sat (\<lambda>w w'. R (w_db w) (w_db w')) (\<lambda>w. I (w_db w))
       (\<lambda>w w'. G (w_db w) (w_db w') \<and> tells T w w')
       (\<lambda>x w. Q x (w_db w)) (\<lambda>e w. E e (w_db w))"

definition dsat ::
  "(string \<Rightarrow> DeliveryStatus \<Rightarrow> db \<Rightarrow> bool) \<Rightarrow> (db \<Rightarrow> db \<Rightarrow> bool) \<Rightarrow> (db \<Rightarrow> bool) \<Rightarrow> (db \<Rightarrow> db \<Rightarrow> bool) \<Rightarrow> ('a \<Rightarrow> db \<Rightarrow> bool) \<Rightarrow>
   (exn \<Rightarrow> db \<Rightarrow> bool) \<Rightarrow> 'a io \<Rightarrow> db \<Rightarrow> bool" where
  "dsat T R I G Q E p d \<longleftrightarrow>
     (\<forall>w. w_db w = d \<longrightarrow> tsat T R I G Q E p w)"

lemma dsat_Ret: "Q x d \<Longrightarrow> dsat T R I G Q E (Ret x) d"
  by (simp add: dsat_def)

lemma dsat_Raise: "E e d \<Longrightarrow> dsat T R I G Q E (Raise e) d"
  by (simp add: dsat_def)

lemma dsat_throwP:
  "(\<And>e. r = Inl e \<Longrightarrow> E e d) \<Longrightarrow> (\<And>x. r = Inr x \<Longrightarrow> Q x d) \<Longrightarrow> dsat T R I G Q E (throwP r) d"
  by (cases r) (simp_all add: throwP_def dsat_Ret dsat_Raise)

lemma dsat_bindP:
  assumes "dsat T R I G Q' E p d" and "I d"
    and "\<And>x d. Q' x d \<Longrightarrow> I d \<Longrightarrow> dsat T R I G Q E (k x) d"
  shows "dsat T R I G Q E (bindP p k) d"
  unfolding dsat_def
proof (intro allI impI)
  fix w :: world assume "w_db w = d"
  with assms show "tsat T R I G Q E (bindP p k) w"
    unfolding dsat_def by (intro sat_bindP [where Q' = "\<lambda>x w. Q' x (w_db w)"]) auto
qed

lemma dsat_catchP:
  assumes "dsat T R I G Q E' p d" and "I d"
    and "\<And>e d. E' e d \<Longrightarrow> I d \<Longrightarrow> dsat T R I G Q E (h e) d"
  shows "dsat T R I G Q E (catchP p h) d"
  unfolding dsat_def
proof (intro allI impI)
  fix w :: world assume "w_db w = d"
  with assms show "tsat T R I G Q E (catchP p h) w"
    unfolding dsat_def by (intro sat_catchP [where E' = "\<lambda>e w. E' e (w_db w)"]) auto
qed

lemma dsat_forP:
  assumes "L s d" and "I d"
    and "\<And>x s d. x \<in> set xs \<Longrightarrow> L s d \<Longrightarrow> I d \<Longrightarrow> dsat T R I G L E (body x s) d"
  shows "dsat T R I G L E (forP xs body s) d"
  unfolding dsat_def
proof (intro allI impI)
  fix w :: world assume "w_db w = d"
  with assms show "tsat T R I G L E (forP xs body s) w"
    unfolding dsat_def by (intro sat_forP [where L = "\<lambda>x w. L x (w_db w)"]) auto
qed

lemma dsat_conseq:
  assumes "dsat T R I G Q E p d" and "I d"
    and "\<And>x d. Q x d \<Longrightarrow> I d \<Longrightarrow> Q' x d" and "\<And>e d. E e d \<Longrightarrow> I d \<Longrightarrow> E' e d"
    and "\<And>u v. I u \<Longrightarrow> I v \<Longrightarrow> G u v \<Longrightarrow> G' u v" and "\<And>u v. R' u v \<Longrightarrow> R u v"
  shows "dsat T R' I G' Q' E' p d"
  unfolding dsat_def
proof (intro allI impI)
  fix w :: world assume "w_db w = d"
  from assms(1) \<open>w_db w = d\<close> have "tsat T R I G Q E p w" by (simp add: dsat_def)
  then show "tsat T R' I G' Q' E' p w"
  proof (rule sat_conseq)
    show "I (w_db w)" using assms(2) \<open>w_db w = d\<close> by simp
  qed (use assms(3-6) in blast)+
qed

lemma dsat_wsat:
  assumes "dsat T R I G Q E p (w_db w)" and "I (w_db w)"
  shows "wsat R I G Q E p w"
proof -
  from assms(1) have "tsat T R I G Q E p w" by (simp add: dsat_def)
  then show ?thesis by (rule sat_conseq) (simp_all add: assms(2))
qed

text \<open>Actions that leave the database alone.\<close>

lemma dsat_nowP:
  "I d \<Longrightarrow> G d d \<Longrightarrow> (\<And>t d'. R d d' \<Longrightarrow> I d' \<Longrightarrow> Q t d') \<Longrightarrow> dsat T R I G Q E (nowP env) d"
  by (auto simp: dsat_def nowP_def actP_def tells_quiet)

lemma dsat_nodeP:
  assumes "I d" and "G d d"
    and sent: "\<And>n. \<exists>sent. g_emitted (n_gateway (f n)) = g_emitted (n_gateway n) @ sent \<and>
      (\<forall>(c, ev) \<in> set sent. told T ev d)"
    and "\<And>d'. R d d' \<Longrightarrow> I d' \<Longrightarrow> Q () d'"
  shows "dsat T R I G Q E (nodeP env f) d"
proof -
  have "tells T w (w\<lparr>w_nodes := (w_nodes w)(e_node env := f (w_nodes w (e_node env)))\<rparr>)" if "w_db w = d" for w
    using sent [of "w_nodes w (e_node env)"] that
    by (auto simp: tells_def emitted_node emitted_def)
  then show ?thesis
    using assms(1,2,4) by (auto simp: dsat_def nodeP_def actP_def tells_def)
qed

text \<open>A change of a node that emits nothing.\<close>

definition quiet :: "(node \<Rightarrow> node) \<Rightarrow> bool" where
  "quiet f \<longleftrightarrow> (\<forall>n. g_emitted (n_gateway (f n)) = g_emitted (n_gateway n))"

lemma dsat_quiet:
  "I d \<Longrightarrow> G d d \<Longrightarrow> quiet f \<Longrightarrow> (\<And>d'. R d d' \<Longrightarrow> I d' \<Longrightarrow> Q () d') \<Longrightarrow> dsat T R I G Q E (nodeP env f) d"
  by (rule dsat_nodeP) (auto simp: quiet_def)

lemma dsat_readNodeP:
  "I d \<Longrightarrow> G d d \<Longrightarrow> (\<And>x d'. R d d' \<Longrightarrow> I d' \<Longrightarrow> Q x d') \<Longrightarrow> dsat T R I G Q E (readNodeP env f) d"
  by (auto simp: dsat_def readNodeP_def actP_def tells_quiet)

text \<open>A statement: it either leaves the database as it was or has its whole effect.\<close>

lemma dsat_stmtP:
  assumes "I d" and "G d d"
    and "\<And>t x d'. s t d = (Inr x, d') \<Longrightarrow> I d' \<and> G d d'"
    and "\<And>t x d' d''. s t d = (Inr x, d') \<Longrightarrow> R d' d'' \<Longrightarrow> I d'' \<Longrightarrow> Q x d''"
    and "\<And>e d''. I d'' \<Longrightarrow> E e d''"
  shows "dsat T R I G Q E (stmtP env s) d"
  unfolding dsat_def
proof (intro allI impI)
  fix w :: world assume w: "w_db w = d"
  obtain r d' where s: "s (w_tick w) d = (r, d')" by fastforce
  show "tsat T R I G Q E (stmtP env s) w"
    using assms w s
    by (cases r; cases "e_fault env (w_tick w)" rule: option.exhaust [case_names ok fault])
       (auto simp: stmtP_def tryP_def Let_def tells_quiet split: db_fault.splits)
qed

end
