(* ===== verification/Realtime.thy ===== *)
theory Realtime
  imports World
begin

text \<open>
  \<open>apps/server/src/realtime\<close>: the gateway (\<open>realtime.gateway.ts\<close>) emits on the websocket and
  feeds the in-process activity stream; the publisher (\<open>realtime.publisher.ts\<close>) is the seam
  every module publishes through, and swallows what the gateway throws. The socket server may
  throw at any emit (\<open>e_socket\<close>). The locale \<open>quiet_publisher\<close> is what the domain services
  rely on: publishing never throws and never touches the database.
\<close>

definition REALTIME_ACTIVITY_CHANNEL :: string where
  "REALTIME_ACTIVITY_CHANNEL = ''activity''"

definition gatewayP :: "env \<Rightarrow> (gateway \<Rightarrow> gateway) \<Rightarrow> unit io" where
  "gatewayP env f = nodeP env (\<lambda>n. n\<lparr>n_gateway := f (n_gateway n)\<rparr>)"

text \<open>
  \<open>this.server?.emit(channel, payload)\<close>: without a server nothing happens, and the server may
  throw; \<open>sent\<close> notes what was emitted.
\<close>

definition emitWith :: "env \<Rightarrow> (gateway \<Rightarrow> gateway) \<Rightarrow> unit io" where
  "emitWith env sent =
     bindP (readNodeP env (\<lambda>n. g_server (n_gateway n))) (\<lambda>server.
     if server then
       bindP (tryP (\<lambda>w. (case e_socket env (w_tick w) of None \<Rightarrow> Inr () | Some e \<Rightarrow> Inl e, bump w))) (\<lambda>_.
       gatewayP env sent)
     else Ret ())"

definition emitP :: "env \<Rightarrow> string \<Rightarrow> RealtimeEvent \<Rightarrow> unit io" where
  "emitP env channel event = emitWith env (\<lambda>g. g\<lparr>g_emitted := g_emitted g @ [(channel, event)]\<rparr>)"

definition gateway_publish :: "env \<Rightarrow> RealtimeEvent \<Rightarrow> unit io" where
  "gateway_publish env event =
     bindP (emitP env REALTIME_ACTIVITY_CHANNEL event) (\<lambda>_.
     bindP (emitP env (event_type_name (re_type event)) event) (\<lambda>_.
     gatewayP env (\<lambda>g. g\<lparr>g_activity := g_activity g @ [event]\<rparr>)))"

definition broadcastStats :: "env \<Rightarrow> DashboardStats \<Rightarrow> unit io" where
  "broadcastStats env stats = emitWith env (\<lambda>g. g\<lparr>g_stats := g_stats g @ [stats]\<rparr>)"

definition handleConnection :: "gateway \<Rightarrow> gateway" where
  "handleConnection g = g\<lparr>g_connections := g_connections g + 1\<rparr>"

definition handleDisconnect :: "gateway \<Rightarrow> gateway" where
  "handleDisconnect g = g\<lparr>g_connections := max 0 (g_connections g - 1)\<rparr>"

definition publish :: "env \<Rightarrow> RealtimeEvent \<Rightarrow> RealtimeEvent io" where
  "publish env event =
     bindP (nowP env) (\<lambda>now.
     let enriched = event\<lparr>re_emittedAt := Some (coalesce (re_emittedAt event) (toISOString now))\<rparr>
     in bindP (catchP (gateway_publish env enriched) (\<lambda>e. Ret ())) (\<lambda>_. Ret enriched))"

section \<open>What publishing may do\<close>

text \<open>What is announced must be true from the call on, whatever the others do meanwhile.\<close>

locale quiet_publisher =
  fixes pub :: "env \<Rightarrow> RealtimeEvent \<Rightarrow> RealtimeEvent io"
  assumes pub_quiet:
    "I d \<Longrightarrow> (\<And>u. I u \<Longrightarrow> G u u) \<Longrightarrow> (\<And>u. R u u) \<Longrightarrow> (\<And>u v w. R u v \<Longrightarrow> R v w \<Longrightarrow> R u w) \<Longrightarrow>
     (\<And>u. R d u \<Longrightarrow> I u \<Longrightarrow> told T event u) \<Longrightarrow>
     dsat T R I G (\<lambda>_ d'. R d d' \<and> I d') (\<lambda>_ _. False) (pub env event) d"
begin

text \<open>A publish between two steps of a handler is transparent to the handler's judgement.\<close>

lemma dsat_pub:
  assumes "I d" and "\<And>u. I u \<Longrightarrow> G u u" and "\<And>u. R u u" and "\<And>u v w. R u v \<Longrightarrow> R v w \<Longrightarrow> R u w"
    and "\<And>u. R d u \<Longrightarrow> I u \<Longrightarrow> told T event u"
    and "\<And>x d'. R d d' \<Longrightarrow> I d' \<Longrightarrow> Q x d'"
  shows "dsat T R I G Q E (pub env event) d"
proof -
  have "dsat T R I G (\<lambda>_ d'. R d d' \<and> I d') (\<lambda>_ _. False) (pub env event) d"
    using assms(1-5) by (rule pub_quiet)
  then show ?thesis by (rule dsat_conseq) (use assms(1,6) in auto)
qed

end

lemma dsat_gatewayP:
  assumes "I d" and "G d d"
    and "\<And>g. \<exists>sent. g_emitted (f g) = g_emitted g @ sent \<and> (\<forall>(c, ev) \<in> set sent. told T ev d)"
    and "\<And>d'. R d d' \<Longrightarrow> I d' \<Longrightarrow> Q () d'"
  shows "dsat T R I G Q E (gatewayP env f) d"
  unfolding gatewayP_def by (rule dsat_nodeP) (use assms in simp_all)

lemma dsat_socket:
  "I d \<Longrightarrow> G d d \<Longrightarrow> (\<And>d'. R d d' \<Longrightarrow> I d' \<Longrightarrow> Q () d') \<Longrightarrow> (\<And>e d'. R d d' \<Longrightarrow> I d' \<Longrightarrow> E e d') \<Longrightarrow>
   dsat T R I G Q E (tryP (\<lambda>w. (case e_socket env (w_tick w) of None \<Rightarrow> Inr () | Some e \<Rightarrow> Inl e, bump w))) d"
  by (auto simp: dsat_def tryP_def tells_quiet split: option.splits)

lemma dsat_emitWith:
  assumes "I d" and "\<And>u. I u \<Longrightarrow> G u u" and "\<And>u. R u u" and "\<And>u v w. R u v \<Longrightarrow> R v w \<Longrightarrow> R u w"
    and sent: "\<And>u g. R d u \<Longrightarrow> I u \<Longrightarrow>
      \<exists>es. g_emitted (sent g) = g_emitted g @ es \<and> (\<forall>(c, ev) \<in> set es. told T ev u)"
  shows "dsat T R I G (\<lambda>_ d'. R d d' \<and> I d') (\<lambda>_ d'. R d d' \<and> I d') (emitWith env sent) d"
  unfolding emitWith_def
proof (rule dsat_bindP)
  show "dsat T R I G (\<lambda>_ d'. R d d' \<and> I d') (\<lambda>_ d'. R d d' \<and> I d') (readNodeP env (\<lambda>n. g_server (n_gateway n))) d"
    using assms by (intro dsat_readNodeP) auto
next
  fix server d1 assume d1: "R d d1 \<and> I d1" "I d1"
  show "dsat T R I G (\<lambda>_ d'. R d d' \<and> I d') (\<lambda>_ d'. R d d' \<and> I d')
    (if server then
       bindP (tryP (\<lambda>w. (case e_socket env (w_tick w) of None \<Rightarrow> Inr () | Some e \<Rightarrow> Inl e, bump w))) (\<lambda>_.
       gatewayP env sent)
     else Ret ()) d1"
  proof (cases server)
    case True
    have "dsat T R I G (\<lambda>_ d'. R d d' \<and> I d') (\<lambda>_ d'. R d d' \<and> I d')
       (bindP (tryP (\<lambda>w. (case e_socket env (w_tick w) of None \<Rightarrow> Inr () | Some e \<Rightarrow> Inl e, bump w))) (\<lambda>_.
       gatewayP env sent)) d1"
      using d1 assms(2) assms(4) sent
      by (intro dsat_bindP [where Q' = "\<lambda>_ d'. R d d' \<and> I d'"] dsat_socket dsat_gatewayP) blast+
    with True show ?thesis by simp
  next
    case False
    with d1 show ?thesis by (simp add: dsat_Ret)
  qed
qed (fact assms(1))

lemma dsat_publish:
  assumes "I d" and G: "\<And>u. I u \<Longrightarrow> G u u" and "\<And>u. R u u" and T: "\<And>u v w. R u v \<Longrightarrow> R v w \<Longrightarrow> R u w"
    and true: "\<And>u. R d u \<Longrightarrow> I u \<Longrightarrow> told T ev u"
  shows "dsat T R I G (\<lambda>_ d'. R d d' \<and> I d') (\<lambda>_ _. False) (publish env ev) d"
proof -
  let ?P = "\<lambda>_ d'. R d d' \<and> I d'"
  let ?e = "\<lambda>t. ev\<lparr>re_emittedAt := Some (coalesce (re_emittedAt ev) (toISOString t))\<rparr>"
  have stamped: "told T (?e t) u" if "R d u" "I u" for t u
    using true [OF that] by (simp add: told_def)
  have emit: "dsat T R I G ?P ?P (emitP env c (?e t)) d1" if "R d d1" "I d1" for c t d1
  proof -
    have "dsat T R I G (\<lambda>_ d'. R d1 d' \<and> I d') (\<lambda>_ d'. R d1 d' \<and> I d') (emitP env c (?e t)) d1"
      unfolding emitP_def using that(2) assms(2-4)
      by (rule dsat_emitWith) (use that(1) T stamped in auto)
    then show ?thesis by (rule dsat_conseq) (use that T in blast)+
  qed
  have logged: "dsat T R I G ?P ?P (gatewayP env (\<lambda>g. g\<lparr>g_activity := g_activity g @ [e]\<rparr>)) d1"
    if "R d d1" "I d1" for e d1
    by (rule dsat_gatewayP) (use that G T in auto)
  have pub: "dsat T R I G ?P ?P (gateway_publish env (?e t)) d1" if "R d d1" "I d1" for t d1
    unfolding gateway_publish_def
    using that by (intro dsat_bindP [where Q' = ?P] emit logged) blast+
  show ?thesis
    unfolding publish_def Let_def
    using assms(1-4)
    by (intro dsat_bindP [where Q' = ?P] dsat_catchP [where E' = ?P] dsat_nowP pub dsat_Ret) blast+
qed

interpretation publisher: quiet_publisher publish
  by unfold_locales (rule dsat_publish)

end
