(* ===== verification/Attempts.thy ===== *)
theory Attempts
  imports Realtime
begin

text \<open>
  \<open>apps/server/src/attempts/attempts.service.ts\<close>: the attempt log. A row is opened before the
  HTTP call and closed when it settles (\<open>complete\<close>) or when the lease of its job expires
  (\<open>closeAbandoned\<close>). The lemmas say what each operation does to the table.
\<close>

section \<open>The operations\<close>

record AttemptCompletion =
  ac_status :: AttemptStatus
  ac_httpStatus :: "int option"
  ac_errorType :: "DeliveryErrorType option"
  ac_errorMessage :: "string option"
  ac_completedAt :: "int option"

definition truncate :: "string option \<Rightarrow> string option" where
  "truncate message =
     (case message of
        None \<Rightarrow> None
      | Some m \<Rightarrow> if m = [] then None
                  else if 1000 < length m then Some (take 1000 m @ ''...'') else Some m)"

text \<open>The row \<open>start\<close> saves; the database fills in the id and \<open>createdAt\<close>.\<close>

definition new_attempt :: "env \<Rightarrow> string \<Rightarrow> int \<Rightarrow> int \<Rightarrow> nat \<Rightarrow> attempt_row" where
  "new_attempt env eventId attemptNumber startedAt t =
     \<lparr>ar_id = e_uuid env t 0, ar_eventId = eventId, ar_attemptNumber = attemptNumber,
      ar_startedAt = startedAt, ar_completedAt = None, ar_status = IN_PROGRESS,
      ar_httpStatus = None, ar_errorType = None, ar_errorMessage = None,
      ar_createdAt = e_db_clock env t\<rparr>"

definition attempts_start :: "env \<Rightarrow> string \<Rightarrow> int \<Rightarrow> attempt_row io" where
  "attempts_start env eventId attemptNumber =
     bindP (nowP env) (\<lambda>startedAt.
     stmtP env (insert_attempt_row env (new_attempt env eventId attemptNumber startedAt)))"

definition close_attempt :: "AttemptCompletion \<Rightarrow> int \<Rightarrow> attempt_row \<Rightarrow> attempt_row" where
  "close_attempt completion completedAt r =
     r\<lparr>ar_status := ac_status completion, ar_httpStatus := ac_httpStatus completion,
       ar_errorType := ac_errorType completion,
       ar_errorMessage := truncate (ac_errorMessage completion),
       ar_completedAt := Some completedAt\<rparr>"

definition complete :: "env \<Rightarrow> string \<Rightarrow> AttemptCompletion \<Rightarrow> unit io" where
  "complete env attemptId completion =
     bindP (case ac_completedAt completion of Some t \<Rightarrow> Ret t | None \<Rightarrow> nowP env) (\<lambda>completedAt.
     bindP (stmtP env (update_attempts (\<lambda>r. sql_eq env (ar_id r) attemptId)
              (close_attempt completion completedAt))) (\<lambda>_. Ret ()))"

text \<open>The type of \<open>status\<close> rules out IN_PROGRESS; a failure has an error type.\<close>

definition completion_ok :: "AttemptCompletion \<Rightarrow> bool" where
  "completion_ok c \<longleftrightarrow>
     ac_status c \<noteq> IN_PROGRESS \<and> (ac_status c = AttemptStatus.FAILED \<longleftrightarrow> ac_errorType c \<noteq> None)"

definition in_flight :: "env \<Rightarrow> string \<Rightarrow> attempt_row \<Rightarrow> bool" where
  "in_flight env eventId r \<longleftrightarrow>
     sql_eq env (ar_eventId r) eventId \<and> ar_status r = IN_PROGRESS \<and> ar_completedAt r = None"

definition abandon_attempt :: "string \<Rightarrow> int \<Rightarrow> attempt_row \<Rightarrow> attempt_row" where
  "abandon_attempt reason now r =
     r\<lparr>ar_status := AttemptStatus.FAILED, ar_errorType := Some WORKER_CRASH,
       ar_errorMessage := Some reason, ar_completedAt := Some now\<rparr>"

definition closeAbandoned :: "env \<Rightarrow> string \<Rightarrow> string \<Rightarrow> nat io" where
  "closeAbandoned env eventId reason =
     bindP (nowP env) (\<lambda>now.
     stmtP env (update_attempts (in_flight env eventId) (abandon_attempt reason now)))"

definition attempts_findByEventId :: "env \<Rightarrow> string \<Rightarrow> attempt_row list io" where
  "attempts_findByEventId env eventId =
     mapP (sql_order ar_attemptNumber)
       (stmtP env (select_attempts env (\<lambda>r. sql_eq env (ar_eventId r) eventId)))"

definition latest_by_event :: "attempt_row list \<Rightarrow> (string \<times> attempt_row) list" where
  "latest_by_event rows = fold (\<lambda>row latest. AList.update (ar_eventId row) row latest) rows []"

definition findLatestForEvents :: "env \<Rightarrow> string list \<Rightarrow> (string \<times> attempt_row) list io" where
  "findLatestForEvents env eventIds =
     (if eventIds = [] then Ret []
      else bindP (stmtP env (select_attempts env (\<lambda>r. list_ex (sql_eq env (ar_eventId r)) eventIds)))
             (\<lambda>rows. Ret (latest_by_event (sql_order ar_attemptNumber rows))))"

definition attempts_countAll :: "env \<Rightarrow> nat io" where
  "attempts_countAll env = mapP length (stmtP env (select_attempts env (\<lambda>_. True)))"

section \<open>Facts\<close>

lemma close_attempt_fixed [simp]:
  "ar_id (close_attempt c t r) = ar_id r"
  "ar_eventId (close_attempt c t r) = ar_eventId r"
  "ar_attemptNumber (close_attempt c t r) = ar_attemptNumber r"
  "ar_startedAt (close_attempt c t r) = ar_startedAt r"
  "ar_createdAt (close_attempt c t r) = ar_createdAt r"
  "ar_completedAt (close_attempt c t r) = Some t"
  by (simp_all add: close_attempt_def)

lemma abandon_attempt_fixed [simp]:
  "ar_id (abandon_attempt c t r) = ar_id r"
  "ar_eventId (abandon_attempt c t r) = ar_eventId r"
  "ar_attemptNumber (abandon_attempt c t r) = ar_attemptNumber r"
  "ar_startedAt (abandon_attempt c t r) = ar_startedAt r"
  "ar_createdAt (abandon_attempt c t r) = ar_createdAt r"
  "ar_completedAt (abandon_attempt c t r) = Some t"
  by (simp_all add: abandon_attempt_def)

lemma new_attempt_fields [simp]:
  "ar_eventId (new_attempt env e n s t) = e"
  "ar_attemptNumber (new_attempt env e n s t) = n"
  "ar_id (new_attempt env e n s t) = e_uuid env t 0"
  "ar_completedAt (new_attempt env e n s t) = None"
  "ar_status (new_attempt env e n s t) = IN_PROGRESS"
  by (simp_all add: new_attempt_def)

lemma map_of_latest_by_event:
  "map_of (latest_by_event rows) e =
     (if \<exists>r \<in> set rows. ar_eventId r = e then Some (last (filter (\<lambda>r. ar_eventId r = e) rows)) else None)"
proof (induction rows rule: rev_induct)
  case Nil
  then show ?case by (simp add: latest_by_event_def)
next
  case (snoc r rows)
  have "latest_by_event (rows @ [r]) = AList.update (ar_eventId r) r (latest_by_event rows)"
    by (simp add: latest_by_event_def)
  with snoc show ?case by (auto simp: update_conv')
qed

lemma last_sorted_max:
  "sorted (map f xs) \<Longrightarrow> x \<in> set xs \<Longrightarrow> f x \<le> (f (last xs) :: int)"
  by (induction xs rule: rev_induct) (auto simp: sorted_append)

end
