(* ===== verification/Queue.thy ===== *)
theory Queue
  imports Attempts
begin

text \<open>
  \<open>apps/server/src/delivery/delivery.repository.ts\<close>: the persistent queue. The table
  \<open>delivery_jobs\<close> is the queue; claiming is a read of candidates followed by one conditional
  UPDATE per job. The repository also writes the \<open>events.status\<close> projection.
\<close>

section \<open>The operations\<close>

definition new_job :: "env \<Rightarrow> string \<Rightarrow> int \<Rightarrow> nat \<Rightarrow> job_row" where
  "new_job env eventId nextAttempt t =
     \<lparr>jr_id = e_uuid env t 1, jr_eventId = eventId, jr_status = PENDING, jr_attemptCount = 0,
      jr_nextAttemptAt = nextAttempt, jr_lockedAt = None, jr_lockedBy = None,
      jr_createdAt = e_db_clock env t, jr_updatedAt = e_db_clock env t\<rparr>"

text \<open>Called inside the ingestion transaction: a statement of it, not an action of its own.\<close>

definition insertJob :: "env \<Rightarrow> string \<Rightarrow> int \<Rightarrow> unit stmt" where
  "insertJob env eventId nextAttempt = insert_job_row env (new_job env eventId nextAttempt)"

definition job_findByEventId :: "env \<Rightarrow> string \<Rightarrow> job_row option io" where
  "job_findByEventId env eventId =
     mapP first_row (stmtP env (select_jobs env (\<lambda>r. sql_eq env (jr_eventId r) eventId)))"

definition findManyByEventIds :: "env \<Rightarrow> string list \<Rightarrow> job_row list io" where
  "findManyByEventIds env eventIds =
     (if eventIds = [] then Ret []
      else stmtP env (select_jobs env (\<lambda>r. list_ex (sql_eq env (jr_eventId r)) eventIds)))"

definition due :: "int \<Rightarrow> job_row \<Rightarrow> bool" where
  "due now r \<longleftrightarrow> jr_status r \<in> set CLAIMABLE_STATUSES \<and> jr_nextAttemptAt r \<le> now"

definition findDueJobIds :: "env \<Rightarrow> rat \<Rightarrow> string list io" where
  "findDueJobIds env limit =
     bindP (nowP env) (\<lambda>now.
     bindP (stmtP env (select_jobs env (due now))) (\<lambda>rows.
     Ret (map jr_id (sql_take env limit (sql_order jr_nextAttemptAt rows)))))"

definition claim_row :: "string \<Rightarrow> int \<Rightarrow> job_row \<Rightarrow> job_row" where
  "claim_row workerId now r =
     r\<lparr>jr_status := DELIVERING, jr_attemptCount := jr_attemptCount r + 1,
       jr_lockedAt := Some now, jr_lockedBy := Some workerId\<rparr>"

text \<open>The conditional UPDATE of \<open>claim\<close>: it matches a claimable row that is due, and no other.\<close>

abbreviation claim_update :: "env \<Rightarrow> string \<Rightarrow> string \<Rightarrow> int \<Rightarrow> nat stmt" where
  "claim_update env jobId workerId now \<equiv>
     update_jobs env (\<lambda>r. sql_eq env (jr_id r) jobId \<and> due now r) (claim_row workerId now)"

definition claim :: "env \<Rightarrow> string \<Rightarrow> string \<Rightarrow> job_row option io" where
  "claim env jobId workerId =
     bindP (nowP env) (\<lambda>now.
     bindP (stmtP env (claim_update env jobId workerId now)) (\<lambda>affected.
     if affected = 0 then Ret None
     else mapP first_row (stmtP env (select_jobs env (\<lambda>r. sql_eq env (jr_id r) jobId)))))"

definition updateEventStatus :: "env \<Rightarrow> string \<Rightarrow> DeliveryStatus \<Rightarrow> unit io" where
  "updateEventStatus env eventId status =
     mapP (\<lambda>_. ()) (stmtP env
       (update_events env (\<lambda>r. sql_eq env (er_eventId r) eventId) (\<lambda>r. r\<lparr>er_status := status\<rparr>)))"

text \<open>Two statements, one after the other; \<open>extra\<close> is what else the first one sets.\<close>

definition transition :: "env \<Rightarrow> job_row \<Rightarrow> DeliveryStatus \<Rightarrow> (job_row \<Rightarrow> job_row) \<Rightarrow> unit io" where
  "transition env job status extra =
     bindP (stmtP env (update_jobs env (\<lambda>r. sql_eq env (jr_id r) (jr_id job))
              (\<lambda>r. extra (r\<lparr>jr_status := status\<rparr>)))) (\<lambda>_.
     updateEventStatus env (jr_eventId job) status)"

definition unlock :: "job_row \<Rightarrow> job_row" where
  "unlock r = r\<lparr>jr_lockedAt := None, jr_lockedBy := None\<rparr>"

definition markDelivered :: "env \<Rightarrow> job_row \<Rightarrow> unit io" where
  "markDelivered env job = transition env job DELIVERED unlock"

definition markFailed :: "env \<Rightarrow> job_row \<Rightarrow> unit io" where
  "markFailed env job = transition env job DeliveryStatus.FAILED unlock"

definition scheduleRetry :: "env \<Rightarrow> job_row \<Rightarrow> int \<Rightarrow> unit io" where
  "scheduleRetry env job nextAttempt =
     transition env job RETRYING (\<lambda>r. unlock (r\<lparr>jr_nextAttemptAt := nextAttempt\<rparr>))"

definition lease_expired :: "int \<Rightarrow> job_row \<Rightarrow> bool" where
  "lease_expired cutoff r \<longleftrightarrow>
     jr_status r = DELIVERING \<and> (case jr_lockedAt r of None \<Rightarrow> False | Some l \<Rightarrow> l < cutoff)"

definition findStaleJobs :: "env \<Rightarrow> int \<Rightarrow> rat \<Rightarrow> job_row list io" where
  "findStaleJobs env cutoff limit =
     mapP (\<lambda>rows. sql_take env limit (sql_order (\<lambda>r. coalesce (jr_lockedAt r) 0) rows))
       (stmtP env (select_jobs env (lease_expired cutoff)))"

text \<open>The row is still the DELIVERING row the sweep saw; a NULL \<open>lockedAt\<close> equals nothing.\<close>

definition same_lease :: "env \<Rightarrow> job_row \<Rightarrow> job_row \<Rightarrow> bool" where
  "same_lease env job r \<longleftrightarrow>
     sql_eq env (jr_id r) (jr_id job) \<and> jr_status r = DELIVERING \<and>
     jr_lockedAt r \<noteq> None \<and> jr_lockedAt r = jr_lockedAt job"

definition release_row :: "DeliveryStatus \<Rightarrow> int \<Rightarrow> job_row \<Rightarrow> job_row" where
  "release_row status nextAttempt r = unlock (r\<lparr>jr_status := status, jr_nextAttemptAt := nextAttempt\<rparr>)"

definition releaseStaleJob :: "env \<Rightarrow> job_row \<Rightarrow> DeliveryStatus \<Rightarrow> int \<Rightarrow> bool io" where
  "releaseStaleJob env job status nextAttempt =
     bindP (stmtP env (update_jobs env (same_lease env job) (release_row status nextAttempt)))
       (\<lambda>affected.
        if affected \<noteq> 0 then bindP (updateEventStatus env (jr_eventId job) status) (\<lambda>_. Ret True)
        else Ret False)"

text \<open>GROUP BY: one line per status that occurs.\<close>

definition count_groups :: "'s list \<Rightarrow> ('s \<times> nat) list" where
  "count_groups ss = map (\<lambda>s. (s, count_list ss s)) (remdups ss)"

definition job_countByStatus :: "env \<Rightarrow> (DeliveryStatus \<times> nat) list io" where
  "job_countByStatus env =
     mapP (\<lambda>rows. count_groups (map jr_status rows)) (stmtP env (select_jobs env (\<lambda>_. True)))"

text \<open>\<open>events.findOne({ where: { eventId } })\<close>.\<close>

definition event_findOne :: "env \<Rightarrow> string \<Rightarrow> event_row option io" where
  "event_findOne env eventId =
     mapP first_row (stmtP env (select_events env (\<lambda>r. sql_eq env (er_eventId r) eventId)))"

end
