(* ===== verification/Delivery.thy ===== *)
theory Delivery
  imports Queue
begin

text \<open>
  \<open>apps/server/src/delivery/delivery.service.ts\<close> and the effectful half of
  \<open>webhook.client.ts\<close>: one attempt for a claimed job, from the HTTP call to the job's next
  status, and the recovery of jobs whose lease expired.
\<close>

section \<open>The webhook client\<close>

text \<open>The HTTP exchange: one action, recorded in the history of the world.\<close>

definition exchangeP :: "env \<Rightarrow> WebhookDeliveryRequest \<Rightarrow> http_request \<Rightarrow> http_reply io" where
  "exchangeP env request http =
     actP (\<lambda>w. let reply = e_exchange env (w_tick w) http;
                   d = w_db w
               in (reply, bump (w\<lparr>w_db := d\<lparr>wire := wire d @
                     [\<lparr>wx_delivery = request, wx_request = http, wx_reply = reply\<rparr>]\<rparr>\<rparr>)))"

definition send :: "env \<Rightarrow> WebhookDeliveryRequest \<Rightarrow> WebhookDeliveryResult io" where
  "send env request =
     bindP (nowP env) (\<lambda>startedAt.
     bindP (nowP env) (\<lambda>timestamp.
     bindP (exchangeP env request
              (webhook_request (cfg_webhook (e_cfg env)) (e_hmac env) timestamp request)) (\<lambda>reply.
     bindP (nowP env) (\<lambda>settledAt.
     Ret (delivery_result (settledAt - startedAt) reply)))))"

section \<open>The delivery service\<close>

datatype DeliveryOutcome =
    Delivered_outcome int "int option"
  | Retry_scheduled_outcome int int
  | Exhausted_outcome int
  | Permanent_failure_outcome int "int option"
  | Skipped_outcome string

text \<open>How a template literal shows a number or an error type that may be null.\<close>

definition show_or_null :: "('a \<Rightarrow> string) \<Rightarrow> 'a option \<Rightarrow> string" where
  "show_or_null sh x = (case x of None \<Rightarrow> ''null'' | Some v \<Rightarrow> sh v)"

definition budget :: "env \<Rightarrow> rat" where
  "budget env = maxAttempts (cfg_retry (e_cfg env))"

definition completeFailedAttempt :: "env \<Rightarrow> string \<Rightarrow> WebhookDeliveryResult \<Rightarrow> unit io" where
  "completeFailedAttempt env attemptId result =
     complete env attemptId
       \<lparr>ac_status = AttemptStatus.FAILED, ac_httpStatus = wd_httpStatus result,
        ac_errorType = Some (coalesce (wd_errorType result) UNKNOWN),
        ac_errorMessage = wd_errorMessage result, ac_completedAt = None\<rparr>"

definition publishAttemptFailed ::
  "env \<Rightarrow> job_row \<Rightarrow> event_row \<Rightarrow> int \<Rightarrow> WebhookDeliveryResult \<Rightarrow> FailureClassification \<Rightarrow> RealtimeEvent io"
  where
  "publishAttemptFailed env job event attemptNumber result classification =
     publish env
       ((realtime_event DELIVERY_FAILED (jr_eventId job)
          (if wd_responded result
           then ''Receiver returned '' @ show_or_null show_int (wd_httpStatus result) @
                '' on attempt #'' @ show_int attemptNumber
           else ''Attempt #'' @ show_int attemptNumber @ '' failed: '' @
                show_or_null id (wd_errorMessage result)))
        \<lparr>re_eventType := Some (er_type event), re_status := Some DELIVERING,
         re_attemptNumber := Some (Fin (of_int attemptNumber)), re_maxAttempts := Some (budget env),
         re_httpStatus := Some (wd_httpStatus result), re_errorType := Some (wd_errorType result),
         re_errorMessage := Some (wd_errorMessage result),
         re_classification := Some classification,
         re_durationMs := Some (wd_durationMs result)\<rparr>)"

definition onSuccess ::
  "env \<Rightarrow> job_row \<Rightarrow> event_row \<Rightarrow> string \<Rightarrow> int \<Rightarrow> WebhookDeliveryResult \<Rightarrow> DeliveryOutcome io" where
  "onSuccess env job event attemptId attemptNumber result =
     bindP (complete env attemptId
       \<lparr>ac_status = SUCCESS, ac_httpStatus = wd_httpStatus result, ac_errorType = None,
        ac_errorMessage = None, ac_completedAt = None\<rparr>) (\<lambda>_.
     bindP (throwP (assertTransition DELIVERING DELIVERED (Some (jr_eventId job)))) (\<lambda>_.
     bindP (markDelivered env job) (\<lambda>_.
     bindP (metricP env (increment DELIVERIES_SUCCEEDED_KEY 1)) (\<lambda>_.
     bindP (nowP env) (\<lambda>now.
     bindP (metricP env (recordDeliveryLatency (now - er_createdAt event))) (\<lambda>_.
     bindP (publish env
       ((realtime_event DELIVERY_SUCCEEDED (jr_eventId job)
          (''Receiver returned '' @ show_or_null show_int (wd_httpStatus result) @
           '' - event delivered on attempt #'' @ show_int attemptNumber))
        \<lparr>re_eventType := Some (er_type event), re_status := Some DELIVERED,
         re_attemptNumber := Some (Fin (of_int attemptNumber)), re_maxAttempts := Some (budget env),
         re_httpStatus := Some (wd_httpStatus result),
         re_durationMs := Some (wd_durationMs result)\<rparr>)) (\<lambda>_.
     Ret (Delivered_outcome attemptNumber (wd_httpStatus result)))))))))"

definition onPermanentFailure ::
  "env \<Rightarrow> job_row \<Rightarrow> event_row \<Rightarrow> string \<Rightarrow> int \<Rightarrow> WebhookDeliveryResult \<Rightarrow> DeliveryOutcome io" where
  "onPermanentFailure env job event attemptId attemptNumber result =
     bindP (completeFailedAttempt env attemptId result) (\<lambda>_.
     bindP (metricP env (increment FAILURES_PERMANENT_KEY 1)) (\<lambda>_.
     bindP (throwP (assertTransition DELIVERING DeliveryStatus.FAILED (Some (jr_eventId job)))) (\<lambda>_.
     bindP (markFailed env job) (\<lambda>_.
     bindP (publish env
       ((realtime_event DELIVERY_FAILED (jr_eventId job)
          (''Receiver returned '' @
           (case wd_httpStatus result of
              Some s \<Rightarrow> show_int s
            | None \<Rightarrow> show_or_null error_type_name (wd_errorType result)) @
           '' - permanent failure, no retry scheduled''))
        \<lparr>re_eventType := Some (er_type event), re_status := Some DeliveryStatus.FAILED,
         re_attemptNumber := Some (Fin (of_int attemptNumber)), re_maxAttempts := Some (budget env),
         re_httpStatus := Some (wd_httpStatus result), re_errorType := Some (wd_errorType result),
         re_errorMessage := Some (wd_errorMessage result),
         re_classification := Some PERMANENT, re_attemptsRemaining := Some 0,
         re_nextAttemptAt := Some None, re_durationMs := Some (wd_durationMs result)\<rparr>)) (\<lambda>_.
     Ret (Permanent_failure_outcome attemptNumber (wd_httpStatus result)))))))"

text \<open>The two ends of a retryable failure: the budget is spent, or another attempt follows.\<close>

definition onExhausted ::
  "env \<Rightarrow> job_row \<Rightarrow> event_row \<Rightarrow> int \<Rightarrow> WebhookDeliveryResult \<Rightarrow> DeliveryOutcome io" where
  "onExhausted env job event attemptNumber result =
     bindP (throwP (assertTransition DELIVERING DeliveryStatus.FAILED (Some (jr_eventId job)))) (\<lambda>_.
     bindP (markFailed env job) (\<lambda>_.
     bindP (metricP env (increment DELIVERIES_EXHAUSTED_KEY 1)) (\<lambda>_.
     bindP (publish env
       ((realtime_event DELIVERY_EXHAUSTED (jr_eventId job)
          (''Retry limit reached after '' @ show_int attemptNumber @
           '' attempts - no further attempts scheduled''))
        \<lparr>re_eventType := Some (er_type event), re_status := Some DeliveryStatus.FAILED,
         re_attemptNumber := Some (Fin (of_int attemptNumber)), re_maxAttempts := Some (budget env),
         re_httpStatus := Some (wd_httpStatus result), re_errorType := Some (wd_errorType result),
         re_errorMessage := Some (wd_errorMessage result),
         re_classification := Some RETRYABLE, re_attemptsRemaining := Some 0,
         re_nextAttemptAt := Some None\<rparr>)) (\<lambda>_.
     Ret (Exhausted_outcome attemptNumber)))))"

definition onRetry ::
  "env \<Rightarrow> job_row \<Rightarrow> event_row \<Rightarrow> int \<Rightarrow> WebhookDeliveryResult \<Rightarrow> DeliveryOutcome io" where
  "onRetry env job event attemptNumber result =
     bindP (nowP env) (\<lambda>now.
     let next = nextAttemptAt (cfg_retry (e_cfg env)) attemptNumber now in
     bindP (throwP (assertTransition DELIVERING RETRYING (Some (jr_eventId job)))) (\<lambda>_.
     bindP (scheduleRetry env job next) (\<lambda>_.
     bindP (metricP env (increment RETRIES_SCHEDULED_KEY 1)) (\<lambda>_.
     bindP (publish env
       ((realtime_event DELIVERY_RETRY_SCHEDULED (jr_eventId job)
          (''Retry '' @ show_int (attemptNumber + 1) @ ''/'' @ show_num (budget env) @
           '' scheduled for '' @ toISOString next))
        \<lparr>re_eventType := Some (er_type event), re_status := Some RETRYING,
         re_attemptNumber := Some (Fin (of_int attemptNumber)), re_maxAttempts := Some (budget env),
         re_httpStatus := Some (wd_httpStatus result), re_errorType := Some (wd_errorType result),
         re_errorMessage := Some (wd_errorMessage result),
         re_classification := Some RETRYABLE,
         re_attemptsRemaining := Some (attemptsRemaining (cfg_retry (e_cfg env)) attemptNumber),
         re_nextAttemptAt := Some (Some (toISOString next))\<rparr>)) (\<lambda>_.
     Ret (Retry_scheduled_outcome attemptNumber next))))))"

definition onRetryableFailure ::
  "env \<Rightarrow> job_row \<Rightarrow> event_row \<Rightarrow> string \<Rightarrow> int \<Rightarrow> WebhookDeliveryResult \<Rightarrow> DeliveryOutcome io" where
  "onRetryableFailure env job event attemptId attemptNumber result =
     bindP (completeFailedAttempt env attemptId result) (\<lambda>_.
     bindP (metricP env (increment FAILURES_RETRYABLE_KEY 1)) (\<lambda>_.
     bindP (publishAttemptFailed env job event attemptNumber result RETRYABLE) (\<lambda>_.
     if isExhausted (cfg_retry (e_cfg env)) attemptNumber
     then onExhausted env job event attemptNumber result
     else onRetry env job event attemptNumber result)))"

text \<open>What the result of an attempt means for the job.\<close>

definition settle ::
  "env \<Rightarrow> job_row \<Rightarrow> event_row \<Rightarrow> string \<Rightarrow> int \<Rightarrow> WebhookDeliveryResult \<Rightarrow> DeliveryOutcome io" where
  "settle env job event attemptId attemptNumber result =
     (case classifyResult result of
        Delivered_2xx \<Rightarrow> onSuccess env job event attemptId attemptNumber result
      | Failure PERMANENT \<Rightarrow> onPermanentFailure env job event attemptId attemptNumber result
      | Failure RETRYABLE \<Rightarrow> onRetryableFailure env job event attemptId attemptNumber result)"

text \<open>\<open>executeClaimedJob\<close> in three pieces: after the call, the attempt, the whole.\<close>

definition record_result ::
  "env \<Rightarrow> job_row \<Rightarrow> event_row \<Rightarrow> string \<Rightarrow> int \<Rightarrow> WebhookDeliveryResult \<Rightarrow> DeliveryOutcome io" where
  "record_result env job event attemptId attemptNumber result =
     bindP (metricP env (recordAttemptDuration (wd_durationMs result))) (\<lambda>_.
     bindP (case wd_httpStatus result of
              None \<Rightarrow> Ret ()
            | Some status \<Rightarrow> metricP env (recordHttpStatus status)) (\<lambda>_.
     settle env job event attemptId attemptNumber result))"

definition delivery_request :: "event_row \<Rightarrow> int \<Rightarrow> WebhookDeliveryRequest" where
  "delivery_request event attemptNumber =
     \<lparr>wr_eventId = er_eventId event, wr_type = er_type event,
      wr_occurredAt = er_occurredAt event, wr_payload = er_payload event,
      wr_attemptNumber = attemptNumber\<rparr>"

definition attempt_delivery :: "env \<Rightarrow> job_row \<Rightarrow> event_row \<Rightarrow> int \<Rightarrow> DeliveryOutcome io" where
  "attempt_delivery env job event attemptNumber =
     bindP (attempts_start env (jr_eventId job) attemptNumber) (\<lambda>attempt.
     bindP (metricP env (increment DELIVERY_ATTEMPTS_KEY 1)) (\<lambda>_.
     bindP (publish env
       ((realtime_event DELIVERY_STARTED (jr_eventId job)
          (''Delivery attempt #'' @ show_int attemptNumber @ '' started''))
        \<lparr>re_eventType := Some (er_type event), re_status := Some DELIVERING,
         re_attemptNumber := Some (Fin (of_int attemptNumber)), re_maxAttempts := Some (budget env)\<rparr>)) (\<lambda>_.
     bindP (send env (delivery_request event attemptNumber)) (\<lambda>result.
     record_result env job event (ar_id attempt) attemptNumber result))))"

definition executeClaimedJob :: "env \<Rightarrow> job_row \<Rightarrow> DeliveryOutcome io" where
  "executeClaimedJob env job =
     bindP (event_findOne env (jr_eventId job)) (\<lambda>found.
     case found of
       None \<Rightarrow> bindP (markFailed env job) (\<lambda>_. Ret (Skipped_outcome ''event-not-found''))
     | Some event \<Rightarrow> attempt_delivery env job event (jr_attemptCount job))"

section \<open>Lease recovery\<close>

definition recoverJob :: "env \<Rightarrow> int \<Rightarrow> job_row \<Rightarrow> nat \<Rightarrow> nat io" where
  "recoverJob env now job recovered =
     bindP (closeAbandoned env (jr_eventId job)
       (''Worker '' @ coalesce (jr_lockedBy job) ''unknown'' @
        '' stopped responding; lease expired'')) (\<lambda>_.
     let exhausted = isExhausted (cfg_retry (e_cfg env)) (jr_attemptCount job);
         (status, next) =
           (if exhausted then (DeliveryStatus.FAILED, jr_nextAttemptAt job)
            else (RETRYING, nextAttemptAt (cfg_retry (e_cfg env)) (jr_attemptCount job) now))
     in bindP (releaseStaleJob env job status next) (\<lambda>released.
     if \<not> released then Ret recovered
     else
       bindP (metricP env (increment JOBS_RECOVERED_KEY 1)) (\<lambda>_.
       bindP (publish env
         ((realtime_event (if exhausted then DELIVERY_EXHAUSTED else DELIVERY_RECOVERED)
            (jr_eventId job)
            (if exhausted
             then ''Worker crashed during the final attempt - retry budget spent, marked FAILED''
             else ''Recovered from worker crash during attempt #'' @ show_int (jr_attemptCount job) @
                  '' - requeued''))
          \<lparr>re_status := Some status, re_attemptNumber := Some (Fin (of_int (jr_attemptCount job))),
           re_maxAttempts := Some (budget env), re_errorType := Some (Some WORKER_CRASH),
           re_nextAttemptAt := Some (if exhausted then None else Some (toISOString next)),
           re_attemptsRemaining :=
             Some (attemptsRemaining (cfg_retry (e_cfg env)) (jr_attemptCount job))\<rparr>)) (\<lambda>_.
       Ret (recovered + 1)))))"

definition recoverStaleJobs :: "env \<Rightarrow> rat \<Rightarrow> nat io" where
  "recoverStaleJobs env limit =
     bindP (nowP env) (\<lambda>now.
     let cutoff = js_date (of_int now - leaseTimeoutMs (cfg_worker (e_cfg env))) in
     bindP (findStaleJobs env cutoff limit) (\<lambda>stale.
     forP stale (recoverJob env now) 0))"

end
