(* ===== verification/Worker.thy ===== *)
theory Worker
  imports Delivery
begin

text \<open>
  \<open>apps/server/src/delivery/delivery.worker.ts\<close>: the executor. One pass recovers expired
  leases, reads what is due, claims each job and runs it; an error in one job leaves the job
  to lease recovery and the pass goes on.
\<close>

record WorkerTickResult =
  tr_recovered :: nat
  tr_claimed :: nat
  tr_processed :: nat
  tr_durationMs :: int

record WorkerStatus =
  ws_enabled :: bool
  ws_id :: string
  ws_lastTickAt :: "string option"
  ws_running :: bool

text \<open>One claimed job: 1 when it was processed, 0 when an error left it to lease recovery.\<close>

definition processJob :: "env \<Rightarrow> job_row \<Rightarrow> nat io" where
  "processJob env job = catchP (mapP (\<lambda>_. 1) (executeClaimedJob env job)) (\<lambda>error. Ret 0)"

text \<open>The loop over the due ids, with the counts \<open>claimed\<close> and \<open>processed\<close>.\<close>

primrec drainP :: "env \<Rightarrow> string list \<Rightarrow> nat \<times> nat \<Rightarrow> (nat \<times> nat) io" where
  "drainP env [] counts = Ret counts"
| "drainP env (jobId # jobIds) counts =
     bindP (readNodeP env (\<lambda>n. wk_stopped (n_worker n))) (\<lambda>stopped.
     if stopped then Ret counts
     else bindP (claim env jobId (worker_id (cfg_worker (e_cfg env)))) (\<lambda>claimed.
       case claimed of
         None \<Rightarrow> drainP env jobIds counts
       | Some job \<Rightarrow> bindP (processJob env job) (\<lambda>done.
           drainP env jobIds (fst counts + 1, snd counts + done))))"

definition runOnce :: "env \<Rightarrow> WorkerTickResult io" where
  "runOnce env =
     bindP (nowP env) (\<lambda>startedAt.
     bindP (workerP env (\<lambda>s. s\<lparr>wk_ticking := True\<rparr>)) (\<lambda>_.
     bindP (nowP env) (\<lambda>now.
     bindP (workerP env (\<lambda>s. s\<lparr>wk_lastTickAt := Some now\<rparr>)) (\<lambda>_.
     bindP (metricP env (increment WORKER_TICKS_KEY 1)) (\<lambda>_.
     let batch = batchSize (cfg_worker (e_cfg env)) in
     finallyP
       (bindP (recoverStaleJobs env batch) (\<lambda>recovered.
        bindP (findDueJobIds env batch) (\<lambda>dueJobIds.
        bindP (drainP env dueJobIds (0, 0)) (\<lambda>counts.
        bindP (nowP env) (\<lambda>finishedAt.
        let durationMs = finishedAt - startedAt in
        bindP (metricP env (recordWorkerProcessing durationMs)) (\<lambda>_.
        Ret \<lparr>tr_recovered = recovered, tr_claimed = fst counts, tr_processed = snd counts,
             tr_durationMs = durationMs\<rparr>))))))
       (workerP env (\<lambda>s. s\<lparr>wk_ticking := False\<rparr>)))))))"

text \<open>A timer is its delay; when it fires, the node runs \<open>tick\<close>.\<close>

definition scheduleNextTick :: "env \<Rightarrow> rat \<Rightarrow> unit io" where
  "scheduleNextTick env delayMs =
     workerP env (\<lambda>s. if wk_stopped s then s else s\<lparr>wk_timer := Some delayMs\<rparr>)"

definition tick :: "env \<Rightarrow> unit io" where
  "tick env =
     finallyP (catchP (mapP (\<lambda>_. ()) (runOnce env)) (\<lambda>error. Ret ()))
       (scheduleNextTick env (pollIntervalMs (cfg_worker (e_cfg env))))"

definition onApplicationBootstrap :: "env \<Rightarrow> unit io" where
  "onApplicationBootstrap env =
     (if \<not> worker_enabled (cfg_worker (e_cfg env)) then Ret () else scheduleNextTick env 0)"

definition onModuleDestroy :: "env \<Rightarrow> unit io" where
  "onModuleDestroy env = workerP env (\<lambda>s. s\<lparr>wk_stopped := True, wk_timer := None\<rparr>)"

definition worker_status :: "env \<Rightarrow> worker_state \<Rightarrow> WorkerStatus" where
  "worker_status env s =
     \<lparr>ws_enabled = worker_enabled (cfg_worker (e_cfg env)), ws_id = worker_id (cfg_worker (e_cfg env)),
      ws_lastTickAt = map_option toISOString (wk_lastTickAt s), ws_running = wk_ticking s\<rparr>"

end
