(* ===== verification/Events.thy ===== *)
theory Events
  imports Delivery
begin

text \<open>
  \<open>apps/server/src/events\<close>: ingestion (\<open>events.service.ts\<close>, \<open>events.repository.ts\<close>,
  \<open>events.controller.ts\<close>). An accepted event and its job are inserted in one transaction, which
  is one atomic action of the model; a duplicate key turns the submission into a read of the
  event that is there. The queries behind the dashboard's tables are here too; statements the
  source starts together (\<open>Promise.all\<close>) are modelled one after the other.
\<close>

section \<open>Ingestion\<close>

record CreateEventDto =
  dto_eventId :: string
  dto_type :: string
  dto_occurredAt :: int
  dto_payload :: "json option"

record IngestResult =
  ir_duplicate :: bool
  ir_event :: event_row

text \<open>\<open>dto.payload ?? {}\<close>.\<close>

definition payload_or_empty :: "json option \<Rightarrow> json" where
  "payload_or_empty p = (case p of None \<Rightarrow> JObj [] | Some JNull \<Rightarrow> JObj [] | Some j \<Rightarrow> j)"

definition new_event :: "env \<Rightarrow> CreateEventDto \<Rightarrow> nat \<Rightarrow> event_row" where
  "new_event env dto t =
     \<lparr>er_id = e_uuid env t 0, er_eventId = dto_eventId dto, er_type = dto_type dto,
      er_occurredAt = dto_occurredAt dto, er_payload = payload_or_empty (dto_payload dto),
      er_status = PENDING, er_createdAt = e_db_clock env t, er_updatedAt = e_db_clock env t\<rparr>"

lemma new_event_fields [simp]:
  "er_eventId (new_event env dto t) = dto_eventId dto"
  "er_status (new_event env dto t) = PENDING"
  "er_id (new_event env dto t) = e_uuid env t 0"
  by (simp_all add: new_event_def)

definition events_insert :: "env \<Rightarrow> CreateEventDto \<Rightarrow> event_row stmt" where
  "events_insert env dto = insert_event_row env (new_event env dto)"

text \<open>The unit of work of \<open>ingest\<close>; the job is due at the moment of the call.\<close>

definition ingest_work :: "env \<Rightarrow> CreateEventDto \<Rightarrow> event_row stmt" where
  "ingest_work env dto =
     bindS (events_insert env dto) (\<lambda>created.
     bindS (\<lambda>t. insertJob env (er_eventId created) (e_clock env t) t) (\<lambda>_.
     (\<lambda>t d. (Inr created, d))))"

text \<open>Up to \<open>tries\<close> reads (\<open>attempts\<close> in the source), with a pause after each that finds nothing.\<close>

fun findExistingWithRetry :: "env \<Rightarrow> string \<Rightarrow> nat \<Rightarrow> event_row option io" where
  "findExistingWithRetry env eventId 0 = Ret None"
| "findExistingWithRetry env eventId (Suc tries) =
     bindP (event_findOne env eventId) (\<lambda>existing.
     case existing of
       Some e \<Rightarrow> Ret (Some e)
     | None \<Rightarrow> findExistingWithRetry env eventId tries)"

definition handleDuplicate :: "env \<Rightarrow> CreateEventDto \<Rightarrow> IngestResult io" where
  "handleDuplicate env dto =
     bindP (findExistingWithRetry env (dto_eventId dto) 3) (\<lambda>existing.
     case existing of
       None \<Rightarrow> Raise (JsError (''Duplicate detected for '' @ dto_eventId dto @
                 '' but no committed event was found''))
     | Some e \<Rightarrow>
         bindP (metricP env (increment EVENTS_DUPLICATE_KEY 1)) (\<lambda>_.
         bindP (publish env
           ((realtime_event DUPLICATE_EVENT (er_eventId e)
              (''Duplicate submission for '' @ er_eventId e @
               '' ignored - existing event detected, no new delivery job created''))
            \<lparr>re_eventType := Some (er_type e), re_status := Some (er_status e),
             re_duplicate := Some True\<rparr>)) (\<lambda>_.
         Ret \<lparr>ir_duplicate = True, ir_event = e\<rparr>)))"

definition ingest :: "env \<Rightarrow> CreateEventDto \<Rightarrow> IngestResult io" where
  "ingest env dto =
     catchP
       (bindP (stmtP env (ingest_work env dto)) (\<lambda>event.
        bindP (metricP env (increment EVENTS_ACCEPTED_KEY 1)) (\<lambda>_.
        bindP (publish env
          ((realtime_event EVENT_ACCEPTED (er_eventId event)
             (''Event '' @ er_eventId event @ '' accepted and delivery scheduled''))
           \<lparr>re_eventType := Some (er_type event), re_status := Some PENDING,
            re_attemptNumber := Some (Fin 0), re_maxAttempts := Some (budget env)\<rparr>)) (\<lambda>_.
        Ret \<lparr>ir_duplicate = False, ir_event = event\<rparr>))))
       (\<lambda>error. if \<not> isUniqueViolation error then Raise error else handleDuplicate env dto)"

text \<open>\<open>POST /events\<close>.\<close>

record CreateResponse =
  cr_accepted :: bool
  cr_duplicate :: bool
  cr_eventId :: string
  cr_status :: DeliveryStatus
  cr_message :: string

definition create_response :: "IngestResult \<Rightarrow> CreateResponse" where
  "create_response r =
     \<lparr>cr_accepted = True, cr_duplicate = ir_duplicate r, cr_eventId = er_eventId (ir_event r),
      cr_status = er_status (ir_event r),
      cr_message =
        (if ir_duplicate r
         then ''Event already exists; the original event and its delivery job were kept unchanged''
         else ''Event accepted and delivery scheduled'')\<rparr>"

definition create :: "env \<Rightarrow> CreateEventDto \<Rightarrow> CreateResponse io" where
  "create env dto = mapP create_response (ingest env dto)"

section \<open>Queries\<close>

record ListEventsOptions =
  lo_status :: "DeliveryStatus option"
  lo_search :: "string option"
  lo_limit :: nat
  lo_offset :: nat

text \<open>The WHERE clause: a list of conditions joined by OR.\<close>

definition list_where :: "env \<Rightarrow> ListEventsOptions \<Rightarrow> event_row \<Rightarrow> bool" where
  "list_where env options r \<longleftrightarrow>
     (let base = (case lo_status options of None \<Rightarrow> True | Some s \<Rightarrow> er_status r = s) in
      case lo_search options of
        None \<Rightarrow> base
      | Some s \<Rightarrow>
          if s \<noteq> [] then (base \<and> e_like env (''%'' @ s @ ''%'') (er_eventId r)) \<or>
                          (base \<and> e_like env (''%'' @ s @ ''%'') (er_type r))
          else base)"

definition events_list :: "env \<Rightarrow> ListEventsOptions \<Rightarrow> (event_row list \<times> nat) io" where
  "events_list env options =
     bindP (stmtP env (select_events env (list_where env options))) (\<lambda>rows.
     bindP (stmtP env (select_events env (list_where env options))) (\<lambda>counted.
     Ret (sql_take env (of_nat (lo_limit options))
            (drop (lo_offset options) (sql_order (\<lambda>r. - er_createdAt r) rows)),
          length counted)))"

definition events_countByStatus :: "env \<Rightarrow> (DeliveryStatus \<times> nat) list io" where
  "events_countByStatus env =
     mapP (\<lambda>rows. count_groups (map er_status rows)) (stmtP env (select_events env (\<lambda>_. True)))"

definition events_count :: "env \<Rightarrow> nat io" where
  "events_count env = mapP length (stmtP env (select_events env (\<lambda>_. True)))"

definition findRecentDelivered :: "env \<Rightarrow> rat \<Rightarrow> event_row list io" where
  "findRecentDelivered env limit =
     mapP (\<lambda>rows. sql_take env limit (sql_order (\<lambda>r. - er_updatedAt r) rows))
       (stmtP env (select_events env (\<lambda>r. er_status r = DELIVERED)))"

record LastError =
  le_httpStatus :: "int option"
  le_errorType :: "DeliveryErrorType option"
  le_message :: "string option"

record EventSummary =
  es_eventId :: string
  es_type :: string
  es_status :: DeliveryStatus
  es_occurredAt :: string
  es_createdAt :: string
  es_updatedAt :: string
  es_attemptCount :: int
  es_maxAttempts :: rat
  es_nextAttemptAt :: "string option"
  es_lastError :: "LastError option"

record EventDetail = EventSummary +
  ed_payload :: json
  ed_attempts :: "attempt_row list"
  ed_attemptsRemaining :: rat

definition toSummary :: "env \<Rightarrow> event_row \<Rightarrow> job_row option \<Rightarrow> attempt_row option \<Rightarrow> EventSummary" where
  "toSummary env event job lastAttempt =
     \<lparr>es_eventId = er_eventId event, es_type = er_type event, es_status = er_status event,
      es_occurredAt = toISOString (er_occurredAt event),
      es_createdAt = toISOString (er_createdAt event),
      es_updatedAt = toISOString (er_updatedAt event),
      es_attemptCount = coalesce (map_option jr_attemptCount job) 0,
      es_maxAttempts = budget env,
      es_nextAttemptAt =
        (case job of
           None \<Rightarrow> None
         | Some j \<Rightarrow> if jr_status j = PENDING \<or> jr_status j = RETRYING
                     then Some (toISOString (jr_nextAttemptAt j)) else None),
      es_lastError =
        (case lastAttempt of
           None \<Rightarrow> None
         | Some a \<Rightarrow> if ar_status a = AttemptStatus.FAILED
                     then Some \<lparr>le_httpStatus = ar_httpStatus a, le_errorType = ar_errorType a,
                                le_message = ar_errorMessage a\<rparr>
                     else None)\<rparr>"

text \<open>\<open>new Map(jobs.map((job) => [job.eventId, job]))\<close>: the last job of a key wins.\<close>

definition jobs_by_event :: "job_row list \<Rightarrow> (string \<times> job_row) list" where
  "jobs_by_event rows = fold (\<lambda>job m. AList.update (jr_eventId job) job m) rows []"

definition list_events :: "env \<Rightarrow> ListEventsOptions \<Rightarrow> (EventSummary list \<times> nat) io" where
  "list_events env query =
     bindP (events_list env query) (\<lambda>(items, total).
     let eventIds = map er_eventId items in
     bindP (findManyByEventIds env eventIds) (\<lambda>jobs.
     bindP (findLatestForEvents env eventIds) (\<lambda>latestAttempts.
     let jobsByEventId = jobs_by_event jobs in
     Ret (map (\<lambda>event. toSummary env event (map_of jobsByEventId (er_eventId event))
                 (map_of latestAttempts (er_eventId event))) items, total))))"

definition findOne :: "env \<Rightarrow> string \<Rightarrow> EventDetail io" where
  "findOne env eventId =
     bindP (event_findOne env eventId) (\<lambda>found.
     case found of
       None \<Rightarrow> Raise (NotFoundException (''Event '' @ eventId @ '' not found''))
     | Some event \<Rightarrow>
         bindP (job_findByEventId env eventId) (\<lambda>job.
         bindP (attempts_findByEventId env eventId) (\<lambda>rows.
         let lastAttempt = (if rows = [] then None else Some (last rows))
         in Ret (EventSummary.extend (toSummary env event job lastAttempt)
              \<lparr>ed_payload = er_payload event, ed_attempts = rows,
               ed_attemptsRemaining = attemptsRemaining (cfg_retry (e_cfg env))
                 (coalesce (map_option jr_attemptCount job) 0)\<rparr>))))"

definition findAttempts :: "env \<Rightarrow> string \<Rightarrow> attempt_row list io" where
  "findAttempts env eventId =
     bindP (event_findOne env eventId) (\<lambda>found.
     case found of
       None \<Rightarrow> Raise (NotFoundException (''Event '' @ eventId @ '' not found''))
     | Some event \<Rightarrow> attempts_findByEventId env eventId)"

end
