(* ===== verification/Runs.thy ===== *)
theory Runs
  imports Worker Events
begin

text \<open>
  Programs run alone, without failing statements: the calculus \<open>runs\<close> for what a program
  returns and does to the database, whatever the clocks, the receiver and the socket do; and
  the fact that such runs, one after the other, are runs of the interleaved system. It carries
  the theorems on what each operation does (\<open>theory Outcomes\<close>) and the witnesses.
\<close>

definition runs :: "'a io \<Rightarrow> db \<Rightarrow> (exn + 'a \<Rightarrow> db \<Rightarrow> bool) \<Rightarrow> bool" where
  "runs p d Q \<longleftrightarrow> (\<forall>w. w_db w = d \<longrightarrow> Q (fst (run p w)) (w_db (snd (run p w))))"

definition no_faults :: "env \<Rightarrow> bool" where
  "no_faults env \<longleftrightarrow> e_fault env = (\<lambda>_. None)"

lemma runs_conseq: "runs p d Q \<Longrightarrow> (\<And>r d'. Q r d' \<Longrightarrow> Q' r d') \<Longrightarrow> runs p d Q'"
  by (auto simp: runs_def)

lemma runs_Ret: "Q (Inr x) d \<Longrightarrow> runs (Ret x) d Q"
  by (simp add: runs_def)

lemma runs_Raise: "Q (Inl e) d \<Longrightarrow> runs (Raise e) d Q"
  by (simp add: runs_def)

lemma runs_throwP_ok: "r = Inr x \<Longrightarrow> Q (Inr x) d \<Longrightarrow> runs (throwP r) d Q"
  by (simp add: throwP_def runs_Ret)

lemma runs_bind:
  "runs p d (\<lambda>r d'. case r of Inl e \<Rightarrow> Q (Inl e) d' | Inr x \<Rightarrow> runs (k x) d' Q) \<Longrightarrow> runs (bindP p k) d Q"
  by (fastforce simp: runs_def run_bindP split: sum.splits prod.splits)

lemma runs_catch:
  "runs p d (\<lambda>r d'. case r of Inl e \<Rightarrow> runs (h e) d' Q | Inr x \<Rightarrow> Q (Inr x) d') \<Longrightarrow> runs (catchP p h) d Q"
  by (fastforce simp: runs_def run_catchP split: sum.splits prod.splits)

lemma runs_mapP:
  "runs p d (\<lambda>r d'. Q (case r of Inl e \<Rightarrow> Inl e | Inr x \<Rightarrow> Inr (f x)) d') \<Longrightarrow> runs (mapP f p) d Q"
  unfolding mapP_def
  by (rule runs_bind, erule runs_conseq) (auto intro: runs_Ret split: sum.splits)

lemma runs_finally:
  assumes "runs p d (\<lambda>r d'. runs f d' (\<lambda>r' d''. r' = Inr () \<and> Q r d''))"
  shows "runs (finallyP p f) d Q"
  using assms unfolding finallyP_def
  by (fastforce simp: runs_def run_bindP run_attemptP split: sum.splits prod.splits)

lemma runs_nowP: "(\<And>t. Q (Inr (e_clock env t)) d) \<Longrightarrow> runs (nowP env) d Q"
  by (simp add: runs_def run_simps)

lemma runs_nodeP: "Q (Inr ()) d \<Longrightarrow> runs (nodeP env f) d Q"
  by (simp add: runs_def run_simps)

lemma runs_metricP: "Q (Inr ()) d \<Longrightarrow> runs (metricP env f) d Q"
  unfolding metricP_def by (rule runs_nodeP)

lemma runs_workerP: "Q (Inr ()) d \<Longrightarrow> runs (workerP env f) d Q"
  unfolding workerP_def by (rule runs_nodeP)

lemma runs_readNodeP: "(\<And>x. Q (Inr x) d) \<Longrightarrow> runs (readNodeP env f) d Q"
  by (simp add: runs_def run_simps)

lemma runs_stmtP:
  assumes "no_faults env" and "\<And>t e d'. s t d = (Inl e, d') \<Longrightarrow> Q (Inl e) d"
    and "\<And>t x d'. s t d = (Inr x, d') \<Longrightarrow> Q (Inr x) d'"
  shows "runs (stmtP env s) d Q"
  unfolding runs_def
proof (intro allI impI)
  fix w :: world assume w: "w_db w = d"
  obtain r d' where s: "s (w_tick w) d = (r, d')" by fastforce
  then show "Q (fst (run (stmtP env s) w)) (w_db (snd (run (stmtP env s) w)))"
    using assms w by (cases r) (auto simp: run_stmtP no_faults_def)
qed

lemma runs_exchangeP:
  "(\<And>t. Q (Inr (e_exchange env t http))
      (d\<lparr>wire := wire d @ [\<lparr>wx_delivery = req, wx_request = http, wx_reply = e_exchange env t http\<rparr>]\<rparr>)) \<Longrightarrow>
   runs (exchangeP env req http) d Q"
  by (auto simp: runs_def exchangeP_def run_actP Let_def)

text \<open>Publishing returns and leaves the database as it is, whatever the socket server does.\<close>

lemma runs_publish:
  assumes "\<And>ev'. Q (Inr ev') d"
  shows "runs (publish env ev) d Q"
  unfolding runs_def
proof (intro allI impI)
  fix w :: world assume w: "w_db w = d"
  have "dsat (\<lambda>_ _ _. True) (=) ((=) d) (=) (\<lambda>_ d'. d = d' \<and> d = d') (\<lambda>_ _. False) (publish env ev) d"
    by (rule publisher.pub_quiet) (auto simp: told_def)
  then have "wsat (=) ((=) d) (=) (\<lambda>_ d'. d = d' \<and> d = d') (\<lambda>_ _. False) (publish env ev) w"
    using w by (intro dsat_wsat) simp_all
  from sat_run [OF this] w have "d = w_db (snd (run (publish env ev) w))"
    and "case fst (run (publish env ev) w) of Inl e \<Rightarrow> False | Inr x \<Rightarrow> True"
    by (auto split: sum.splits)
  then show "Q (fst (run (publish env ev) w)) (w_db (snd (run (publish env ev) w)))"
    using assms by (auto split: sum.splits)
qed

lemmas runs_steps =
  runs_bind runs_Ret runs_nowP runs_metricP runs_workerP runs_publish runs_exchangeP runs_mapP

section \<open>Sequential runs are runs of the system\<close>

lemma pool_same: "ps k = Some p \<Longrightarrow> pool_steps entry (ps, w) (ps(k \<mapsto> p), w)"
  by (simp only: fun_upd_idem pool_steps.start)

lemma pool_run:
  "ps k = Some p \<Longrightarrow> \<exists>q. pool_steps entry (ps, w) (ps(k \<mapsto> q), snd (run p w))"
proof (induction p arbitrary: ps w rule: prog_induct)
  case (Act f)
  let ?ps = "ps(k \<mapsto> fst (f w))"
  have "pool_steps entry (ps, w) (?ps, snd (f w))"
    using Act.prems by (intro pool_steps.further [OF pool_steps.start] pool_step.act)
  moreover obtain q where "pool_steps entry (?ps, snd (f w)) (?ps(k \<mapsto> q), snd (run (fst (f w)) (snd (f w))))"
    using Act.IH [of ?ps] by (metis fun_upd_same fun_upd_upd)
  ultimately have "pool_steps entry (ps, w) (?ps(k \<mapsto> q), snd (run (fst (f w)) (snd (f w))))"
    by (rule pool_steps_trans [rotated])
  then show ?case unfolding run_Act fun_upd_upd by (rule exI)
qed (auto intro: pool_same simp del: fun_upd_apply)

text \<open>If a run makes something true, one of its actions does.\<close>

lemma pool_crossing:
  "ps k = Some p \<Longrightarrow> \<not> X w \<Longrightarrow> X (snd (run p w)) \<Longrightarrow>
   \<exists>f v. pool_steps entry (ps, w) (ps(k \<mapsto> Act f), v) \<and> \<not> X v \<and> X (snd (f v))"
proof (induction p arbitrary: ps w rule: prog_induct)
  case (Act f)
  let ?ps = "ps(k \<mapsto> fst (f w))"
  show ?case
  proof (cases "X (snd (f w))")
    case True
    show ?thesis
      by (rule exI [of _ f], rule exI [of _ w], intro conjI pool_same Act.prems True)
  next
    case False
    have step: "pool_steps entry (ps, w) (?ps, snd (f w))"
      using Act.prems(1) by (intro pool_steps.further [OF pool_steps.start] pool_step.act)
    have "X (snd (run (fst (f w)) (snd (f w))))" using Act.prems(3) by (simp only: run_Act)
    with Act.IH [of ?ps w "snd (f w)"] False obtain g v where
      "pool_steps entry (?ps, snd (f w)) (?ps(k \<mapsto> Act g), v)" and g: "\<not> X v" "X (snd (g v))"
      by (metis fun_upd_same)
    from this(1) step have "pool_steps entry (ps, w) (?ps(k \<mapsto> Act g), v)" by (rule pool_steps_trans)
    then have "pool_steps entry (ps, w) (ps(k \<mapsto> Act g), v)" by (simp only: fun_upd_upd)
    with g show ?thesis by (intro exI conjI)
  qed
qed auto

lemma pool_program:
  assumes "p \<in> entry k" and "ps k = None"
  shows "pool_steps entry (ps, w) (ps, snd (run p w))"
proof -
  have "pool_steps entry (ps, w) (ps(k \<mapsto> p), w)"
    using assms by (intro pool_steps.further [OF pool_steps.start] pool_step.spawn)
  moreover obtain q where "pool_steps entry (ps(k \<mapsto> p), w) (ps(k \<mapsto> q), snd (run p w))"
    using pool_run [of "ps(k \<mapsto> p)" k p entry w] by auto
  moreover have "pool_step entry (ps(k \<mapsto> q), snd (run p w)) (ps, snd (run p w))"
    using pool_step.die [of entry "ps(k \<mapsto> q)" "snd (run p w)" k] assms(2) by (simp add: fun_upd_idem)
  ultimately show ?thesis by (blast intro: pool_steps_trans pool_steps.further)
qed

text \<open>Running programs of the system one after the other, in slots that are free.\<close>

fun run_all :: "('w, 'e, 'a) prog list \<Rightarrow> 'w \<Rightarrow> 'w" where
  "run_all [] w = w"
| "run_all (p # ps) w = run_all ps (snd (run p w))"

lemma pool_run_all:
  "\<forall>p \<in> set ps. \<exists>k. p \<in> entry k \<Longrightarrow> pool_steps entry (Map.empty, w) (Map.empty, run_all ps w)"
proof (induction ps arbitrary: w)
  case (Cons p ps)
  then obtain k where "p \<in> entry k" by auto
  then have "pool_steps entry (Map.empty, w) (Map.empty, snd (run p w))"
    by (rule pool_program) simp
  moreover have "pool_steps entry (Map.empty, snd (run p w)) (Map.empty, run_all ps (snd (run p w)))"
    using Cons by simp
  ultimately show ?case by (auto intro: pool_steps_trans)
qed (auto intro: pool_steps.start)

end
