(* ===== verification/Contract.thy ===== *)
theory Contract
  imports Worker Events
begin

text \<open>
  The interfaces between the programs and the database, as locales. \<open>store\<close> fixes what the
  other programs may do (\<open>R\<close>), the invariant (\<open>I\<close>), what every action guarantees (\<open>G\<close>), and when a
  status may be announced of an event (\<open>T\<close>).
  \<open>ingest_store\<close> adds what ingestion needs of them and \<open>delivery_store\<close> what the worker needs:
  for each statement of the repositories, that it keeps the invariant and the guarantee when
  the program knows enough about the job, and what it knows afterwards. The knowledge is a
  parameter: \<open>C\<close> after the claim's UPDATE, \<open>K0\<close> about the claimed job, \<open>KE\<close> with its event
  read, \<open>K1\<close> once the attempt is open, \<open>K2\<close> once the receiver has answered (or not), \<open>M\<close> before the status is mirrored to
  the event, and \<open>S\<close> about a job whose lease expired. The lemmas of the locales carry the
  whole programs, \<open>create\<close> and \<open>tick\<close>, over any such contract.
\<close>

section \<open>The store\<close>

definition stable :: "(db \<Rightarrow> db \<Rightarrow> bool) \<Rightarrow> (db \<Rightarrow> bool) \<Rightarrow> (db \<Rightarrow> bool) \<Rightarrow> bool" where
  "stable R I A \<longleftrightarrow> (\<forall>u v. I u \<longrightarrow> I v \<longrightarrow> R u v \<longrightarrow> A u \<longrightarrow> A v)"

lemma stableD: "stable R I A \<Longrightarrow> I u \<Longrightarrow> I v \<Longrightarrow> R u v \<Longrightarrow> A u \<Longrightarrow> A v"
  by (auto simp: stable_def)

lemma stable_True [simp]: "stable R I (\<lambda>d. True)"
  by (simp add: stable_def)

lemma stable_conj: "stable R I A \<Longrightarrow> stable R I B \<Longrightarrow> stable R I (\<lambda>d. A d \<and> B d)"
  by (auto simp: stable_def)

locale store =
  fixes ok :: "env \<Rightarrow> bool"
    and R :: "db \<Rightarrow> db \<Rightarrow> bool" and I :: "db \<Rightarrow> bool" and G :: "db \<Rightarrow> db \<Rightarrow> bool"
    and T :: "string \<Rightarrow> DeliveryStatus \<Rightarrow> db \<Rightarrow> bool"
  assumes R_refl: "R u u"
    and R_trans: "R u v \<Longrightarrow> R v w \<Longrightarrow> R u w"
    and G_refl: "I u \<Longrightarrow> G u u"
    and ok_sane: "ok env \<Longrightarrow> sane_env env"
    and stable_T: "stable R I (T e s)"
begin

text \<open>
  \<open>safe A p\<close>: from any state where \<open>A\<close> holds, \<open>p\<close> keeps the invariant and the guarantee, and
  announces only what \<open>T\<close> says is true.
\<close>

definition safe :: "(db \<Rightarrow> bool) \<Rightarrow> 'a io \<Rightarrow> ('a \<Rightarrow> db \<Rightarrow> bool) \<Rightarrow> bool" where
  "safe A p Q \<longleftrightarrow> (\<forall>d. I d \<longrightarrow> A d \<longrightarrow> dsat T R I G Q (\<lambda>_ _. True) p d)"

lemma safeI: "(\<And>d. I d \<Longrightarrow> A d \<Longrightarrow> dsat T R I G Q (\<lambda>_ _. True) p d) \<Longrightarrow> safe A p Q"
  by (simp add: safe_def)

lemma safe_dsat: "safe A p Q \<Longrightarrow> I d \<Longrightarrow> A d \<Longrightarrow> dsat T R I G Q (\<lambda>_ _. True) p d"
  by (simp add: safe_def)

lemma safe_Ret: "(\<And>d. I d \<Longrightarrow> A d \<Longrightarrow> Q x d) \<Longrightarrow> safe A (Ret x) Q"
  by (simp add: safe_def dsat_Ret)

lemma safe_Raise: "safe A (Raise e) Q"
  by (simp add: safe_def dsat_Raise)

lemma safe_throwP: "(\<And>x d. I d \<Longrightarrow> A d \<Longrightarrow> Q x d) \<Longrightarrow> safe A (throwP r) Q"
  by (simp add: safe_def dsat_throwP)

lemma safe_bind:
  assumes "safe A p B" and "\<And>x. safe (B x) (k x) Q"
  shows "safe A (bindP p k) Q"
  using assms by (auto simp: safe_def intro!: dsat_bindP [where Q' = B])

lemma safe_conseq:
  assumes "safe A p Q" and "\<And>d. I d \<Longrightarrow> A' d \<Longrightarrow> A d" and "\<And>x d. I d \<Longrightarrow> Q x d \<Longrightarrow> Q' x d"
  shows "safe A' p Q'"
proof (rule safeI)
  fix d assume "I d" "A' d"
  with assms have "dsat T R I G Q (\<lambda>_ _. True) p d" by (auto simp: safe_def)
  then show "dsat T R I G Q' (\<lambda>_ _. True) p d"
    by (rule dsat_conseq) (use \<open>I d\<close> assms(3) in auto)
qed

lemma safe_catch:
  assumes "safe A p Q" and "\<And>e. safe (\<lambda>_. True) (h e) Q"
  shows "safe A (catchP p h) Q"
  using assms by (auto simp: safe_def intro!: dsat_catchP [where E' = "\<lambda>_ _. True"])

lemma safe_for:
  assumes "\<And>x s. x \<in> set xs \<Longrightarrow> safe A (body x s) (\<lambda>_. A)"
  shows "safe A (forP xs body s) (\<lambda>_. A)"
proof (rule safeI)
  fix d assume "I d" "A d"
  then show "dsat T R I G (\<lambda>_. A) (\<lambda>_ _. True) (forP xs body s) d"
    by (intro dsat_forP [where L = "\<lambda>_. A"])
       (use assms in \<open>auto simp: safe_def intro: dsat_conseq\<close>)
qed

lemma safe_mapP: "safe A p (\<lambda>x. Q (f x)) \<Longrightarrow> safe A (mapP f p) Q"
  unfolding mapP_def by (rule safe_bind, assumption, rule safe_Ret) simp

lemma safe_finally:
  assumes "safe A p (\<lambda>_ _. True)" and "safe (\<lambda>_. True) f (\<lambda>_ _. True)"
  shows "safe A (finallyP p f) (\<lambda>_ _. True)"
proof -
  have "safe A (attemptP p) (\<lambda>_ _. True)"
    unfolding attemptP_def
    by (rule safe_catch) (auto intro: safe_mapP assms(1) safe_Ret)
  then show ?thesis
    unfolding finallyP_def
    by (rule safe_bind) (rule safe_bind [OF assms(2)], auto split: sum.split intro: safe_Ret safe_Raise)
qed

text \<open>Actions that leave the database alone keep what is stable.\<close>

lemma safe_now: "stable R I A \<Longrightarrow> safe A (nowP env) (\<lambda>_. A)"
  by (auto intro!: safeI dsat_nowP G_refl elim: stableD)

lemma safe_node: "stable R I A \<Longrightarrow> quiet f \<Longrightarrow> safe A (nodeP env f) (\<lambda>_. A)"
  by (auto intro!: safeI dsat_quiet G_refl elim: stableD)

lemma safe_metric: "stable R I A \<Longrightarrow> safe A (metricP env f) (\<lambda>_. A)"
  unfolding metricP_def by (rule safe_node) (simp_all add: quiet_def)

lemma safe_worker: "stable R I A \<Longrightarrow> safe A (workerP env f) (\<lambda>_. A)"
  unfolding workerP_def by (rule safe_node) (simp_all add: quiet_def)

lemma safe_readNode: "stable R I A \<Longrightarrow> safe A (readNodeP env f) (\<lambda>_. A)"
  by (auto intro!: safeI dsat_readNodeP G_refl elim: stableD)

text \<open>An announcement has to be true when it is published.\<close>

lemma safe_publish:
  assumes "stable R I A" and "\<And>d. I d \<Longrightarrow> A d \<Longrightarrow> told T ev d"
  shows "safe A (publish env ev) (\<lambda>_. A)"
proof (rule safeI)
  fix d assume d: "I d" "A d"
  then have A: "A u" if "R d u" "I u" for u using assms(1) that by (blast dest: stableD)
  show "dsat T R I G (\<lambda>_. A) (\<lambda>_ _. True) (publish env ev) d"
    by (rule publisher.dsat_pub) (use d A assms(2) in \<open>auto intro: G_refl R_refl elim: R_trans\<close>)
qed

text \<open>A statement.\<close>

lemma safe_stmt:
  assumes "\<And>t x d d'. I d \<Longrightarrow> A d \<Longrightarrow> s t d = (Inr x, d') \<Longrightarrow> I d' \<and> G d d' \<and> Q x d'"
    and "\<And>x. stable R I (Q x)"
  shows "safe A (stmtP env s) Q"
proof (rule safeI)
  fix d assume d: "I d" "A d"
  show "dsat T R I G Q (\<lambda>_ _. True) (stmtP env s) d"
  proof (rule dsat_stmtP)
    fix t x d' d'' assume "s t d = (Inr x, d')" and "R d' d''" and "I d''"
    with assms d show "Q x d''" by (meson stableD)
  qed (use assms(1) d in \<open>auto intro: G_refl\<close>)
qed

lemma safe_select:
  assumes "\<And>t x d. I d \<Longrightarrow> A d \<Longrightarrow> fst (s t d) = Inr x \<Longrightarrow> Q x d"
    and "\<And>t d. snd (s t d) = d" and "\<And>x. stable R I (Q x)"
  shows "safe A (stmtP env s) Q"
proof (rule safe_stmt)
  fix t x d d' assume "I d" "A d" "s t d = (Inr x, d')"
  with assms(1) [of d t x] assms(2) [of t d] show "I d' \<and> G d d' \<and> Q x d'"
    by (auto intro: G_refl)
qed (fact assms(3))

text \<open>The queries of the API.\<close>

lemma safe_reads:
  "safe (\<lambda>_. True) (stmtP env (select_events env P)) (\<lambda>_ _. True)"
  "safe (\<lambda>_. True) (stmtP env (select_jobs env J)) (\<lambda>_ _. True)"
  "safe (\<lambda>_. True) (stmtP env (select_attempts env A)) (\<lambda>_ _. True)"
  by (rule safe_select; simp add: select_events_def select_jobs_def select_attempts_def)+

lemma safe_event_findOne: "safe (\<lambda>_. True) (event_findOne env e) (\<lambda>_ _. True)"
  unfolding event_findOne_def by (intro safe_mapP safe_reads)

lemma safe_list_events: "safe (\<lambda>_. True) (list_events env query) (\<lambda>_ _. True)"
proof -
  have page: "safe (\<lambda>_. True) (events_list env query) (\<lambda>_ _. True)"
    unfolding events_list_def by (intro safe_bind [OF safe_reads(1)] safe_Ret) simp
  have found: "safe (\<lambda>_. True) (findManyByEventIds env es) (\<lambda>_ _. True)"
    "safe (\<lambda>_. True) (findLatestForEvents env es) (\<lambda>_ _. True)" for es
    unfolding findManyByEventIds_def findLatestForEvents_def
    by (auto intro!: safe_Ret safe_reads safe_bind [OF safe_reads(3)])
  show ?thesis
    unfolding list_events_def Let_def split_beta
    by (intro safe_bind [OF page] safe_bind [OF found(1)] safe_bind [OF found(2)] safe_Ret) simp
qed

lemma safe_findAttempts: "safe (\<lambda>_. True) (findAttempts env e) (\<lambda>_ _. True)"
  unfolding findAttempts_def attempts_findByEventId_def
  by (rule safe_bind [OF safe_event_findOne])
     (auto intro: safe_Raise safe_mapP safe_reads split: option.split)

lemma safe_findOne: "safe (\<lambda>_. True) (findOne env e) (\<lambda>_ _. True)"
proof -
  have rows: "safe (\<lambda>_. True) (job_findByEventId env e) (\<lambda>_ _. True)"
    "safe (\<lambda>_. True) (attempts_findByEventId env e) (\<lambda>_ _. True)"
    unfolding attempts_findByEventId_def job_findByEventId_def by (intro safe_mapP safe_reads)+
  show ?thesis
    unfolding findOne_def Let_def
    by (rule safe_bind [OF safe_event_findOne])
       (auto intro!: safe_Raise safe_bind [OF rows(1)] safe_bind [OF rows(2)] safe_Ret
          split: option.split)
qed

text \<open>From a safe program to the judgement of a concurrent system.\<close>

lemma safe_tsat: "safe (\<lambda>_. True) p Q \<Longrightarrow> I (w_db w) \<Longrightarrow> tsat T R I G (\<lambda>_ _. True) (\<lambda>_ _. True) p w"
proof -
  assume "safe (\<lambda>_. True) p Q" and I: "I (w_db w)"
  then have "tsat T R I G Q (\<lambda>_ _. True) p w" by (simp add: safe_def dsat_def)
  then show ?thesis by (rule sat_conseq) (simp_all add: I)
qed

lemma safe_wsat:
  assumes "safe A p Q" and "I (w_db w)" and "A (w_db w)"
  shows "wsat R I G Q (\<lambda>_ _. True) p w"
  by (rule dsat_wsat) (rule safe_dsat [OF assms], rule assms(2))

end

section \<open>Ingestion\<close>

locale ingest_store = store +
  assumes ingest_step:
    "ok env \<Longrightarrow> I d \<Longrightarrow> ingest_work env dto t d = (Inr x, d') \<Longrightarrow>
     I d' \<and> G d d' \<and> T (er_eventId x) PENDING d'"
    and event_known: "I d \<Longrightarrow> ev \<in> set (events d) \<Longrightarrow> T (er_eventId ev) (er_status ev) d"
begin

text \<open>What is true of an event that was found.\<close>

abbreviation found_event :: "event_row option \<Rightarrow> db \<Rightarrow> bool" where
  "found_event found d \<equiv> (\<forall>ev. found = Some ev \<longrightarrow> T (er_eventId ev) (er_status ev) d)"

lemma stable_found: "stable R I (found_event found)"
  using stable_T by (auto simp: stable_def)

lemma safe_findKnown: "ok env \<Longrightarrow> safe (\<lambda>_. True) (event_findOne env e) found_event"
  unfolding event_findOne_def
proof (rule safe_mapP, rule safe_select)
  fix t x d
  assume "ok env" and d: "I d" and x: "fst (select_events env (\<lambda>r. sql_eq env (er_eventId r) e) t d) = Inr x"
  then have "set x \<subseteq> set (events d)"
    by (auto simp: select_events_def sane_scan [OF ok_sane [OF \<open>ok env\<close>]])
  with event_known [OF d] show "found_event (first_row x) d" by (auto dest: first_row_Some)
qed (use stable_found in \<open>auto simp: select_events_def\<close>)

lemma safe_findExisting: "ok env \<Longrightarrow> safe (\<lambda>_. True) (findExistingWithRetry env e n) found_event"
proof (induction n)
  case (Suc n)
  have "safe (found_event found)
      (case found of None \<Rightarrow> findExistingWithRetry env e n | Some e \<Rightarrow> Ret (Some e)) found_event" for found
    using Suc by (cases found) (auto intro: safe_Ret)
  then show ?case
    using Suc.prems by simp (rule safe_bind [OF safe_findKnown])
qed (auto intro: safe_Ret)

lemma safe_handleDuplicate: "ok env \<Longrightarrow> safe (\<lambda>_. True) (handleDuplicate env dto) (\<lambda>_ _. True)"
  unfolding handleDuplicate_def
  by (rule safe_bind [OF safe_findExisting])
     (auto intro!: safe_bind [OF safe_metric] safe_bind [OF safe_publish] safe_Ret safe_Raise stable_T
        simp: told_def realtime_event_def split: option.split)

lemma safe_ingest:
  assumes "ok env"
  shows "safe (\<lambda>_. True) (ingest env dto) (\<lambda>_ _. True)"
  unfolding ingest_def
proof (rule safe_catch)
  have "safe (\<lambda>_. True) (stmtP env (ingest_work env dto)) (\<lambda>x. T (er_eventId x) PENDING)"
    by (rule safe_stmt) (use assms ingest_step stable_T in auto)
  then show "safe (\<lambda>_. True)
    (bindP (stmtP env (ingest_work env dto)) (\<lambda>event.
       bindP (metricP env (increment EVENTS_ACCEPTED_KEY 1)) (\<lambda>_.
       bindP (publish env
         ((realtime_event EVENT_ACCEPTED (er_eventId event)
            (''Event '' @ er_eventId event @ '' accepted and delivery scheduled''))
          \<lparr>re_eventType := Some (er_type event), re_status := Some PENDING,
           re_attemptNumber := Some (Fin 0), re_maxAttempts := Some (budget env)\<rparr>)) (\<lambda>_.
       Ret \<lparr>ir_duplicate = False, ir_event = event\<rparr>)))) (\<lambda>_ _. True)"
    by (rule safe_bind)
       (auto intro!: safe_bind [OF safe_metric] safe_bind [OF safe_publish] safe_Ret stable_T
          simp: told_def realtime_event_def)
qed (auto intro: safe_Raise safe_handleDuplicate assms)

lemma safe_create: "ok env \<Longrightarrow> safe (\<lambda>_. True) (create env dto) (\<lambda>_ _. True)"
  unfolding create_def by (intro safe_mapP safe_ingest)

end

section \<open>Delivery\<close>

text \<open>Which status an attempt may end in: a 2xx answer is needed for DELIVERED, budget for RETRYING.\<close>

definition may_settle :: "env \<Rightarrow> job_row \<Rightarrow> bool \<Rightarrow> DeliveryStatus \<Rightarrow> bool" where
  "may_settle env job answered s \<longleftrightarrow>
     (s = DELIVERED \<and> answered) \<or> s = DeliveryStatus.FAILED \<or>
     (s = RETRYING \<and> \<not> isExhausted (cfg_retry (e_cfg env)) (jr_attemptCount job))"

definition skipped :: "DeliveryOutcome \<Rightarrow> bool" where
  "skipped out \<longleftrightarrow> (case out of Skipped_outcome _ \<Rightarrow> True | _ \<Rightarrow> False)"

locale delivery_store = store +
  fixes C :: "string \<Rightarrow> db \<Rightarrow> bool"
    and K0 :: "job_row \<Rightarrow> db \<Rightarrow> bool"
    and KE :: "job_row \<Rightarrow> event_row \<Rightarrow> db \<Rightarrow> bool" and K1 :: "job_row \<Rightarrow> event_row \<Rightarrow> db \<Rightarrow> bool"
    and K2 :: "job_row \<Rightarrow> bool \<Rightarrow> db \<Rightarrow> bool"
    and M :: "string \<Rightarrow> DeliveryStatus \<Rightarrow> db \<Rightarrow> bool"
    and S :: "job_row \<Rightarrow> db \<Rightarrow> bool"
  assumes stable_C: "stable R I (C j)" and stable_K0: "stable R I (K0 job)"
    and stable_KE: "stable R I (KE job ev)" and stable_K1: "stable R I (K1 job ev)"
    and stable_K2: "stable R I (K2 job b)"
    and stable_M: "stable R I (M e s)" and stable_S: "stable R I (S job)"
    and at_work:
      "I d \<Longrightarrow> K1 job ev d \<Longrightarrow> T (jr_eventId job) DELIVERING d"
      "I d \<Longrightarrow> K2 job b d \<Longrightarrow> T (jr_eventId job) DELIVERING d"
    and claim_step:
      "ok env \<Longrightarrow> I d \<Longrightarrow>
       update_jobs env (\<lambda>r. sql_eq env (jr_id r) j \<and> due now r) (claim_row w now) t d = (Inr n, d') \<Longrightarrow>
       I d' \<and> G d d' \<and> (n \<noteq> 0 \<longrightarrow> C j d')"
    and claimed:
      "ok env \<Longrightarrow> I d \<Longrightarrow> C j d \<Longrightarrow> job \<in> set (jobs d) \<Longrightarrow> sql_eq env (jr_id job) j \<Longrightarrow> K0 job d"
    and event_there:
      "ok env \<Longrightarrow> I d \<Longrightarrow> K0 job d \<Longrightarrow> \<exists>ev \<in> set (events d). sql_eq env (er_eventId ev) (jr_eventId job)"
    and event_read:
      "ok env \<Longrightarrow> I d \<Longrightarrow> K0 job d \<Longrightarrow> ev \<in> set (events d) \<Longrightarrow>
       sql_eq env (er_eventId ev) (jr_eventId job) \<Longrightarrow> KE job ev d"
    and start_step:
      "ok env \<Longrightarrow> I d \<Longrightarrow> KE job ev d \<Longrightarrow>
       insert_attempt_row env (new_attempt env (jr_eventId job) (jr_attemptCount job) ts) t d = (Inr a, d') \<Longrightarrow>
       I d' \<and> G d d' \<and> K1 job ev d'"
    and exchange_step:
      "I d \<Longrightarrow> K1 job ev d \<Longrightarrow> wx_delivery x = delivery_request ev (jr_attemptCount job) \<Longrightarrow>
       hr_body (wx_request x) = webhook_body (wx_delivery x) \<Longrightarrow> d' = d\<lparr>wire := wire d @ [x]\<rparr> \<Longrightarrow>
       I d' \<and> G d d' \<and> K2 job (reply_ok (wx_reply x)) d'"
    and complete_step:
      "ok env \<Longrightarrow> I d \<Longrightarrow> K2 job b d \<Longrightarrow> completion_ok c \<Longrightarrow>
       update_attempts (\<lambda>r. sql_eq env (ar_id r) aid) (close_attempt c ts) t d = (Inr n, d') \<Longrightarrow>
       I d' \<and> G d d' \<and> K2 job b d'"
    and settle_step:
      "ok env \<Longrightarrow> I d \<Longrightarrow> K2 job b d \<Longrightarrow> may_settle env job b s \<Longrightarrow>
       update_jobs env (\<lambda>r. sql_eq env (jr_id r) (jr_id job))
         (\<lambda>r. unlock (r\<lparr>jr_status := s, jr_nextAttemptAt := nx r\<rparr>)) t d = (Inr n, d') \<Longrightarrow>
       I d' \<and> G d d' \<and> M (jr_eventId job) s d'"
    and mirror_step:
      "ok env \<Longrightarrow> I d \<Longrightarrow> M e s d \<Longrightarrow>
       update_events env (\<lambda>r. sql_eq env (er_eventId r) e) (\<lambda>r. r\<lparr>er_status := s\<rparr>) t d = (Inr n, d') \<Longrightarrow>
       I d' \<and> G d d' \<and> T e s d' \<and> (\<forall>job. S job d \<longrightarrow> S job d')"
    and stale_seen:
      "ok env \<Longrightarrow> I d \<Longrightarrow> job \<in> set (jobs d) \<Longrightarrow> lease_expired cutoff job \<Longrightarrow> S job d"
    and abandon_step:
      "ok env \<Longrightarrow> I d \<Longrightarrow>
       update_attempts (in_flight env e) (abandon_attempt reason now) t d = (Inr n, d') \<Longrightarrow>
       I d' \<and> G d d' \<and> (\<forall>job. S job d \<longrightarrow> S job d')"
    and release_step:
      "ok env \<Longrightarrow> I d \<Longrightarrow> S job d \<Longrightarrow> may_settle env job False s \<Longrightarrow>
       update_jobs env (same_lease env job) (release_row s ts) t d = (Inr n, d') \<Longrightarrow>
       I d' \<and> G d d' \<and> (\<forall>job'. S job' d \<longrightarrow> S job' d') \<and> (n \<noteq> 0 \<longrightarrow> M (jr_eventId job) s d')"
begin

text \<open>The event shows the job's status: from here on it may be announced.\<close>

lemma safe_mirror:
  assumes "ok env" and "\<And>d. I d \<Longrightarrow> A d \<Longrightarrow> M e s d \<and> (\<forall>job \<in> X. S job d)"
  shows "safe A (updateEventStatus env e s) (\<lambda>_ d. T e s d \<and> (\<forall>job \<in> X. S job d))"
  unfolding updateEventStatus_def
proof (rule safe_mapP, rule safe_stmt)
  fix t n d d'
  assume "I d" "A d"
    and "update_events env (\<lambda>r. sql_eq env (er_eventId r) e) (\<lambda>r. r\<lparr>er_status := s\<rparr>) t d = (Inr n, d')"
  from mirror_step [OF assms(1) \<open>I d\<close> _ this(3)] assms(2) [OF \<open>I d\<close> \<open>A d\<close>]
  show "I d' \<and> G d d' \<and> T e s d' \<and> (\<forall>job \<in> X. S job d')" by simp
next
  show "stable R I (\<lambda>d. T e s d \<and> (\<forall>job \<in> X. S job d))"
    using stable_T stable_S by (auto simp: stable_def)
qed

lemma safe_transition:
  assumes "ok env" and "may_settle env job b s"
  shows "safe (K2 job b) (transition env job s (\<lambda>r. unlock (r\<lparr>jr_nextAttemptAt := nx r\<rparr>)))
    (\<lambda>_. T (jr_eventId job) s)"
  unfolding transition_def
proof (rule safe_bind)
  show "safe (K2 job b)
     (stmtP env (update_jobs env (\<lambda>r. sql_eq env (jr_id r) (jr_id job))
        (\<lambda>r. unlock (r\<lparr>jr_status := s, jr_nextAttemptAt := nx (r\<lparr>jr_status := s\<rparr>)\<rparr>))))
     (\<lambda>_. M (jr_eventId job) s)"
    by (rule safe_stmt)
       (auto intro: stable_M dest: settle_step [OF assms(1) _ _ assms(2), where nx = "\<lambda>r. nx (r\<lparr>jr_status := s\<rparr>)"])
  show "safe (M (jr_eventId job) s) (updateEventStatus env (jr_eventId job) s) (\<lambda>_. T (jr_eventId job) s)"
    by (rule safe_conseq [OF safe_mirror [where A = "M (jr_eventId job) s" and X = "{}"]])
       (use assms in auto)
qed

lemma unlock_same: "unlock = (\<lambda>r. unlock (r\<lparr>jr_nextAttemptAt := jr_nextAttemptAt r\<rparr>))"
  by simp

lemma safe_markDelivered: "ok env \<Longrightarrow> safe (K2 job True) (markDelivered env job) (\<lambda>_. T (jr_eventId job) DELIVERED)"
  unfolding markDelivered_def
  by (subst unlock_same, rule safe_transition) (simp_all add: may_settle_def)

lemma safe_markFailed: "ok env \<Longrightarrow> safe (K2 job b) (markFailed env job) (\<lambda>_. T (jr_eventId job) DeliveryStatus.FAILED)"
  unfolding markFailed_def
  by (subst unlock_same, rule safe_transition) (simp_all add: may_settle_def)

lemma safe_scheduleRetry:
  "ok env \<Longrightarrow> \<not> isExhausted (cfg_retry (e_cfg env)) (jr_attemptCount job) \<Longrightarrow>
   safe (K2 job b) (scheduleRetry env job ts) (\<lambda>_. T (jr_eventId job) RETRYING)"
  unfolding scheduleRetry_def
  by (rule safe_transition [where nx = "\<lambda>_. ts"]) (simp_all add: may_settle_def)

lemma safe_complete:
  "ok env \<Longrightarrow> completion_ok c \<Longrightarrow> safe (K2 job b) (complete env aid c) (\<lambda>_. K2 job b)"
  unfolding complete_def
  by (rule safe_bind [where B = "\<lambda>_. K2 job b"])
     (auto intro!: safe_bind [where B = "\<lambda>_. K2 job b"] safe_Ret safe_now stable_K2 safe_stmt
        dest: complete_step split: option.split)

lemma safe_completeFailed: "ok env \<Longrightarrow> safe (K2 job b) (completeFailedAttempt env aid res) (\<lambda>_. K2 job b)"
  unfolding completeFailedAttempt_def by (rule safe_complete) (simp_all add: completion_ok_def)

lemma safe_onSuccess:
  "ok env \<Longrightarrow> safe (K2 job True) (onSuccess env job ev aid n res) (\<lambda>out _. \<not> skipped out)"
  unfolding onSuccess_def
  by (intro safe_bind [OF safe_complete] safe_bind [OF safe_throwP [where Q = "\<lambda>_. K2 job True"]]
        safe_bind [OF safe_markDelivered] safe_bind [OF safe_metric] safe_bind [OF safe_now]
        safe_bind [OF safe_publish] safe_Ret stable_T)
     (simp_all add: skipped_def completion_ok_def told_def realtime_event_def)

lemma safe_onPermanentFailure:
  "ok env \<Longrightarrow> safe (K2 job b) (onPermanentFailure env job ev aid n res) (\<lambda>out _. \<not> skipped out)"
  unfolding onPermanentFailure_def
  by (intro safe_bind [OF safe_completeFailed] safe_bind [OF safe_metric]
        safe_bind [OF safe_throwP [where Q = "\<lambda>_. K2 job b"]] safe_bind [OF safe_markFailed]
        safe_bind [OF safe_publish] safe_Ret stable_T stable_K2)
     (simp_all add: skipped_def told_def realtime_event_def)

lemma safe_onExhausted:
  "ok env \<Longrightarrow> safe (K2 job b) (onExhausted env job ev n res) (\<lambda>out _. \<not> skipped out)"
  unfolding onExhausted_def
  by (intro safe_bind [OF safe_throwP [where Q = "\<lambda>_. K2 job b"]] safe_bind [OF safe_markFailed]
        safe_bind [OF safe_metric] safe_bind [OF safe_publish] safe_Ret stable_T)
     (simp_all add: skipped_def told_def realtime_event_def)

lemma safe_onRetry:
  "ok env \<Longrightarrow> \<not> isExhausted (cfg_retry (e_cfg env)) (jr_attemptCount job) \<Longrightarrow>
   safe (K2 job b) (onRetry env job ev n res) (\<lambda>out _. \<not> skipped out)"
  unfolding onRetry_def Let_def
  by (intro safe_bind [OF safe_now] safe_bind [OF safe_throwP [where Q = "\<lambda>_. K2 job b"]]
        safe_bind [OF safe_scheduleRetry] safe_bind [OF safe_metric] safe_bind [OF safe_publish]
        safe_Ret stable_T stable_K2)
     (simp_all add: skipped_def told_def realtime_event_def)

lemma safe_onRetryableFailure:
  assumes "ok env"
  shows "safe (K2 job b) (onRetryableFailure env job ev aid (jr_attemptCount job) res) (\<lambda>out _. \<not> skipped out)"
  unfolding onRetryableFailure_def publishAttemptFailed_def
  by (intro safe_bind [OF safe_completeFailed] safe_bind [OF safe_metric] safe_bind [OF safe_publish]
        stable_K2 assms)
     (simp_all add: safe_onExhausted safe_onRetry assms told_def realtime_event_def at_work)

lemma safe_settle:
  assumes "ok env" and "b = reply_ok reply"
  shows "safe (K2 job b) (settle env job ev aid (jr_attemptCount job) (delivery_result ms reply))
    (\<lambda>out _. \<not> skipped out)"
proof (cases "classifyResult (delivery_result ms reply)")
  case Delivered_2xx
  then show ?thesis
    using assms classify_success_iff [of ms reply] safe_onSuccess by (simp add: settle_def)
next
  case (Failure c)
  then show ?thesis
    using assms safe_onPermanentFailure safe_onRetryableFailure
    by (cases c) (simp_all add: settle_def)
qed

lemma safe_exchange:
  assumes "req = delivery_request ev (jr_attemptCount job)" and "hr_body http = webhook_body req"
  shows "safe (K1 job ev) (exchangeP env req http) (\<lambda>reply. K2 job (reply_ok reply))"
proof (rule safeI, unfold dsat_def, intro allI impI)
  fix d and w :: world
  assume d: "I d" "K1 job ev d" and w: "w_db w = d"
  let ?reply = "e_exchange env (w_tick w) http"
  let ?x = "\<lparr>wx_delivery = req, wx_request = http, wx_reply = ?reply\<rparr>"
  let ?d = "d\<lparr>wire := wire d @ [?x]\<rparr>"
  have step: "I ?d \<and> G d ?d \<and> K2 job (reply_ok ?reply) ?d"
    using exchange_step [of d job ev ?x ?d] d assms by simp
  then have "K2 job (reply_ok ?reply) d''" if "R ?d d''" "I d''" for d''
    using that stable_K2 by (blast intro: stableD)
  with step w show "tsat T R I G (\<lambda>reply. K2 job (reply_ok reply)) (\<lambda>_ _. True) (exchangeP env req http) w"
    by (simp add: exchangeP_def actP_def Let_def tells_quiet)
qed

lemma safe_send:
  assumes "req = delivery_request ev (jr_attemptCount job)"
  shows "safe (K1 job ev) (send env req)
    (\<lambda>res d. \<exists>ms reply. res = delivery_result ms reply \<and> K2 job (reply_ok reply) d)"
  unfolding send_def
  by (intro safe_bind [OF safe_now] safe_bind [OF safe_exchange [OF assms]] safe_Ret stable_K1 stable_K2)
     (auto simp: webhook_request_def Let_def)

lemma safe_findEvent:
  assumes "ok env"
  shows "safe (K0 job) (event_findOne env (jr_eventId job))
    (\<lambda>found d. \<exists>ev. found = Some ev \<and> KE job ev d)"
  unfolding event_findOne_def
proof (rule safe_mapP, rule safe_select)
  fix t x d
  assume d: "I d" "K0 job d"
    and x: "fst (select_events env (\<lambda>r. sql_eq env (er_eventId r) (jr_eventId job)) t d) = Inr x"
  then have set_x: "set x = {ev \<in> set (events d). sql_eq env (er_eventId ev) (jr_eventId job)}"
    by (auto simp: select_events_def sane_scan [OF ok_sane [OF assms]])
  with event_there [OF assms d] have "x \<noteq> []" by auto
  then obtain ev where ev: "first_row x = Some ev" by (cases "first_row x") (auto simp: first_row_None)
  then have "ev \<in> set x" by (rule first_row_Some)
  with set_x event_read [OF assms d] ev d show "\<exists>ev. first_row x = Some ev \<and> KE job ev d" by auto
qed (use stable_KE in \<open>auto simp: select_events_def stable_def\<close>)

lemma safe_record_result:
  assumes "ok env"
  shows "safe (\<lambda>d. \<exists>ms reply. res = delivery_result ms reply \<and> K2 job (reply_ok reply) d)
    (record_result env job ev aid (jr_attemptCount job) res) (\<lambda>out _. \<not> skipped out)"
proof (rule safeI, elim exE conjE)
  fix d ms reply
  assume d: "I d" "K2 job (reply_ok reply) d" and res: "res = delivery_result ms reply"
  let ?b = "reply_ok reply"
  have status: "safe (K2 job ?b) (case wd_httpStatus res of None \<Rightarrow> Ret ()
      | Some status \<Rightarrow> metricP env (recordHttpStatus status)) (\<lambda>_. K2 job ?b)"
    by (auto intro: safe_Ret safe_metric stable_K2 split: option.split)
  have "safe (K2 job ?b) (record_result env job ev aid (jr_attemptCount job) res) (\<lambda>out _. \<not> skipped out)"
    unfolding record_result_def
    by (intro safe_bind [OF safe_metric] safe_bind [OF status] stable_K2)
       (simp add: res safe_settle assms)
  then show "dsat T R I G (\<lambda>out _. \<not> skipped out) (\<lambda>_ _. True)
      (record_result env job ev aid (jr_attemptCount job) res) d"
    using d by (rule safe_dsat)
qed

lemma safe_attempt_delivery:
  assumes "ok env"
  shows "safe (KE job ev) (attempt_delivery env job ev (jr_attemptCount job)) (\<lambda>out _. \<not> skipped out)"
proof -
  have start: "safe (KE job ev) (attempts_start env (jr_eventId job) (jr_attemptCount job)) (\<lambda>_. K1 job ev)"
    unfolding attempts_start_def
    by (rule safe_bind [OF safe_now [OF stable_KE]], rule safe_stmt)
       (auto intro: stable_K1 dest: start_step [OF assms])
  show ?thesis
    unfolding attempt_delivery_def
    by (intro safe_bind [OF start] safe_bind [OF safe_metric] safe_bind [OF safe_publish]
          safe_bind [OF safe_send] safe_record_result stable_K1 assms)
       (simp_all add: told_def realtime_event_def at_work)
qed

text \<open>A claimed job is never skipped: its event is there.\<close>

lemma safe_executeClaimedJob:
  assumes "ok env"
  shows "safe (K0 job) (executeClaimedJob env job) (\<lambda>out _. \<not> skipped out)"
  unfolding executeClaimedJob_def
proof (rule safe_bind [OF safe_findEvent [OF assms]])
  fix found
  show "safe (\<lambda>d. \<exists>ev. found = Some ev \<and> KE job ev d)
      (case found of
         None \<Rightarrow> bindP (markFailed env job) (\<lambda>_. Ret (Skipped_outcome ''event-not-found''))
       | Some event \<Rightarrow> attempt_delivery env job event (jr_attemptCount job)) (\<lambda>out _. \<not> skipped out)"
    using safe_attempt_delivery [OF assms] by (cases found) (auto simp: safe_def)
qed

text \<open>The claim: when it returns a job, the program knows it holds it.\<close>

lemma safe_claim:
  assumes "ok env"
  shows "safe (\<lambda>_. True) (claim env j w) (\<lambda>found d. \<forall>job. found = Some job \<longrightarrow> K0 job d)"
  unfolding claim_def
proof (rule safe_bind [OF safe_now [OF stable_True]], rule safe_bind)
  fix now
  show "safe (\<lambda>_. True)
      (stmtP env (update_jobs env (\<lambda>r. sql_eq env (jr_id r) j \<and> due now r) (claim_row w now)))
      (\<lambda>n d. n \<noteq> 0 \<longrightarrow> C j d)"
    by (rule safe_stmt) (use stable_C in \<open>auto simp: stable_def dest: claim_step [OF assms]\<close>)
next
  fix now n
  have "safe (C j) (stmtP env (select_jobs env (\<lambda>r. sql_eq env (jr_id r) j)))
      (\<lambda>rows d. \<forall>job. first_row rows = Some job \<longrightarrow> K0 job d)"
  proof (rule safe_select)
    fix t rows d
    assume d: "I d" "C j d" and "fst (select_jobs env (\<lambda>r. sql_eq env (jr_id r) j) t d) = Inr rows"
    then have "set rows = {r \<in> set (jobs d). sql_eq env (jr_id r) j}"
      by (auto simp: select_jobs_def sane_scan [OF ok_sane [OF assms]])
    with d claimed [OF assms] show "\<forall>job. first_row rows = Some job \<longrightarrow> K0 job d"
      by (auto dest!: first_row_Some)
  qed (use stable_K0 in \<open>auto simp: select_jobs_def stable_def\<close>)
  then have "safe (C j) (mapP first_row (stmtP env (select_jobs env (\<lambda>r. sql_eq env (jr_id r) j))))
      (\<lambda>found d. \<forall>job. found = Some job \<longrightarrow> K0 job d)"
    by (rule safe_mapP)
  then show "safe (\<lambda>d. n \<noteq> 0 \<longrightarrow> C j d)
      (if n = 0 then Ret None
       else mapP first_row (stmtP env (select_jobs env (\<lambda>r. sql_eq env (jr_id r) j))))
      (\<lambda>found d. \<forall>job. found = Some job \<longrightarrow> K0 job d)"
    by (auto intro: safe_Ret)
qed

lemma safe_processJob: "ok env \<Longrightarrow> safe (K0 job) (processJob env job) (\<lambda>_ _. True)"
  unfolding processJob_def
  by (rule safe_catch, rule safe_mapP, rule safe_conseq [OF safe_executeClaimedJob])
     (auto intro: safe_Ret)

lemma safe_drainP: "ok env \<Longrightarrow> safe (\<lambda>_. True) (drainP env ids c) (\<lambda>_ _. True)"
proof (induction ids arbitrary: c)
  case Nil
  then show ?case by (auto intro: safe_Ret)
next
  case (Cons j ids)
  have next_job: "safe (\<lambda>d. \<forall>job. found = Some job \<longrightarrow> K0 job d)
      (case found of
         None \<Rightarrow> drainP env ids c
       | Some job \<Rightarrow> bindP (processJob env job) (\<lambda>done.
           drainP env ids (fst c + 1, snd c + done))) (\<lambda>_ _. True)" for found
  proof (cases found)
    case None
    then show ?thesis using Cons by simp
  next
    case (Some job)
    have "safe (K0 job) (bindP (processJob env job) (\<lambda>done.
           drainP env ids (fst c + 1, snd c + done))) (\<lambda>_ _. True)"
      using Cons by (intro safe_bind [OF safe_processJob])
    with Some show ?thesis by simp
  qed
  show ?case
    using Cons.prems
    by (auto intro!: safe_bind [OF safe_readNode] safe_Ret safe_bind [OF safe_claim] next_job)
qed

text \<open>The sweep: what it knows of the stale jobs survives the work on each of them.\<close>

lemma safe_findStale:
  assumes "ok env"
  shows "safe (\<lambda>_. True) (findStaleJobs env cutoff limit) (\<lambda>stale d. \<forall>job \<in> set stale. S job d)"
  unfolding findStaleJobs_def
proof (rule safe_mapP, rule safe_select)
  fix t rows d
  assume d: "I d" and "fst (select_jobs env (lease_expired cutoff) t d) = Inr rows"
  then have "set rows = {r \<in> set (jobs d). lease_expired cutoff r}"
    by (auto simp: select_jobs_def sane_scan [OF ok_sane [OF assms]])
  with stale_seen [OF assms d] set_sql_take
  show "\<forall>job \<in> set (sql_take env limit (sql_order (\<lambda>r. coalesce (jr_lockedAt r) 0) rows)). S job d"
    by fastforce
qed (use stable_S in \<open>auto simp: select_jobs_def stable_def\<close>)

lemma stable_all_S: "stable R I (\<lambda>d. \<forall>job \<in> X. S job d)"
  using stable_S by (auto simp: stable_def)

lemma safe_closeAbandoned:
  "ok env \<Longrightarrow> safe (\<lambda>d. \<forall>job \<in> X. S job d) (closeAbandoned env e reason) (\<lambda>_ d. \<forall>job \<in> X. S job d)"
  unfolding closeAbandoned_def
  by (rule safe_bind [OF safe_now [OF stable_all_S]], rule safe_stmt [OF _ stable_all_S])
     (auto dest: abandon_step)

lemma safe_release:
  assumes "ok env" and "job \<in> X" and "may_settle env job False s"
  shows "safe (\<lambda>d. \<forall>job \<in> X. S job d) (releaseStaleJob env job s ts)
    (\<lambda>released d. (released \<longrightarrow> T (jr_eventId job) s d) \<and> (\<forall>job \<in> X. S job d))"
proof -
  let ?A = "\<lambda>d. \<forall>job \<in> X. S job d"
  let ?B = "\<lambda>n d. (n \<noteq> (0::nat) \<longrightarrow> M (jr_eventId job) s d) \<and> (\<forall>job \<in> X. S job d)"
  have update: "safe ?A (stmtP env (update_jobs env (same_lease env job) (release_row s ts))) ?B"
  proof (rule safe_stmt)
    fix t n d d'
    assume d: "I d" "?A d"
      and u: "update_jobs env (same_lease env job) (release_row s ts) t d = (Inr n, d')"
    have "S job d" using d(2) assms(2) by blast
    from release_step [OF assms(1) d(1) this assms(3) u] d(2) show "I d' \<and> G d d' \<and> ?B n d'" by auto
  next
    show "stable R I (?B n)" for n using stable_M stable_all_S [of X] by (auto simp: stable_def)
  qed
  have mirror: "safe (?B n) (if n \<noteq> 0 then bindP (updateEventStatus env (jr_eventId job) s) (\<lambda>_. Ret True)
      else Ret False) (\<lambda>released d. (released \<longrightarrow> T (jr_eventId job) s d) \<and> ?A d)" for n
    using safe_mirror [OF assms(1), where A = "?B n" and X = X and e = "jr_eventId job" and s = s]
    by (auto intro!: safe_bind safe_Ret)
  show ?thesis
    unfolding releaseStaleJob_def by (rule safe_bind [OF update]) (rule mirror)
qed

lemma safe_recoverJob:
  assumes "ok env" and "job \<in> X"
  shows "safe (\<lambda>d. \<forall>job \<in> X. S job d) (recoverJob env now job k) (\<lambda>_ d. \<forall>job \<in> X. S job d)"
proof -
  have "may_settle env job False
      (fst (if isExhausted (cfg_retry (e_cfg env)) (jr_attemptCount job)
            then (DeliveryStatus.FAILED, jr_nextAttemptAt job)
            else (RETRYING, nextAttemptAt (cfg_retry (e_cfg env)) (jr_attemptCount job) now)))"
    by (simp add: may_settle_def)
  then show ?thesis
    unfolding recoverJob_def Let_def split_beta
    by (intro safe_bind [OF safe_closeAbandoned] safe_bind [OF safe_release] assms)
       (auto intro!: safe_Ret safe_bind [OF safe_metric] safe_bind [OF safe_publish] stable_conj
          stable_T stable_all_S simp: told_def realtime_event_def)
qed

lemma safe_recoverStaleJobs: "ok env \<Longrightarrow> safe (\<lambda>_. True) (recoverStaleJobs env limit) (\<lambda>_ _. True)"
  unfolding recoverStaleJobs_def Let_def
  by (rule safe_bind [OF safe_now [OF stable_True]], rule safe_bind [OF safe_findStale],
      assumption, rule safe_conseq, rule safe_for [where A = "\<lambda>d. \<forall>job \<in> set stale. S job d" for stale])
     (auto intro: safe_recoverJob)

lemma safe_findDue: "safe (\<lambda>_. True) (findDueJobIds env limit) (\<lambda>_ _. True)"
  unfolding findDueJobIds_def
  by (rule safe_bind [OF safe_now [OF stable_True]], rule safe_bind [where B = "\<lambda>_ _. True"],
      rule safe_select)
     (auto simp: select_jobs_def intro: safe_Ret)

lemma safe_runOnce: "ok env \<Longrightarrow> safe (\<lambda>_. True) (runOnce env) (\<lambda>_ _. True)"
  unfolding runOnce_def Let_def
  by (intro safe_bind [OF safe_now] safe_bind [OF safe_worker] safe_bind [OF safe_metric] safe_finally
        safe_bind [OF safe_recoverStaleJobs] safe_bind [OF safe_findDue] safe_bind [OF safe_drainP]
        safe_worker safe_Ret stable_True)
     simp_all

lemma safe_tick: "ok env \<Longrightarrow> safe (\<lambda>_. True) (tick env) (\<lambda>_ _. True)"
  unfolding tick_def scheduleNextTick_def
  by (intro safe_finally safe_catch safe_mapP safe_runOnce safe_worker safe_Ret stable_True) simp_all

end

end
