(* ===== verification/Invariant.thy ===== *)
theory Invariant
  imports Contract
begin

text \<open>
  What holds of the database whatever runs against it: any number of nodes, workers and
  requests, interleaved in any way, crashing at any point, with statements that fail before or
  after their effect. \<open>wf_db\<close> is the invariant and \<open>mono\<close> says how the tables evolve. Both
  contracts of \<open>theory Contract\<close> are interpreted on them.
\<close>

section \<open>The invariant\<close>

text \<open>The receiver has answered 2xx for the event.\<close>

definition evidence :: "string \<Rightarrow> db \<Rightarrow> bool" where
  "evidence e d \<longleftrightarrow> (\<exists>x \<in> set (wire d). wr_eventId (wx_delivery x) = e \<and> reply_ok (wx_reply x))"

text \<open>The attempt number has been consumed by a claim of the event's job.\<close>

definition counted :: "string \<Rightarrow> int \<Rightarrow> db \<Rightarrow> bool" where
  "counted e n d \<longleftrightarrow> 1 \<le> n \<and> (\<exists>r \<in> set (jobs d). jr_eventId r = e \<and> n \<le> jr_attemptCount r)"

text \<open>The event as it would be delivered is the event as it was accepted.\<close>

definition accepted :: "event_row \<Rightarrow> db \<Rightarrow> bool" where
  "accepted ev d \<longleftrightarrow> (\<exists>e \<in> set (events d). \<forall>n. delivery_request e n = delivery_request ev n)"

definition job_ok :: "job_row \<Rightarrow> bool" where
  "job_ok r \<longleftrightarrow>
     0 \<le> jr_attemptCount r \<and> (jr_status r = PENDING \<longleftrightarrow> jr_attemptCount r = 0) \<and>
     (jr_status r = DELIVERING \<longleftrightarrow> jr_lockedAt r \<noteq> None) \<and>
     (jr_status r = DELIVERING \<longleftrightarrow> jr_lockedBy r \<noteq> None)"

definition attempt_ok :: "attempt_row \<Rightarrow> bool" where
  "attempt_ok a \<longleftrightarrow>
     (ar_status a = IN_PROGRESS \<longleftrightarrow> ar_completedAt a = None) \<and>
     (ar_status a = AttemptStatus.FAILED \<longleftrightarrow> ar_errorType a \<noteq> None)"

definition exchange_ok :: "db \<Rightarrow> exchange \<Rightarrow> bool" where
  "exchange_ok d x \<longleftrightarrow>
     counted (wr_eventId (wx_delivery x)) (wr_attemptNumber (wx_delivery x)) d \<and>
     (\<exists>e \<in> set (events d). wx_delivery x = delivery_request e (wr_attemptNumber (wx_delivery x))) \<and>
     hr_body (wx_request x) = webhook_body (wx_delivery x)"

definition wf_db :: "(string \<Rightarrow> string) \<Rightarrow> db \<Rightarrow> bool" where
  "wf_db ci d \<longleftrightarrow>
     distinct (map (\<lambda>r. ci (jr_id r)) (jobs d)) \<and>
     map jr_eventId (jobs d) = map er_eventId (events d) \<and>
     distinct (map (\<lambda>e. ci (er_eventId e)) (events d)) \<and>
     distinct (map (\<lambda>a. (ci (ar_eventId a), ar_attemptNumber a)) (attempts d)) \<and>
     (\<forall>r \<in> set (jobs d). job_ok r \<and> (jr_status r = DELIVERED \<longrightarrow> evidence (jr_eventId r) d)) \<and>
     (\<forall>e \<in> set (events d). er_status e \<noteq> DELIVERING \<and>
        (er_status e = DELIVERED \<longrightarrow> evidence (er_eventId e) d)) \<and>
     (\<forall>a \<in> set (attempts d). attempt_ok a \<and> counted (ar_eventId a) (ar_attemptNumber a) d) \<and>
     (\<forall>x \<in> set (wire d). exchange_ok d x)"

section \<open>How the tables evolve\<close>

definition event_le :: "event_row \<Rightarrow> event_row \<Rightarrow> bool" where
  "event_le e e' \<longleftrightarrow>
     er_id e' = er_id e \<and> er_createdAt e' = er_createdAt e \<and>
     (\<forall>n. delivery_request e' n = delivery_request e n)"

definition job_le :: "job_row \<Rightarrow> job_row \<Rightarrow> bool" where
  "job_le r r' \<longleftrightarrow>
     jr_id r' = jr_id r \<and> jr_eventId r' = jr_eventId r \<and> jr_createdAt r' = jr_createdAt r \<and>
     jr_attemptCount r \<le> jr_attemptCount r'"

definition attempt_le :: "attempt_row \<Rightarrow> attempt_row \<Rightarrow> bool" where
  "attempt_le a a' \<longleftrightarrow>
     ar_id a' = ar_id a \<and> ar_eventId a' = ar_eventId a \<and>
     ar_attemptNumber a' = ar_attemptNumber a \<and> ar_startedAt a' = ar_startedAt a \<and>
     ar_createdAt a' = ar_createdAt a \<and> (ar_completedAt a \<noteq> None \<longrightarrow> ar_completedAt a' \<noteq> None)"

definition mono_db :: "db \<Rightarrow> db \<Rightarrow> bool" where
  "mono_db d d' \<longleftrightarrow>
     grows event_le (events d) (events d') \<and> grows job_le (jobs d) (jobs d') \<and>
     grows attempt_le (attempts d) (attempts d') \<and> (\<exists>xs. wire d' = wire d @ xs)"

lemma le_refl [simp]: "event_le e e" "job_le r r" "attempt_le a a"
  by (simp_all add: event_le_def job_le_def attempt_le_def)

lemma mono_refl [simp]: "mono_db d d"
  by (simp add: mono_db_def grows_refl)

lemma mono_trans:
  assumes "mono_db u v" and "mono_db v w"
  shows "mono_db u w"
proof -
  have e: "event_le x z" if "event_le x y" "event_le y z" for x y z
    using that by (simp add: event_le_def)
  have j: "job_le x z" if "job_le x y" "job_le y z" for x y z
    using that by (simp add: job_le_def)
  have a: "attempt_le x z" if "attempt_le x y" "attempt_le y z" for x y z
    using that by (simp add: attempt_le_def)
  show ?thesis
    using assms unfolding mono_db_def
    by (auto intro: grows_trans [OF e] grows_trans [OF j] grows_trans [OF a])
qed

lemma evidence_mono: "mono_db d d' \<Longrightarrow> evidence e d \<Longrightarrow> evidence e d'"
  by (auto simp: mono_db_def evidence_def)

lemma counted_mono:
  assumes "mono_db d d'" and "counted e n d"
  shows "counted e n d'"
proof -
  from assms(2) obtain r where r: "r \<in> set (jobs d)" "jr_eventId r = e" "n \<le> jr_attemptCount r" "1 \<le> n"
    by (auto simp: counted_def)
  from assms(1) r(1) obtain r' where "r' \<in> set (jobs d')" "job_le r r'"
    unfolding mono_db_def by (blast dest: grows_memD)
  with r show ?thesis by (auto simp: counted_def job_le_def)
qed

lemma accepted_mono:
  assumes "mono_db d d'" and "accepted ev d"
  shows "accepted ev d'"
proof -
  from assms(2) obtain e where e: "e \<in> set (events d)" "\<forall>n. delivery_request e n = delivery_request ev n"
    by (auto simp: accepted_def)
  from assms(1) e(1) obtain e' where "e' \<in> set (events d')" "event_le e e'"
    unfolding mono_db_def by (blast dest: grows_memD)
  with e show ?thesis by (auto simp: accepted_def event_le_def)
qed

lemma exchange_ok_mono:
  assumes "mono_db d d'" and "exchange_ok d x"
  shows "exchange_ok d' x"
proof -
  from assms(2) obtain e where "e \<in> set (events d)"
    and e: "wx_delivery x = delivery_request e (wr_attemptNumber (wx_delivery x))"
    by (auto simp: exchange_ok_def)
  then have "accepted e d" by (auto simp: accepted_def)
  with assms(1) have "accepted e d'" by (rule accepted_mono)
  then obtain e' where "e' \<in> set (events d')" "\<forall>n. delivery_request e' n = delivery_request e n"
    by (auto simp: accepted_def)
  with e have "\<exists>e' \<in> set (events d'). wx_delivery x = delivery_request e' (wr_attemptNumber (wx_delivery x))"
    by metis
  with assms show ?thesis by (auto simp: exchange_ok_def intro: counted_mono)
qed

text \<open>A change that is monotone keeps the parts of the invariant that only speak of the past.\<close>

lemma wf_dbI:
  assumes "wf_db ci d" and "mono_db d d'"
    and "distinct (map (\<lambda>r. ci (jr_id r)) (jobs d'))"
    and "map jr_eventId (jobs d') = map er_eventId (events d')"
    and "distinct (map (\<lambda>e. ci (er_eventId e)) (events d'))"
    and "distinct (map (\<lambda>a. (ci (ar_eventId a), ar_attemptNumber a)) (attempts d'))"
    and "\<And>r. r \<in> set (jobs d') \<Longrightarrow> r \<in> set (jobs d) \<or>
           job_ok r \<and> (jr_status r = DELIVERED \<longrightarrow> evidence (jr_eventId r) d')"
    and "\<And>e. e \<in> set (events d') \<Longrightarrow> e \<in> set (events d) \<or> er_status e \<noteq> DELIVERING \<and>
           (er_status e = DELIVERED \<longrightarrow> evidence (er_eventId e) d')"
    and "\<And>a. a \<in> set (attempts d') \<Longrightarrow> a \<in> set (attempts d) \<or>
           attempt_ok a \<and> counted (ar_eventId a) (ar_attemptNumber a) d'"
    and "\<And>x. x \<in> set (wire d') \<Longrightarrow> x \<in> set (wire d) \<or> exchange_ok d' x"
  shows "wf_db ci d'"
  unfolding wf_db_def
proof (intro conjI ballI)
  from assms(1) have old:
    "\<And>r. r \<in> set (jobs d) \<Longrightarrow> job_ok r \<and> (jr_status r = DELIVERED \<longrightarrow> evidence (jr_eventId r) d)"
    "\<And>e. e \<in> set (events d) \<Longrightarrow> er_status e \<noteq> DELIVERING \<and> (er_status e = DELIVERED \<longrightarrow> evidence (er_eventId e) d)"
    "\<And>a. a \<in> set (attempts d) \<Longrightarrow> attempt_ok a \<and> counted (ar_eventId a) (ar_attemptNumber a) d"
    "\<And>x. x \<in> set (wire d) \<Longrightarrow> exchange_ok d x"
    by (simp_all add: wf_db_def)
  note up = evidence_mono [OF assms(2)] counted_mono [OF assms(2)] exchange_ok_mono [OF assms(2)]
  show "job_ok r" "jr_status r = DELIVERED \<longrightarrow> evidence (jr_eventId r) d'" if "r \<in> set (jobs d')" for r
    using assms(7) [OF that] old(1) up(1) by auto
  show "er_status e \<noteq> DELIVERING" "er_status e = DELIVERED \<longrightarrow> evidence (er_eventId e) d'"
    if "e \<in> set (events d')" for e using assms(8) [OF that] old(2) up(1) by auto
  show "attempt_ok a" "counted (ar_eventId a) (ar_attemptNumber a) d'" if "a \<in> set (attempts d')" for a
    using assms(9) [OF that] old(3) up(2) by auto
  show "exchange_ok d' x" if "x \<in> set (wire d')" for x
    using assms(10) [OF that] old(4) up(3) by auto
qed (fact assms(3-6))+

section \<open>The statements\<close>

lemma job_stamp [simp]:
  "job_le r (r'\<lparr>jr_updatedAt := s\<rparr>) = job_le r r'" "job_ok (r'\<lparr>jr_updatedAt := s\<rparr>) = job_ok r'"
  by (simp_all add: job_le_def job_ok_def)

lemma event_stamp [simp]: "event_le e (e'\<lparr>er_updatedAt := s\<rparr>) = event_le e e'"
  by (simp add: event_le_def delivery_request_def)

lemma update_jobs_effect:
  assumes "update_jobs env P f t d = (Inr n, d')"
  obtains g where "d' = d\<lparr>jobs := map g (jobs d)\<rparr>" "n = length (filter P (jobs d))"
    "\<And>r. g r = (if P r then (f r)\<lparr>jr_updatedAt := e_db_clock env t\<rparr> else r)"
  using that assms by (auto simp: update_jobs_def)

lemma update_events_effect:
  assumes "update_events env P f t d = (Inr n, d')"
  obtains g where "d' = d\<lparr>events := map g (events d)\<rparr>"
    "\<And>e. g e = (if P e then (f e)\<lparr>er_updatedAt := e_db_clock env t\<rparr> else e)"
  using that assms by (auto simp: update_events_def)

lemma update_attempts_effect:
  assumes "update_attempts P f t d = (Inr n, d')"
  obtains g where "d' = d\<lparr>attempts := map g (attempts d)\<rparr>" "\<And>a. g a = (if P a then f a else a)"
  using that assms by (auto simp: update_attempts_def)

lemma wf_update_jobs:
  assumes wf: "wf_db ci d" and u: "update_jobs env P f t d = (Inr n, d')"
    and step: "\<And>r. r \<in> set (jobs d) \<Longrightarrow> P r \<Longrightarrow>
      job_le r (f r) \<and> job_ok (f r) \<and> (jr_status (f r) = DELIVERED \<longrightarrow> evidence (jr_eventId r) d)"
  shows "wf_db ci d' \<and> mono_db d d'"
proof -
  from u obtain g where d': "d' = d\<lparr>jobs := map g (jobs d)\<rparr>"
    and g: "\<And>r. g r = (if P r then (f r)\<lparr>jr_updatedAt := e_db_clock env t\<rparr> else r)"
    by (rule update_jobs_effect) blast
  from step have le: "job_le r (g r)" if "r \<in> set (jobs d)" for r
    using that by (simp add: g)
  then have mono: "mono_db d d'" by (auto simp: mono_db_def d' intro: grows_refl grows_map)
  from le have "map (\<lambda>r. ci (jr_id r)) (jobs d') = map (\<lambda>r. ci (jr_id r)) (jobs d)"
    and "map jr_eventId (jobs d') = map jr_eventId (jobs d)"
    by (auto simp: d' job_le_def)
  moreover have "r \<in> set (jobs d) \<or> job_ok r \<and> (jr_status r = DELIVERED \<longrightarrow> evidence (jr_eventId r) d')"
    if "r \<in> set (jobs d')" for r
  proof -
    from that obtain q where q: "q \<in> set (jobs d)" "r = g q" by (auto simp: d')
    show ?thesis
    proof (cases "P q")
      case True
      with step [OF q(1)] have "job_le q (f q)" "job_ok (f q)"
        "jr_status (f q) = DELIVERED \<longrightarrow> evidence (jr_eventId q) d" by auto
      with q True mono show ?thesis by (auto simp: g job_le_def intro: evidence_mono)
    qed (use q g in simp)
  qed
  moreover have "events d' = events d" "attempts d' = attempts d" "wire d' = wire d" by (simp_all add: d')
  ultimately have "wf_db ci d'"
    using wf by (intro wf_dbI [OF wf mono]) (simp_all add: wf_db_def)
  with mono show ?thesis by simp
qed

lemma wf_update_events:
  assumes wf: "wf_db ci d" and u: "update_events env P f t d = (Inr n, d')"
    and step: "\<And>e. e \<in> set (events d) \<Longrightarrow> P e \<Longrightarrow>
      event_le e (f e) \<and> er_status (f e) \<noteq> DELIVERING \<and>
      (er_status (f e) = DELIVERED \<longrightarrow> evidence (er_eventId e) d)"
  shows "wf_db ci d' \<and> mono_db d d'"
proof -
  from u obtain g where d': "d' = d\<lparr>events := map g (events d)\<rparr>"
    and g: "\<And>e. g e = (if P e then (f e)\<lparr>er_updatedAt := e_db_clock env t\<rparr> else e)"
    by (rule update_events_effect) blast
  from step have le: "event_le e (g e)" if "e \<in> set (events d)" for e
    using that by (simp add: g)
  then have mono: "mono_db d d'" by (auto simp: mono_db_def d' intro: grows_refl grows_map)
  have key: "er_eventId (g e) = er_eventId e" if "e \<in> set (events d)" for e
    using le [OF that] by (auto simp: event_le_def delivery_request_def)
  then have "map er_eventId (events d') = map er_eventId (events d)"
    and "map (\<lambda>e. ci (er_eventId e)) (events d') = map (\<lambda>e. ci (er_eventId e)) (events d)"
    by (auto simp: d')
  moreover have "e \<in> set (events d) \<or> er_status e \<noteq> DELIVERING \<and> (er_status e = DELIVERED \<longrightarrow> evidence (er_eventId e) d')"
    if "e \<in> set (events d')" for e
  proof -
    from that obtain q where q: "q \<in> set (events d)" "e = g q" by (auto simp: d')
    show ?thesis
    proof (cases "P q")
      case True
      with step [OF q(1)] have "er_status (f q) \<noteq> DELIVERING"
        "er_status (f q) = DELIVERED \<longrightarrow> evidence (er_eventId q) d" by auto
      with q True mono key [OF q(1)] show ?thesis by (auto simp: g intro: evidence_mono)
    qed (use q g in simp)
  qed
  moreover have "jobs d' = jobs d" "attempts d' = attempts d" "wire d' = wire d" by (simp_all add: d')
  ultimately have "wf_db ci d'"
    using wf by (intro wf_dbI [OF wf mono]) (simp_all add: wf_db_def)
  with mono show ?thesis by simp
qed

lemma wf_update_attempts:
  assumes wf: "wf_db ci d" and u: "update_attempts P f t d = (Inr n, d')"
    and step: "\<And>a. a \<in> set (attempts d) \<Longrightarrow> P a \<Longrightarrow> attempt_le a (f a) \<and> attempt_ok (f a)"
  shows "wf_db ci d' \<and> mono_db d d'"
proof -
  from u obtain g where d': "d' = d\<lparr>attempts := map g (attempts d)\<rparr>"
    and g: "\<And>a. g a = (if P a then f a else a)"
    by (rule update_attempts_effect) blast
  from step have le: "attempt_le a (g a)" if "a \<in> set (attempts d)" for a
    using that by (simp add: g)
  then have mono: "mono_db d d'" by (auto simp: mono_db_def d' intro: grows_refl grows_map)
  from le have "map (\<lambda>a. (ci (ar_eventId a), ar_attemptNumber a)) (attempts d') =
      map (\<lambda>a. (ci (ar_eventId a), ar_attemptNumber a)) (attempts d)"
    by (auto simp: d' attempt_le_def)
  moreover have "a \<in> set (attempts d) \<or> attempt_ok a \<and> counted (ar_eventId a) (ar_attemptNumber a) d'"
    if "a \<in> set (attempts d')" for a
  proof -
    from that obtain q where q: "q \<in> set (attempts d)" "a = g q" by (auto simp: d')
    with wf have "counted (ar_eventId q) (ar_attemptNumber q) d'"
      by (auto simp: wf_db_def intro: counted_mono [OF mono])
    with step [OF q(1)] q le [OF q(1)] show ?thesis by (cases "P q") (auto simp: g attempt_le_def)
  qed
  moreover have "jobs d' = jobs d" "events d' = events d" "wire d' = wire d" by (simp_all add: d')
  ultimately have "wf_db ci d'"
    using wf by (intro wf_dbI [OF wf mono]) (simp_all add: wf_db_def)
  with mono show ?thesis by simp
qed

lemma wf_insert_attempt:
  assumes wf: "wf_db ci d" and ci: "e_fold env = ci"
    and i: "insert_attempt_row env mk t d = (Inr a, d')"
    and ok: "attempt_ok (mk t)" "counted (ar_eventId (mk t)) (ar_attemptNumber (mk t)) d"
  shows "wf_db ci d' \<and> mono_db d d'"
proof -
  from i have d': "d' = d\<lparr>attempts := attempts d @ [mk t]\<rparr>"
    and fresh: "\<forall>r \<in> set (attempts d). \<not> (ci (ar_eventId r) = ci (ar_eventId (mk t)) \<and>
        ar_attemptNumber r = ar_attemptNumber (mk t))"
    using ci by (auto simp: insert_attempt_row_def Let_def list_ex_iff sql_eq_def split: if_splits)
  then have mono: "mono_db d d'" by (simp add: mono_db_def grows_refl grows_append)
  have "wf_db ci d'"
    using wf fresh ok
    by (intro wf_dbI [OF wf mono]) (auto simp: d' wf_db_def counted_def)
  with mono show ?thesis by simp
qed

lemma wf_exchange:
  assumes wf: "wf_db ci d" and ok: "exchange_ok d x"
  shows "wf_db ci (d\<lparr>wire := wire d @ [x]\<rparr>) \<and> mono_db d (d\<lparr>wire := wire d @ [x]\<rparr>)"
proof -
  have mono: "mono_db d (d\<lparr>wire := wire d @ [x]\<rparr>)" by (simp add: mono_db_def grows_refl)
  moreover have "wf_db ci (d\<lparr>wire := wire d @ [x]\<rparr>)"
    using wf exchange_ok_mono [OF mono ok] by (intro wf_dbI [OF wf mono]) (auto simp: wf_db_def)
  ultimately show ?thesis by simp
qed

text \<open>What a committed ingestion did.\<close>

lemma ingest_effect:
  assumes "ingest_work env dto t d = (Inr x, d')"
  shows "x = new_event env dto t \<and>
    d' = d\<lparr>events := events d @ [x], jobs := jobs d @ [new_job env (dto_eventId dto) (e_clock env t) t]\<rparr> \<and>
    (\<forall>e \<in> set (events d). e_fold env (er_eventId e) \<noteq> e_fold env (dto_eventId dto)) \<and>
    (\<forall>r \<in> set (jobs d). e_fold env (jr_eventId r) \<noteq> e_fold env (dto_eventId dto) \<and>
       e_fold env (jr_id r) \<noteq> e_fold env (e_uuid env t 1))"
  using assms
  by (auto simp: ingest_work_def bindS_def events_insert_def insert_event_row_def insertJob_def
      insert_job_row_def Let_def list_ex_iff sql_eq_def new_event_def new_job_def split: if_splits)

lemma wf_ingest:
  assumes wf: "wf_db ci d" and ci: "e_fold env = ci" and i: "ingest_work env dto t d = (Inr x, d')"
  shows "wf_db ci d' \<and> mono_db d d'"
proof -
  let ?j = "new_job env (dto_eventId dto) (e_clock env t) t"
  from ingest_effect [OF i] ci have x: "x = new_event env dto t"
    and d': "d' = d\<lparr>events := events d @ [x], jobs := jobs d @ [?j]\<rparr>"
    and fresh: "\<forall>e \<in> set (events d). ci (er_eventId e) \<noteq> ci (dto_eventId dto)"
      "\<forall>r \<in> set (jobs d). ci (jr_id r) \<noteq> ci (e_uuid env t 1)"
    by auto
  then have mono: "mono_db d d'" by (simp add: mono_db_def grows_refl grows_append)
  have "wf_db ci d'"
    using wf fresh
    by (intro wf_dbI [OF wf mono])
       (auto simp: d' x new_event_def new_job_def wf_db_def job_ok_def)
  with mono show ?thesis by simp
qed

section \<open>The contracts, on the invariant\<close>

definition env_ok :: "(string \<Rightarrow> string) \<Rightarrow> env \<Rightarrow> bool" where
  "env_ok ci env \<longleftrightarrow> sane_env env \<and> e_fold env = ci"

text \<open>The job was claimed with this attempt number; others may have moved it on since.\<close>

definition held :: "job_row \<Rightarrow> db \<Rightarrow> bool" where
  "held job d \<longleftrightarrow>
     1 \<le> jr_attemptCount job \<and>
     (\<exists>r \<in> set (jobs d). jr_id r = jr_id job \<and> jr_eventId r = jr_eventId job \<and>
        jr_attemptCount job \<le> jr_attemptCount r)"

definition touched :: "(string \<Rightarrow> string) \<Rightarrow> string \<Rightarrow> db \<Rightarrow> bool" where
  "touched ci j d \<longleftrightarrow> (\<exists>r \<in> set (jobs d). ci (jr_id r) = ci j \<and> 1 \<le> jr_attemptCount r)"

definition mirrorable :: "string \<Rightarrow> DeliveryStatus \<Rightarrow> db \<Rightarrow> bool" where
  "mirrorable e s d \<longleftrightarrow> s \<noteq> DELIVERING \<and> (s = DELIVERED \<longrightarrow> evidence e d)"

lemma job_row_mono: "mono_db d d' \<Longrightarrow> r \<in> set (jobs d) \<Longrightarrow> \<exists>r' \<in> set (jobs d'). job_le r r'"
  unfolding mono_db_def by (blast dest: grows_memD)

lemma held_mono:
  assumes "mono_db d d'" and "held job d"
  shows "held job d'"
proof -
  from assms(2) obtain r where r: "r \<in> set (jobs d)" "jr_id r = jr_id job" "jr_eventId r = jr_eventId job"
    "jr_attemptCount job \<le> jr_attemptCount r" and "1 \<le> jr_attemptCount job" by (auto simp: held_def)
  moreover from job_row_mono [OF assms(1) r(1)] obtain r' where "r' \<in> set (jobs d')" "job_le r r'" ..
  ultimately show ?thesis unfolding held_def by (intro conjI bexI [of _ r']) (auto simp: job_le_def)
qed

lemma touched_mono:
  assumes "mono_db d d'" and "touched ci j d"
  shows "touched ci j d'"
proof -
  from assms(2) obtain r where r: "r \<in> set (jobs d)" "ci (jr_id r) = ci j" "1 \<le> jr_attemptCount r"
    by (auto simp: touched_def)
  moreover from job_row_mono [OF assms(1) r(1)] obtain r' where "r' \<in> set (jobs d')" "job_le r r'" ..
  ultimately show ?thesis unfolding touched_def by (intro bexI [of _ r']) (auto simp: job_le_def)
qed

lemma wf_job_unique:
  "wf_db ci d \<Longrightarrow> r \<in> set (jobs d) \<Longrightarrow> q \<in> set (jobs d) \<Longrightarrow> ci (jr_id r) = ci (jr_id q) \<Longrightarrow> r = q"
  unfolding wf_db_def by (blast dest: distinct_map_eq)

lemma held_row:
  assumes "wf_db ci d" and "held job d" and "r \<in> set (jobs d)" and "ci (jr_id r) = ci (jr_id job)"
  shows "jr_eventId r = jr_eventId job \<and> jr_attemptCount job \<le> jr_attemptCount r \<and> 1 \<le> jr_attemptCount r"
proof -
  from assms(2) obtain q where "q \<in> set (jobs d)" "jr_id q = jr_id job" "jr_eventId q = jr_eventId job"
    "jr_attemptCount job \<le> jr_attemptCount q" "1 \<le> jr_attemptCount job" by (auto simp: held_def)
  with wf_job_unique [OF assms(1,3), of q] assms(4) show ?thesis by auto
qed

lemma held_event:
  assumes "wf_db ci d" and "held job d"
  shows "\<exists>e \<in> set (events d). er_eventId e = jr_eventId job"
proof -
  from assms(2) have "jr_eventId job \<in> set (map jr_eventId (jobs d))"
    by (fastforce simp: held_def intro: rev_image_eqI)
  also have "map jr_eventId (jobs d) = map er_eventId (events d)" using assms(1) by (simp add: wf_db_def)
  finally show ?thesis by auto
qed

lemma held_event_unique:
  assumes "wf_db ci d" and "held job d" and "e \<in> set (events d)" and "ci (er_eventId e) = ci (jr_eventId job)"
  shows "er_eventId e = jr_eventId job"
proof -
  obtain q where q: "q \<in> set (events d)" "er_eventId q = jr_eventId job"
    using held_event [OF assms(1,2)] by blast
  from assms(1) have "distinct (map (\<lambda>e. ci (er_eventId e)) (events d))" by (simp add: wf_db_def)
  from distinct_map_eq [OF this assms(3) q(1)] q(2) assms(4) show ?thesis by simp
qed

text \<open>With several workers an announced status may be outdated, but it is that of a queued event.\<close>

definition queued :: "string \<Rightarrow> db \<Rightarrow> bool" where
  "queued e d \<longleftrightarrow> (\<exists>r \<in> set (jobs d). jr_eventId r = e)"

lemma queued_mono:
  assumes "mono_db d d'" and "queued e d"
  shows "queued e d'"
proof -
  from assms(2) obtain r where r: "r \<in> set (jobs d)" "jr_eventId r = e" by (auto simp: queued_def)
  from job_row_mono [OF assms(1) r(1)] obtain r' where "r' \<in> set (jobs d')" "job_le r r'" ..
  with r(2) show ?thesis by (auto simp: queued_def job_le_def)
qed

lemma held_queued: "held job d \<Longrightarrow> queued (jr_eventId job) d"
  by (auto simp: held_def queued_def)

lemma accepted_queued:
  assumes "wf_db ci d" and "ev \<in> set (events d)"
  shows "queued (er_eventId ev) d"
proof -
  have "er_eventId ev \<in> set (map er_eventId (events d))" using assms(2) by simp
  also have "map er_eventId (events d) = map jr_eventId (jobs d)" using assms(1) by (simp add: wf_db_def)
  finally show ?thesis by (auto simp: queued_def)
qed

lemma queued_ingest:
  "ingest_work env dto t d = (Inr x, d') \<Longrightarrow> queued (er_eventId x) d'"
  using ingest_effect [of env dto t d x d'] by (auto simp: queued_def new_event_def new_job_def)

interpretation shared: ingest_store "env_ok ci" mono_db "wf_db ci" mono_db "\<lambda>e _. queued e" for ci
proof (unfold_locales)
  show "wf_db ci d' \<and> mono_db d d' \<and> queued (er_eventId x) d'"
    if "env_ok ci env" "wf_db ci d" "ingest_work env dto t d = (Inr x, d')" for env d dto t x d'
    using that wf_ingest [of ci d env dto t x d'] queued_ingest by (auto simp: env_ok_def)
qed (auto simp: env_ok_def stable_def intro: mono_trans queued_mono accepted_queued)

lemma wf_claim:
  assumes "env_ok ci env" and "wf_db ci d"
    and u: "update_jobs env (\<lambda>r. sql_eq env (jr_id r) j \<and> due now r) (claim_row w now) t d = (Inr n, d')"
  shows "wf_db ci d' \<and> mono_db d d' \<and> (n \<noteq> 0 \<longrightarrow> touched ci j d')"
proof -
  have "wf_db ci d' \<and> mono_db d d'"
  proof (rule wf_update_jobs [OF assms(2) u])
    fix r assume "r \<in> set (jobs d)"
    with assms(2) have "0 \<le> jr_attemptCount r" by (auto simp: wf_db_def job_ok_def)
    then show "job_le r (claim_row w now r) \<and> job_ok (claim_row w now r) \<and>
        (jr_status (claim_row w now r) = DELIVERED \<longrightarrow> evidence (jr_eventId r) d)"
      by (simp add: claim_row_def job_le_def job_ok_def)
  qed
  moreover have "touched ci j d'" if "n \<noteq> 0"
  proof -
    from u obtain g where d': "d' = d\<lparr>jobs := map g (jobs d)\<rparr>"
      and n: "n = length (filter (\<lambda>r. sql_eq env (jr_id r) j \<and> due now r) (jobs d))"
      and g: "\<And>r. g r = (if sql_eq env (jr_id r) j \<and> due now r
                 then (claim_row w now r)\<lparr>jr_updatedAt := e_db_clock env t\<rparr> else r)"
      by (rule update_jobs_effect) blast
    from that n obtain r where r: "r \<in> set (jobs d)" "sql_eq env (jr_id r) j" "due now r"
      by (auto simp: filter_empty_conv)
    moreover from r(1) assms(2) have "0 \<le> jr_attemptCount r" by (auto simp: wf_db_def job_ok_def)
    ultimately have "g r \<in> set (jobs d')" "ci (jr_id (g r)) = ci j" "1 \<le> jr_attemptCount (g r)"
      using assms(1) by (auto simp: d' g claim_row_def env_ok_def sql_eq_def)
    then show ?thesis by (auto simp: touched_def)
  qed
  ultimately show ?thesis by simp
qed

lemma wf_settle:
  assumes "env_ok ci env" and "wf_db ci d" and "held job d" and "b \<longrightarrow> evidence (jr_eventId job) d"
    and "may_settle env job b s"
    and u: "update_jobs env (\<lambda>r. sql_eq env (jr_id r) (jr_id job))
              (\<lambda>r. unlock (r\<lparr>jr_status := s, jr_nextAttemptAt := nx r\<rparr>)) t d = (Inr n, d')"
  shows "wf_db ci d' \<and> mono_db d d'"
proof (rule wf_update_jobs [OF assms(2) u])
  fix r assume r: "r \<in> set (jobs d)" "sql_eq env (jr_id r) (jr_id job)"
  with held_row [OF assms(2,3)] assms(1)
  have "jr_eventId r = jr_eventId job" "1 \<le> jr_attemptCount r" by (auto simp: sql_eq_def env_ok_def)
  with assms(4,5) show "job_le r (unlock (r\<lparr>jr_status := s, jr_nextAttemptAt := nx r\<rparr>)) \<and>
      job_ok (unlock (r\<lparr>jr_status := s, jr_nextAttemptAt := nx r\<rparr>)) \<and>
      (jr_status (unlock (r\<lparr>jr_status := s, jr_nextAttemptAt := nx r\<rparr>)) = DELIVERED \<longrightarrow>
       evidence (jr_eventId r) d)"
    by (auto simp: unlock_def job_le_def job_ok_def may_settle_def)
qed

lemma wf_release:
  assumes "wf_db ci d" and "may_settle env job False s"
    and u: "update_jobs env (same_lease env job) (release_row s ts) t d = (Inr n, d')"
  shows "wf_db ci d' \<and> mono_db d d'"
proof (rule wf_update_jobs [OF assms(1) u])
  fix r assume r: "r \<in> set (jobs d)" "same_lease env job r"
  with assms(1) have "1 \<le> jr_attemptCount r" by (auto simp: wf_db_def job_ok_def same_lease_def)
  with assms(2) show "job_le r (release_row s ts r) \<and> job_ok (release_row s ts r) \<and>
      (jr_status (release_row s ts r) = DELIVERED \<longrightarrow> evidence (jr_eventId r) d)"
    by (auto simp: release_row_def unlock_def job_le_def job_ok_def may_settle_def)
qed

lemma evidence_event:
  assumes "wf_db ci d" and "evidence e d" and "ev \<in> set (events d)" and "ci (er_eventId ev) = ci e"
  shows "er_eventId ev = e"
proof -
  from assms(2) obtain x where x: "x \<in> set (wire d)" "wr_eventId (wx_delivery x) = e"
    by (auto simp: evidence_def)
  with assms(1) obtain q n where q: "q \<in> set (events d)" "wx_delivery x = delivery_request q n"
    by (auto simp: wf_db_def exchange_ok_def)
  from assms(1) have "distinct (map (\<lambda>e. ci (er_eventId e)) (events d))" by (simp add: wf_db_def)
  from distinct_map_eq [OF this assms(3) q(1)] q(2) x(2) assms(4) show ?thesis
    by (simp add: delivery_request_def)
qed

lemma wf_mirror:
  assumes "env_ok ci env" and "wf_db ci d" and "mirrorable e s d"
    and u: "update_events env (\<lambda>r. sql_eq env (er_eventId r) e) (\<lambda>r. r\<lparr>er_status := s\<rparr>) t d = (Inr n, d')"
  shows "wf_db ci d' \<and> mono_db d d'"
proof (rule wf_update_events [OF assms(2) u])
  fix ev assume "ev \<in> set (events d)" "sql_eq env (er_eventId ev) e"
  with assms(1) evidence_event [OF assms(2), of e ev] have "evidence e d \<Longrightarrow> er_eventId ev = e"
    by (simp add: sql_eq_def env_ok_def)
  with assms(3) show "event_le ev (ev\<lparr>er_status := s\<rparr>) \<and> er_status (ev\<lparr>er_status := s\<rparr>) \<noteq> DELIVERING \<and>
      (er_status (ev\<lparr>er_status := s\<rparr>) = DELIVERED \<longrightarrow> evidence (er_eventId ev) d)"
    by (auto simp: event_le_def delivery_request_def mirrorable_def)
qed

lemma wf_close:
  assumes "wf_db ci d" and "completion_ok c" and "update_attempts P (close_attempt c ts) t d = (Inr n, d')"
  shows "wf_db ci d' \<and> mono_db d d'"
  by (rule wf_update_attempts [OF assms(1,3)])
     (use assms(2) in \<open>auto simp: attempt_le_def attempt_ok_def completion_ok_def close_attempt_def\<close>)

lemma wf_abandon:
  assumes "wf_db ci d" and "update_attempts P (abandon_attempt reason now) t d = (Inr n, d')"
  shows "wf_db ci d' \<and> mono_db d d'"
  by (rule wf_update_attempts [OF assms])
     (auto simp: attempt_le_def attempt_ok_def abandon_attempt_def)

lemma wf_start:
  assumes "env_ok ci env" and "wf_db ci d" and "held job d"
    and i: "insert_attempt_row env (new_attempt env (jr_eventId job) (jr_attemptCount job) ts) t d = (Inr a, d')"
  shows "wf_db ci d' \<and> mono_db d d'"
proof (rule wf_insert_attempt [OF assms(2) _ i])
  show "attempt_ok (new_attempt env (jr_eventId job) (jr_attemptCount job) ts t)"
    by (simp add: attempt_ok_def new_attempt_def)
  show "counted (ar_eventId (new_attempt env (jr_eventId job) (jr_attemptCount job) ts t))
      (ar_attemptNumber (new_attempt env (jr_eventId job) (jr_attemptCount job) ts t)) d"
    using assms(3) by (auto simp: counted_def held_def)
qed (use assms(1) in \<open>simp add: env_ok_def\<close>)

text \<open>The claimed job and its event, as the program knows them.\<close>

definition held_event_of :: "job_row \<Rightarrow> event_row \<Rightarrow> db \<Rightarrow> bool" where
  "held_event_of job ev d \<longleftrightarrow> held job d \<and> er_eventId ev = jr_eventId job \<and> accepted ev d"

lemma wf_sent:
  assumes "wf_db ci d" and "held_event_of job ev d"
    and x: "wx_delivery x = delivery_request ev (jr_attemptCount job)"
      "hr_body (wx_request x) = webhook_body (wx_delivery x)"
    and d': "d' = d\<lparr>wire := wire d @ [x]\<rparr>"
  shows "wf_db ci d' \<and> mono_db d d' \<and> (reply_ok (wx_reply x) \<longrightarrow> evidence (jr_eventId job) d')"
proof -
  from assms(2) have "counted (jr_eventId job) (jr_attemptCount job) d"
    by (auto simp: held_event_of_def held_def counted_def)
  moreover from assms(2) obtain e where "e \<in> set (events d)" "\<forall>n. delivery_request e n = delivery_request ev n"
    by (auto simp: held_event_of_def accepted_def)
  then have "\<exists>e \<in> set (events d). wx_delivery x = delivery_request e (jr_attemptCount job)"
    using x(1) by metis
  ultimately have "exchange_ok d x"
    using assms(2) x by (auto simp: exchange_ok_def held_event_of_def delivery_request_def)
  from wf_exchange [OF assms(1) this] assms(2) x(1) d' show ?thesis
    by (auto simp: evidence_def held_event_of_def delivery_request_def)
qed

interpretation shared: delivery_store "env_ok ci" mono_db "wf_db ci" mono_db "\<lambda>e _. queued e"
  "touched ci" held held_event_of held_event_of
  "\<lambda>job b d. held job d \<and> (b \<longrightarrow> evidence (jr_eventId job) d)"
  "\<lambda>e s d. mirrorable e s d \<and> queued e d" "\<lambda>job d. queued (jr_eventId job) d" for ci
proof (unfold_locales, goal_cases)
  case (1 j)
  then show ?case by (auto simp: stable_def intro: touched_mono)
next
  case (2 job)
  then show ?case by (auto simp: stable_def intro: held_mono)
next
  case (3 job ev)
  then show ?case by (auto simp: stable_def held_event_of_def intro: held_mono accepted_mono)
next
  case (4 job b)
  then show ?case by (auto simp: stable_def intro: held_mono dest: evidence_mono)
next
  case (5 e s)
  then show ?case by (auto simp: stable_def mirrorable_def intro: evidence_mono queued_mono)
next
  case (6 job)
  then show ?case by (auto simp: stable_def intro: queued_mono)
next
  case (7 d job ev)
  then show ?case by (simp add: held_event_of_def held_queued)
next
  case (8 d job b)
  then show ?case by (simp add: held_queued)
next
  case (9 env d j now w t n d')
  then show ?case by (rule wf_claim)
next
  case (10 env d j job)
  then have "ci (jr_id job) = ci j" by (simp add: env_ok_def sql_eq_def)
  moreover from 10 obtain r where "r \<in> set (jobs d)" "ci (jr_id r) = ci j" "1 \<le> jr_attemptCount r"
    by (auto simp: touched_def)
  ultimately have "1 \<le> jr_attemptCount job" using wf_job_unique [OF 10(2), of r job] 10(4) by auto
  with 10 show ?case by (auto simp: held_def)
next
  case (11 env d job)
  then obtain e where "e \<in> set (events d)" "er_eventId e = jr_eventId job"
    using held_event by blast
  then show ?case by (intro bexI [of _ e]) (simp_all add: sql_eq_def)
next
  case (12 env d job ev)
  with held_event_unique [of ci d job ev] show ?case
    by (auto simp: sql_eq_def env_ok_def held_event_of_def accepted_def)
next
  case (13 env d job ev ts t a d')
  then have "wf_db ci d' \<and> mono_db d d'" by (intro wf_start) (auto simp: held_event_of_def)
  with 13 show ?case by (auto simp: held_event_of_def intro: held_mono accepted_mono)
next
  case (14 d job ev x d')
  from wf_sent [OF this] 14 show ?case by (auto simp: held_event_of_def intro: held_mono)
next
  case (15 env d job b c aid ts t n d')
  then have "wf_db ci d' \<and> mono_db d d'" by (intro wf_close)
  with 15 show ?case by (auto intro: held_mono evidence_mono)
next
  case (16 env d job b s nx t n d')
  then have "wf_db ci d' \<and> mono_db d d'" by (intro wf_settle) auto
  with 16 show ?case
    by (auto simp: mirrorable_def may_settle_def intro: evidence_mono queued_mono held_queued)
next
  case (17 env d e s t n d')
  then have "wf_db ci d' \<and> mono_db d d'" by (intro wf_mirror) auto
  with 17 show ?case by (auto intro: queued_mono)
next
  case (18 env d job cutoff)
  then show ?case by (auto simp: queued_def)
next
  case (19 env d e reason now t n d')
  then have "wf_db ci d' \<and> mono_db d d'" by (intro wf_abandon)
  then show ?case by (auto intro: queued_mono)
next
  case (20 env d job s ts t n d')
  then have "wf_db ci d' \<and> mono_db d d'" by (intro wf_release)
  with 20 show ?case by (auto simp: mirrorable_def may_settle_def intro: queued_mono)
qed

end
