(* ===== verification/Outcomes.thy ===== *)
theory Outcomes
  imports Runs Invariant
begin

text \<open>
  What each operation returns and does to the database when it runs alone and no statement
  fails, on every branch: ingestion, the queries of the queue, the claim, one delivery attempt
  and lease recovery. The clocks, the UUIDs and the receiver's answers are arbitrary.
\<close>

section \<open>Ingestion\<close>

text \<open>The UUIDs the environment hands out are new to the tables.\<close>

definition fresh_uuids :: "env \<Rightarrow> db \<Rightarrow> bool" where
  "fresh_uuids env d \<longleftrightarrow>
     (\<forall>t. (\<forall>e \<in> set (events d). \<not> sql_eq env (er_id e) (e_uuid env t 0)) \<and>
          (\<forall>r \<in> set (jobs d). \<not> sql_eq env (jr_id r) (e_uuid env t 1)) \<and>
          (\<forall>a \<in> set (attempts d). \<not> sql_eq env (ar_id a) (e_uuid env t 0)))"

definition known_event :: "env \<Rightarrow> string \<Rightarrow> db \<Rightarrow> bool" where
  "known_event env e d \<longleftrightarrow> (\<exists>ev \<in> set (events d). sql_eq env (er_eventId ev) e)"

lemma ingest_new:
  assumes "wf_db (e_fold env) d" and "fresh_uuids env d" and "\<not> known_event env (dto_eventId dto) d"
  shows "ingest_work env dto t d =
    (Inr (new_event env dto t),
     d\<lparr>events := events d @ [new_event env dto t],
       jobs := jobs d @ [new_job env (dto_eventId dto) (e_clock env t) t]\<rparr>)"
proof -
  have ids: "\<forall>e \<in> set (events d). \<not> sql_eq env (er_id e) (e_uuid env t 0)"
    "\<forall>r \<in> set (jobs d). \<not> sql_eq env (jr_id r) (e_uuid env t 1)"
    using assms(2) by (auto simp: fresh_uuids_def)
  have keys: "\<forall>e \<in> set (events d). \<not> sql_eq env (er_eventId e) (dto_eventId dto)"
    "\<forall>r \<in> set (jobs d). \<not> sql_eq env (jr_eventId r) (dto_eventId dto)"
  proof -
    show events: "\<forall>e \<in> set (events d). \<not> sql_eq env (er_eventId e) (dto_eventId dto)"
      using assms(3) by (auto simp: known_event_def)
    have "jr_eventId r \<in> set (map er_eventId (events d))" if "r \<in> set (jobs d)" for r
    proof -
      have "map er_eventId (events d) = map jr_eventId (jobs d)" using assms(1) by (simp add: wf_db_def)
      then show ?thesis using that by simp
    qed
    with events show "\<forall>r \<in> set (jobs d). \<not> sql_eq env (jr_eventId r) (dto_eventId dto)" by fastforce
  qed
  from ids keys show ?thesis
    by (auto simp: ingest_work_def bindS_def events_insert_def insert_event_row_def insertJob_def
        insert_job_row_def fk_violated_def Let_def list_ex_iff new_event_def new_job_def sql_eq_def)
qed

lemma ingest_known:
  assumes "known_event env (dto_eventId dto) d"
  shows "ingest_work env dto t d = (Inl (e_duplicate_key env), d)"
  using assms
  by (auto simp: ingest_work_def bindS_def events_insert_def insert_event_row_def known_event_def
      Let_def list_ex_iff new_event_def)

lemma runs_event_findOne:
  assumes "no_faults env" and "sane_env env"
    and "\<And>found. (found = None \<longrightarrow> \<not> known_event env e d) \<Longrightarrow>
      (\<forall>ev. found = Some ev \<longrightarrow> ev \<in> set (events d) \<and> sql_eq env (er_eventId ev) e) \<Longrightarrow> Q (Inr found) d"
  shows "runs (event_findOne env e) d Q"
  unfolding event_findOne_def
proof (rule runs_mapP, rule runs_stmtP [OF assms(1)])
  fix t x d'
  assume "select_events env (\<lambda>r. sql_eq env (er_eventId r) e) t d = (Inr x, d')"
  then have "d' = d" and x: "set x = {ev \<in> set (events d). sql_eq env (er_eventId ev) e}"
    using sane_scan(1) [OF assms(2)] by (auto simp: select_events_def)
  moreover have "Q (Inr (first_row x)) d"
  proof (rule assms(3))
    show "first_row x = None \<longrightarrow> \<not> known_event env e d"
      using x by (auto simp: first_row_None known_event_def)
    show "\<forall>ev. first_row x = Some ev \<longrightarrow> ev \<in> set (events d) \<and> sql_eq env (er_eventId ev) e"
      using x by (auto dest!: first_row_Some)
  qed
  ultimately show "Q (case Inr x of Inl e \<Rightarrow> Inl e | Inr x \<Rightarrow> Inr (first_row x)) d'" by simp
qed (simp add: select_events_def)

lemma runs_create_new:
  assumes "no_faults env" and "wf_db (e_fold env) d" and "fresh_uuids env d"
    and "\<not> known_event env (dto_eventId dto) d"
  shows "runs (create env dto) d (\<lambda>r d'. \<exists>t.
    d' = d\<lparr>events := events d @ [new_event env dto t],
           jobs := jobs d @ [new_job env (dto_eventId dto) (e_clock env t) t]\<rparr> \<and>
    r = Inr \<lparr>cr_accepted = True, cr_duplicate = False, cr_eventId = dto_eventId dto,
             cr_status = PENDING, cr_message = ''Event accepted and delivery scheduled''\<rparr>)"
  unfolding create_def ingest_def
proof (intro runs_mapP runs_catch runs_bind runs_stmtP assms(1), goal_cases)
  case (1 t e d')
  then show ?case by (simp add: ingest_new [OF assms(2-4)])
next
  case (2 t x d')
  then show ?case
    by (auto simp: ingest_new [OF assms(2-4)] create_response_def
        intro!: runs_bind runs_metricP runs_publish runs_Ret exI [of _ t])
qed

lemma runs_create_duplicate:
  assumes "no_faults env" and "sane_env env" and "known_event env (dto_eventId dto) d"
  shows "runs (create env dto) d (\<lambda>r d'. d' = d \<and>
    (\<exists>ev \<in> set (events d). sql_eq env (er_eventId ev) (dto_eventId dto) \<and>
       r = Inr \<lparr>cr_accepted = True, cr_duplicate = True, cr_eventId = er_eventId ev,
                cr_status = er_status ev,
                cr_message = ''Event already exists; the original event and its delivery job were kept unchanged''\<rparr>))"
proof -
  have unique: "isUniqueViolation (e_duplicate_key env)" using assms(2) by (simp add: sane_env_def)
  let ?Q = "\<lambda>r d'. d' = d \<and> (\<exists>ev \<in> set (events d). sql_eq env (er_eventId ev) (dto_eventId dto) \<and>
      r = Inr \<lparr>ir_duplicate = True, ir_event = ev\<rparr>)"
  have dup: "runs (handleDuplicate env dto) d ?Q"
    unfolding handleDuplicate_def numeral_3_eq_3
    by (rule runs_bind)
       (auto simp: assms(3) intro!: runs_event_findOne assms runs_bind runs_metricP runs_publish runs_Ret
          split: option.splits)
  have "runs (ingest env dto) d ?Q"
    unfolding ingest_def
    by (intro runs_catch runs_bind runs_stmtP assms(1))
       (auto simp: ingest_known [OF assms(3)] unique dup)
  then show ?thesis
    unfolding create_def
    by (intro runs_mapP, elim runs_conseq) (auto simp: create_response_def)
qed

section \<open>The statements of a delivery\<close>

definition replace_row :: "'a \<Rightarrow> 'a \<Rightarrow> 'a list \<Rightarrow> 'a list" where
  "replace_row r r' rows = map (\<lambda>q. if q = r then r' else q) rows"

text \<open>The row and its event, picked out by their keys.\<close>

definition event_of :: "env \<Rightarrow> db \<Rightarrow> string \<Rightarrow> event_row \<Rightarrow> bool" where
  "event_of env d e ev \<longleftrightarrow>
     ev \<in> set (events d) \<and> er_eventId ev = e \<and>
     (\<forall>q \<in> set (events d). sql_eq env (er_eventId q) e \<longrightarrow> q = ev)"

definition job_of :: "env \<Rightarrow> db \<Rightarrow> job_row \<Rightarrow> event_row \<Rightarrow> bool" where
  "job_of env d r ev \<longleftrightarrow>
     r \<in> set (jobs d) \<and> event_of env d (jr_eventId r) ev \<and>
     (\<forall>q \<in> set (jobs d). sql_eq env (jr_id q) (jr_id r) \<longrightarrow> q = r)"

lemma wf_job_of:
  assumes "wf_db (e_fold env) d" and "r \<in> set (jobs d)"
  shows "\<exists>ev. job_of env d r ev"
proof -
  have "jr_eventId r \<in> set (map jr_eventId (jobs d))" using assms(2) by simp
  also have "map jr_eventId (jobs d) = map er_eventId (events d)" using assms(1) by (simp add: wf_db_def)
  finally obtain ev where ev: "ev \<in> set (events d)" "er_eventId ev = jr_eventId r" by auto
  have distinct: "distinct (map (\<lambda>r. e_fold env (jr_id r)) (jobs d))"
    "distinct (map (\<lambda>e. e_fold env (er_eventId e)) (events d))"
    using assms(1) by (simp_all add: wf_db_def)
  have "q = r" if "q \<in> set (jobs d)" "sql_eq env (jr_id q) (jr_id r)" for q
    using distinct_map_eq [OF distinct(1) that(1) assms(2)] that(2) by (simp add: sql_eq_def)
  moreover have "q = ev" if "q \<in> set (events d)" "sql_eq env (er_eventId q) (jr_eventId r)" for q
    using distinct_map_eq [OF distinct(2) that(1) ev(1)] that(2) ev(2) by (simp add: sql_eq_def)
  ultimately show ?thesis using ev assms(2) by (auto simp: job_of_def event_of_def)
qed

lemma job_of_cong: "jobs d' = jobs d \<Longrightarrow> events d' = events d \<Longrightarrow> job_of env d' r ev = job_of env d r ev"
  by (simp add: job_of_def event_of_def)

text \<open>An UPDATE that a job's key and a guard select rewrites that job, or nothing.\<close>

lemma update_jobs_one:
  assumes "job_of env d r ev" and "\<And>q. P q \<longleftrightarrow> sql_eq env (jr_id q) (jr_id r) \<and> g q" and "g r"
  shows "\<exists>n > 0. update_jobs env P f t d =
    (Inr n, d\<lparr>jobs := replace_row r ((f r)\<lparr>jr_updatedAt := e_db_clock env t\<rparr>) (jobs d)\<rparr>)"
proof -
  have one: "P q \<longleftrightarrow> q = r" if "q \<in> set (jobs d)" for q
  proof
    assume "P q"
    then have "sql_eq env (jr_id q) (jr_id r)" by (simp add: assms(2))
    with assms(1) that show "q = r" by (simp add: job_of_def)
  next
    assume "q = r"
    then show "P q" using assms(3) by (simp add: assms(2) sql_eq_def)
  qed
  have "r \<in> set (jobs d)" using assms(1) by (simp add: job_of_def)
  with one have "filter P (jobs d) \<noteq> []" by (auto simp: filter_empty_conv)
  moreover have "map (\<lambda>q. if P q then (f q)\<lparr>jr_updatedAt := e_db_clock env t\<rparr> else q) (jobs d) =
      replace_row r ((f r)\<lparr>jr_updatedAt := e_db_clock env t\<rparr>) (jobs d)"
    unfolding replace_row_def by (rule map_cong) (simp_all add: one)
  ultimately show ?thesis by (simp add: update_jobs_def)
qed

lemma update_jobs_none:
  assumes "job_of env d r ev" and "\<And>q. P q \<longleftrightarrow> sql_eq env (jr_id q) (jr_id r) \<and> g q" and "\<not> g r"
  shows "update_jobs env P f t d = (Inr 0, d)"
proof -
  have none: "\<not> P q" if "q \<in> set (jobs d)" for q
  proof
    assume "P q"
    then have "sql_eq env (jr_id q) (jr_id r)" and "g q" by (simp_all add: assms(2))
    with assms(1) that have "q = r" by (simp add: job_of_def)
    with \<open>g q\<close> assms(3) show False by simp
  qed
  then have "map (\<lambda>q. if P q then (f q)\<lparr>jr_updatedAt := e_db_clock env t\<rparr> else q) (jobs d) = jobs d"
    by (intro map_idI) simp
  with none show ?thesis by (simp add: update_jobs_def)
qed

lemma update_events_one:
  assumes "event_of env d e ev"
  shows "\<exists>n. update_events env (\<lambda>q. sql_eq env (er_eventId q) e) f t d =
    (Inr n, d\<lparr>events := replace_row ev ((f ev)\<lparr>er_updatedAt := e_db_clock env t\<rparr>) (events d)\<rparr>)"
proof -
  have one: "sql_eq env (er_eventId q) e \<longleftrightarrow> q = ev" if "q \<in> set (events d)" for q
  proof
    assume "q = ev"
    with assms show "sql_eq env (er_eventId q) e" by (simp add: event_of_def sql_eq_def)
  qed (use assms that in \<open>simp add: event_of_def\<close>)
  have "map (\<lambda>q. if sql_eq env (er_eventId q) e
      then (f q)\<lparr>er_updatedAt := e_db_clock env t\<rparr> else q) (events d) =
      replace_row ev ((f ev)\<lparr>er_updatedAt := e_db_clock env t\<rparr>) (events d)"
    unfolding replace_row_def by (rule map_cong) (simp_all add: one)
  then show ?thesis by (simp add: update_events_def)
qed

text \<open>The transition of a job, with its projection.\<close>

definition moved :: "job_row \<Rightarrow> job_row \<Rightarrow> event_row \<Rightarrow> DeliveryStatus \<Rightarrow> db \<Rightarrow> db \<Rightarrow> bool" where
  "moved r r' ev s d d' \<longleftrightarrow>
     (\<exists>t t'. d' = d\<lparr>jobs := replace_row r (r'\<lparr>jr_updatedAt := t\<rparr>) (jobs d),
                    events := replace_row ev (ev\<lparr>er_status := s, er_updatedAt := t'\<rparr>) (events d)\<rparr>)"

lemma runs_stmt_known:
  assumes "no_faults env" and "\<And>t. \<exists>x d'. s t d = (Inr x, d') \<and> Q (Inr x) d'"
  shows "runs (stmtP env s) d Q"
proof (rule runs_stmtP [OF assms(1)])
  fix t e d' assume "s t d = (Inl e, d')"
  with assms(2) [of t] show "Q (Inl e) d" by auto
next
  fix t x d' assume "s t d = (Inr x, d')"
  with assms(2) [of t] show "Q (Inr x) d'" by auto
qed

lemma runs_update_jobs_one:
  assumes "no_faults env" and "job_of env d r ev"
    and "\<And>q. P q \<longleftrightarrow> sql_eq env (jr_id q) (jr_id r) \<and> g q" and "g r"
    and "\<And>n t. 0 < n \<Longrightarrow> Q (Inr n) (d\<lparr>jobs := replace_row r ((f r)\<lparr>jr_updatedAt := t\<rparr>) (jobs d)\<rparr>)"
  shows "runs (stmtP env (update_jobs env P f)) d Q"
proof (rule runs_stmt_known [OF assms(1)])
  fix t
  from update_jobs_one [OF assms(2-4), of f t] assms(5)
  show "\<exists>x d'. update_jobs env P f t d = (Inr x, d') \<and> Q (Inr x) d'" by blast
qed

lemma runs_mirror:
  assumes "no_faults env" and j: "event_of env d e ev"
    and Q: "\<And>t. Q (Inr ()) (d\<lparr>events := replace_row ev (ev\<lparr>er_status := s, er_updatedAt := t\<rparr>) (events d)\<rparr>)"
  shows "runs (updateEventStatus env e s) d Q"
  unfolding updateEventStatus_def
proof (rule runs_mapP, rule runs_stmt_known [OF assms(1)])
  fix t
  from update_events_one [OF j, of "\<lambda>q. q\<lparr>er_status := s\<rparr>" t] Q
  show "\<exists>x d'. update_events env (\<lambda>q. sql_eq env (er_eventId q) e) (\<lambda>q. q\<lparr>er_status := s\<rparr>) t d = (Inr x, d') \<and>
      Q (case Inr x of Inl e \<Rightarrow> Inl e | Inr x \<Rightarrow> Inr ()) d'" by auto
qed

lemma runs_transition:
  assumes "no_faults env" and j: "job_of env d r ev" and id: "jr_id job = jr_id r" "jr_eventId job = jr_eventId r"
    and "\<And>d'. moved r (extra (r\<lparr>jr_status := s\<rparr>)) ev s d d' \<Longrightarrow> Q (Inr ()) d'"
  shows "runs (transition env job s extra) d Q"
  unfolding transition_def id
proof (rule runs_bind, rule runs_update_jobs_one [OF assms(1) j, where g = "\<lambda>_. True"])
  fix n :: nat and t
  let ?d = "d\<lparr>jobs := replace_row r ((extra (r\<lparr>jr_status := s\<rparr>))\<lparr>jr_updatedAt := t\<rparr>) (jobs d)\<rparr>"
  have "runs (updateEventStatus env (jr_eventId r) s) ?d Q"
  proof (rule runs_mirror [OF assms(1)])
    show "event_of env ?d (jr_eventId r) ev" using j by (simp add: job_of_def event_of_def)
  qed (rule assms(5), auto simp: moved_def)
  then show "case Inr n of Inl e \<Rightarrow> Q (Inl e) ?d | Inr x \<Rightarrow> runs (updateEventStatus env (jr_eventId r) s) ?d Q"
    by simp
qed simp_all

section \<open>One delivery attempt\<close>

text \<open>The specification: what an answer of the receiver means for the job.\<close>

definition retryable_reply :: "http_reply \<Rightarrow> bool" where
  "retryable_reply reply =
     (case reply of Inl _ \<Rightarrow> True | Inr r \<Rightarrow> ax_status r \<in> {408, 429} \<or> 500 \<le> ax_status r)"

definition http_status_of :: "http_reply \<Rightarrow> int option" where
  "http_status_of reply = (case reply of Inl _ \<Rightarrow> None | Inr r \<Rightarrow> Some (ax_status r))"

definition next_status :: "env \<Rightarrow> int \<Rightarrow> http_reply \<Rightarrow> DeliveryStatus" where
  "next_status env n reply =
     (if reply_ok reply then DELIVERED
      else if retryable_reply reply \<and> of_int n < budget env then RETRYING
      else DeliveryStatus.FAILED)"

definition outcome_of :: "env \<Rightarrow> int \<Rightarrow> http_reply \<Rightarrow> int \<Rightarrow> DeliveryOutcome" where
  "outcome_of env n reply nx =
     (if reply_ok reply then Delivered_outcome n (http_status_of reply)
      else if \<not> retryable_reply reply then Permanent_failure_outcome n (http_status_of reply)
      else if of_int n < budget env then Retry_scheduled_outcome n nx
      else Exhausted_outcome n)"

text \<open>The attempt's row, once the reply is in.\<close>

definition closed_by :: "attempt_row \<Rightarrow> http_reply \<Rightarrow> bool" where
  "closed_by a reply \<longleftrightarrow>
     ar_status a = (if reply_ok reply then SUCCESS else AttemptStatus.FAILED) \<and>
     ar_httpStatus a = http_status_of reply \<and> ar_completedAt a \<noteq> None \<and>
     (ar_errorType a = None \<longleftrightarrow> reply_ok reply)"

text \<open>
  The database after an attempt: the attempt is closed, the job has its nx status and no
  lock, waits until \<open>nx\<close>, and the event shows the same status. Nothing else has changed.
\<close>

definition settled :: "env \<Rightarrow> job_row \<Rightarrow> event_row \<Rightarrow> http_reply \<Rightarrow> int \<Rightarrow> attempt_row list \<Rightarrow> db \<Rightarrow> db \<Rightarrow> bool" where
  "settled env r ev reply nx as d d' \<longleftrightarrow>
     (\<exists>a t t'. closed_by a reply \<and> ar_eventId a = jr_eventId r \<and> ar_attemptNumber a = jr_attemptCount r \<and>
        d' = d\<lparr>attempts := as @ [a],
               jobs := replace_row r ((unlock (r\<lparr>jr_status := next_status env (jr_attemptCount r) reply,
                 jr_nextAttemptAt := nx\<rparr>))\<lparr>jr_updatedAt := t\<rparr>) (jobs d),
               events := replace_row ev
                 (ev\<lparr>er_status := next_status env (jr_attemptCount r) reply, er_updatedAt := t'\<rparr>) (events d)\<rparr>)"

text \<open>When the job is due again.\<close>

definition next_due :: "env \<Rightarrow> job_row \<Rightarrow> http_reply \<Rightarrow> int \<Rightarrow> bool" where
  "next_due env r reply nx \<longleftrightarrow>
     (if next_status env (jr_attemptCount r) reply = RETRYING
      then \<exists>t. nx = nextAttemptAt (cfg_retry (e_cfg env)) (jr_attemptCount r) (e_clock env t)
      else nx = jr_nextAttemptAt r)"

lemma runs_complete:
  assumes "no_faults env" and as: "attempts d = as @ [a]"
    and fresh: "\<forall>q \<in> set as. \<not> sql_eq env (ar_id q) (ar_id a)" and "ac_completedAt c = None"
    and Q: "\<And>ts. Q (Inr ()) (d\<lparr>attempts := as @ [close_attempt c ts a]\<rparr>)"
  shows "runs (complete env (ar_id a) c) d Q"
proof -
  have "update_attempts (\<lambda>r. sql_eq env (ar_id r) (ar_id a)) (close_attempt c ts) t d =
      (Inr 1, d\<lparr>attempts := as @ [close_attempt c ts a]\<rparr>)" for ts t
  proof -
    have "map (\<lambda>r. if sql_eq env (ar_id r) (ar_id a) then close_attempt c ts r else r) as = as"
      using fresh by (intro map_idI) simp
    moreover have "filter (\<lambda>r. sql_eq env (ar_id r) (ar_id a)) as = []"
      using fresh by (simp add: filter_empty_conv)
    ultimately show ?thesis by (simp add: update_attempts_def as sql_eq_def)
  qed
  then show ?thesis
    unfolding complete_def using assms(1,4) Q
    by (auto intro!: runs_bind runs_nowP runs_stmt_known runs_Ret)
qed

lemma runs_transition_settled:
  assumes "no_faults env" and "job_of env d r ev"
    and s: "s = next_status env (jr_attemptCount r) reply"
    and a: "closed_by a reply" "ar_eventId a = jr_eventId r" "ar_attemptNumber a = jr_attemptCount r"
    and d: "d = base\<lparr>attempts := as @ [a]\<rparr>"
    and x: "extra (r\<lparr>jr_status := s\<rparr>) = unlock (r\<lparr>jr_status := s, jr_nextAttemptAt := nx\<rparr>)"
    and Q: "\<And>d'. settled env r ev reply nx as base d' \<Longrightarrow> Q (Inr ()) d'"
  shows "runs (transition env r s extra) d Q"
proof (rule runs_transition [OF assms(1,2)])
  fix d' assume "moved r (extra (r\<lparr>jr_status := s\<rparr>)) ev s d d'"
  then obtain t t' where "d' = d\<lparr>jobs := replace_row r ((unlock (r\<lparr>jr_status := s, jr_nextAttemptAt := nx\<rparr>))
      \<lparr>jr_updatedAt := t\<rparr>) (jobs d), events := replace_row ev (ev\<lparr>er_status := s, er_updatedAt := t'\<rparr>) (events d)\<rparr>"
    by (auto simp: moved_def x)
  then have "d' = base\<lparr>attempts := as @ [a],
      jobs := replace_row r ((unlock (r\<lparr>jr_status := s, jr_nextAttemptAt := nx\<rparr>))\<lparr>jr_updatedAt := t\<rparr>) (jobs base),
      events := replace_row ev (ev\<lparr>er_status := s, er_updatedAt := t'\<rparr>) (events base)\<rparr>"
    by (simp add: d)
  with a s have "settled env r ev reply nx as base d'" unfolding settled_def by blast
  then show "Q (Inr ()) d'" by (rule Q)
qed simp_all

text \<open>From the result to the end: the five ways an attempt may go.\<close>

lemma close_attempt_closed:
  "reply_ok reply \<Longrightarrow> closed_by (close_attempt \<lparr>ac_status = SUCCESS, ac_httpStatus = http_status_of reply,
     ac_errorType = None, ac_errorMessage = None, ac_completedAt = None\<rparr> ts a) reply"
  "\<not> reply_ok reply \<Longrightarrow> closed_by (close_attempt \<lparr>ac_status = AttemptStatus.FAILED,
     ac_httpStatus = http_status_of reply, ac_errorType = Some k, ac_errorMessage = m,
     ac_completedAt = None\<rparr> ts a) reply"
  by (simp_all add: closed_by_def close_attempt_def)

lemma http_status_result: "wd_httpStatus (delivery_result ms reply) = http_status_of reply"
  by (cases reply) (simp_all add: http_status_of_def)

lemma classify_next:
  "classifyResult (delivery_result ms reply) =
     (if reply_ok reply then Delivered_2xx
      else Failure (if retryable_reply reply then RETRYABLE else PERMANENT))"
  by (cases reply)
     (auto simp: classify_reply classifyHttpStatus_def RETRYABLE_CLIENT_STATUSES_def reply_ok_def
        ok_status_def retryable_reply_def)

lemma unlock_in_place: "unlock (r\<lparr>jr_status := s\<rparr>) = unlock (r\<lparr>jr_status := s, jr_nextAttemptAt := jr_nextAttemptAt r\<rparr>)"
  by (cases r) (simp add: unlock_def)

lemma runs_settle:
  assumes q: "no_faults env" and j: "job_of env d r ev"
    and a0: "ar_eventId a0 = jr_eventId r" "ar_attemptNumber a0 = jr_attemptCount r"
    and fresh: "\<forall>q \<in> set as. \<not> sql_eq env (ar_id q) (ar_id a0)"
    and d: "attempts d = as @ [a0]"
    and Q: "\<And>nx d'. next_due env r reply nx \<Longrightarrow> settled env r ev reply nx as d d' \<Longrightarrow>
      Q (Inr (outcome_of env (jr_attemptCount r) reply nx)) d'"
  shows "runs (settle env r ev (ar_id a0) (jr_attemptCount r) (delivery_result ms reply)) d Q"
proof -
  let ?n = "jr_attemptCount r" and ?res = "delivery_result ms reply"
  have finish: "runs (transition env r s extra) (d\<lparr>attempts := as @ [close_attempt c ts a0]\<rparr>) P"
    if "s = next_status env ?n reply" "closed_by (close_attempt c ts a0) reply"
      "extra (r\<lparr>jr_status := s\<rparr>) = unlock (r\<lparr>jr_status := s, jr_nextAttemptAt := nx\<rparr>)"
      "\<And>d'. settled env r ev reply nx as d d' \<Longrightarrow> P (Inr ()) d'" for s extra c ts nx P
  proof (rule runs_transition_settled [where base = d and a = "close_attempt c ts a0" and as = as and nx = nx])
    show "job_of env (d\<lparr>attempts := as @ [close_attempt c ts a0]\<rparr>) r ev"
      using j by (simp add: job_of_def event_of_def)
    show "ar_eventId (close_attempt c ts a0) = jr_eventId r"
      "ar_attemptNumber (close_attempt c ts a0) = jr_attemptCount r" by (simp_all add: a0)
  qed (rule q that(1) that(2) that(3) refl that(4), assumption?)+
  have close: "runs (complete env (ar_id a0) c) d P"
    if "ac_completedAt c = None" "\<And>ts. P (Inr ()) (d\<lparr>attempts := as @ [close_attempt c ts a0]\<rparr>)" for c P
    by (rule runs_complete [OF q d fresh that(1)]) (rule that(2))
  have exhausted: "isExhausted (cfg_retry (e_cfg env)) ?n \<longleftrightarrow> \<not> of_int ?n < budget env"
    by (simp add: isExhausted_def budget_def not_less)
  consider "reply_ok reply" | "\<not> reply_ok reply" "\<not> retryable_reply reply"
    | "\<not> reply_ok reply" "retryable_reply reply" "of_int ?n < budget env"
    | "\<not> reply_ok reply" "retryable_reply reply" "\<not> of_int ?n < budget env" by blast
  then show ?thesis
  proof cases
    case 1
    then have s: "next_status env ?n reply = DELIVERED" by (simp add: next_status_def)
    with Q [of "jr_nextAttemptAt r"] 1
    have Q': "settled env r ev reply (jr_nextAttemptAt r) as d d' \<Longrightarrow>
        Q (Inr (Delivered_outcome ?n (http_status_of reply))) d'" for d'
      by (simp add: next_due_def outcome_of_def)
    show ?thesis
      using 1 s Q'
      by (auto simp: settle_def classify_next onSuccess_def markDelivered_def http_status_result
          assertTransition_def throwP_def
          intro!: runs_bind close finish [where nx = "jr_nextAttemptAt r"] close_attempt_closed
            unlock_in_place runs_metricP runs_nowP runs_publish runs_Ret)
  next
    case 2
    then have s: "next_status env ?n reply = DeliveryStatus.FAILED" by (simp add: next_status_def)
    with Q [of "jr_nextAttemptAt r"] 2
    have Q': "settled env r ev reply (jr_nextAttemptAt r) as d d' \<Longrightarrow>
        Q (Inr (Permanent_failure_outcome ?n (http_status_of reply))) d'" for d'
      by (simp add: next_due_def outcome_of_def)
    show ?thesis
      using 2 s Q'
      by (auto simp: settle_def classify_next onPermanentFailure_def completeFailedAttempt_def
          markFailed_def http_status_result assertTransition_def throwP_def
          intro!: runs_bind close finish [where nx = "jr_nextAttemptAt r"] close_attempt_closed
            unlock_in_place runs_metricP runs_nowP runs_publish runs_Ret)
  next
    case 3
    then have s: "next_status env ?n reply = RETRYING" by (simp add: next_status_def)
    have Q': "settled env r ev reply (nextAttemptAt (cfg_retry (e_cfg env)) ?n (e_clock env t)) as d d' \<Longrightarrow>
        Q (Inr (Retry_scheduled_outcome ?n (nextAttemptAt (cfg_retry (e_cfg env)) ?n (e_clock env t)))) d'" for t d'
      using Q [of "nextAttemptAt (cfg_retry (e_cfg env)) ?n (e_clock env t)" d'] 3 s
      by (auto simp: next_due_def outcome_of_def)
    have retry: "runs (transition env r RETRYING (\<lambda>q. unlock (q\<lparr>jr_nextAttemptAt := v\<rparr>)))
        (d\<lparr>attempts := as @ [close_attempt c ts a0]\<rparr>) P"
      if "closed_by (close_attempt c ts a0) reply"
        "\<And>d'. settled env r ev reply v as d d' \<Longrightarrow> P (Inr ()) d'" for v c ts P
      by (rule finish [where nx = v]) (simp_all add: s that)
    show ?thesis
      using 3 s Q'
      by (auto simp: settle_def classify_next onRetryableFailure_def publishAttemptFailed_def
          completeFailedAttempt_def onRetry_def exhausted scheduleRetry_def http_status_result
          assertTransition_def throwP_def Let_def
          intro!: runs_bind close retry close_attempt_closed runs_metricP runs_nowP runs_publish runs_Ret)
  next
    case 4
    then have s: "next_status env ?n reply = DeliveryStatus.FAILED" by (simp add: next_status_def)
    with Q [of "jr_nextAttemptAt r"] 4
    have Q': "settled env r ev reply (jr_nextAttemptAt r) as d d' \<Longrightarrow> Q (Inr (Exhausted_outcome ?n)) d'" for d'
      by (simp add: next_due_def outcome_of_def)
    show ?thesis
      using 4 s Q'
      by (auto simp: settle_def classify_next onRetryableFailure_def publishAttemptFailed_def
          completeFailedAttempt_def onExhausted_def exhausted markFailed_def http_status_result
          assertTransition_def throwP_def
          intro!: runs_bind close finish [where nx = "jr_nextAttemptAt r"] close_attempt_closed
            unlock_in_place runs_metricP runs_nowP runs_publish runs_Ret)
  qed
qed

end
