(* ===== verification/Uptime.thy ===== *)
theory Uptime
  imports Runs
begin

text \<open>
  What a node's programs leave true of the world around the database. \<open>runs\<close> says nothing of
  the flags of a node or of the ids still to come; \<open>runs_in J\<close> is \<open>runs\<close> from worlds with \<open>J\<close>, and
  leads to worlds with \<open>J\<close>. The locale \<open>steady_node\<close> states what a predicate on worlds needs
  for the programs of the server to keep it; it is interpreted on every world, on a node that is
  \<open>up\<close> (the worker reads \<open>stopped\<close> before each claim), and on a node that is up with ids to
  come that are on no attempt yet (\<open>ready\<close>).
\<close>

section \<open>Predicates that programs keep\<close>

definition keeps :: "(world \<Rightarrow> bool) \<Rightarrow> 'a io \<Rightarrow> bool" where
  "keeps J p \<longleftrightarrow> (\<forall>w. J w \<longrightarrow> J (snd (run p w)))"

definition runs_in :: "(world \<Rightarrow> bool) \<Rightarrow> 'a io \<Rightarrow> db \<Rightarrow> (exn + 'a \<Rightarrow> db \<Rightarrow> bool) \<Rightarrow> bool" where
  "runs_in J p d Q \<longleftrightarrow>
     (\<forall>w. w_db w = d \<longrightarrow> J w \<longrightarrow> Q (fst (run p w)) (w_db (snd (run p w))) \<and> J (snd (run p w)))"

lemma runs_in_True: "runs_in (\<lambda>_. True) p d Q \<longleftrightarrow> runs p d Q"
  by (simp add: runs_in_def runs_def)

lemma runs_in_by: "keeps J p \<Longrightarrow> runs p d Q \<Longrightarrow> runs_in J p d Q"
  by (simp add: runs_in_def runs_def keeps_def)

lemma runs_in_Ret: "Q (Inr x) d \<Longrightarrow> runs_in J (Ret x) d Q"
  by (simp add: runs_in_def)

lemma runs_in_conseq: "runs_in J p d Q \<Longrightarrow> (\<And>r d'. Q r d' \<Longrightarrow> Q' r d') \<Longrightarrow> runs_in J p d Q'"
  by (auto simp: runs_in_def)

lemma runs_in_bind:
  "runs_in J p d (\<lambda>r d'. case r of Inl e \<Rightarrow> Q (Inl e) d' | Inr x \<Rightarrow> runs_in J (k x) d' Q) \<Longrightarrow>
   runs_in J (bindP p k) d Q"
  by (fastforce simp: runs_in_def run_bindP split: sum.splits prod.splits)

lemma runs_in_catch:
  "runs_in J p d (\<lambda>r d'. case r of Inl e \<Rightarrow> runs_in J (h e) d' Q | Inr x \<Rightarrow> Q (Inr x) d') \<Longrightarrow>
   runs_in J (catchP p h) d Q"
  by (fastforce simp: runs_in_def run_catchP split: sum.splits prod.splits)

lemma runs_in_mapP:
  "runs_in J p d (\<lambda>r d'. Q (case r of Inl e \<Rightarrow> Inl e | Inr x \<Rightarrow> Inr (f x)) d') \<Longrightarrow> runs_in J (mapP f p) d Q"
  unfolding mapP_def
  by (rule runs_in_bind) (fastforce simp: runs_in_def split: sum.splits)

lemma runs_in_attempt:
  "runs_in J p d (\<lambda>r. Q (Inr r)) \<Longrightarrow> runs_in J (attemptP p) d Q"
  by (simp add: runs_in_def run_attemptP split_beta)

lemma runs_in_throwP: "Q r d \<Longrightarrow> runs_in J (throwP r) d Q"
  by (cases r) (simp_all add: throwP_def runs_in_def)

lemma runs_in_finally:
  assumes "runs_in J p d (\<lambda>r d'. runs_in J f d' (\<lambda>r' d''. r' = Inr () \<and> Q r d''))"
  shows "runs_in J (finallyP p f) d Q"
proof -
  have "runs_in J (bindP f (\<lambda>_. throwP r)) d' Q"
    if "runs_in J f d' (\<lambda>r' d''. r' = Inr () \<and> Q r d'')" for r d'
    by (rule runs_in_bind, rule runs_in_conseq [OF that]) (auto intro: runs_in_throwP)
  then show ?thesis
    unfolding finallyP_def
    by (intro runs_in_bind runs_in_attempt, intro runs_in_conseq [OF assms]) (simp add: throwP_def)
qed

named_theorems keeps_intros

lemma keeps_Ret [keeps_intros]: "keeps J (Ret x)"
  by (simp add: keeps_def)

lemma keeps_Raise [keeps_intros]: "keeps J (Raise e)"
  by (simp add: keeps_def)

lemma keeps_throwP [keeps_intros]: "keeps J (throwP r)"
  by (cases r) (simp_all add: throwP_def keeps_intros)

lemma keeps_bind [keeps_intros]: "keeps J p \<Longrightarrow> (\<And>x. keeps J (k x)) \<Longrightarrow> keeps J (bindP p k)"
  by (auto simp: keeps_def run_bindP split: prod.splits sum.splits)

lemma keeps_catch [keeps_intros]: "keeps J p \<Longrightarrow> (\<And>e. keeps J (h e)) \<Longrightarrow> keeps J (catchP p h)"
  by (auto simp: keeps_def run_catchP split: prod.splits sum.splits)

lemma keeps_mapP [keeps_intros]: "keeps J p \<Longrightarrow> keeps J (mapP f p)"
  by (simp add: mapP_def keeps_intros)

lemma keeps_finally [keeps_intros]: "keeps J p \<Longrightarrow> keeps J f \<Longrightarrow> keeps J (finallyP p f)"
  unfolding finallyP_def attemptP_def
  by (intro keeps_intros) (auto intro: keeps_intros split: sum.split)

lemma keeps_forP [keeps_intros]:
  assumes "\<And>x s. keeps J (body x s)"
  shows "keeps J (forP xs body s)"
  using assms by (induction xs arbitrary: s) (simp_all add: keeps_intros)

section \<open>Statements and the ids of attempts\<close>

definition attempt_ids :: "db \<Rightarrow> string set" where
  "attempt_ids d = ar_id ` set (attempts d)"

text \<open>A statement that takes at most the id of its position for a new attempt.\<close>

definition takes_own_id :: "env \<Rightarrow> 'a stmt \<Rightarrow> bool" where
  "takes_own_id env s \<longleftrightarrow>
     (\<forall>t d x d'. s t d = (Inr x, d') \<longrightarrow> attempt_ids d' \<subseteq> insert (e_uuid env t 0) (attempt_ids d))"

lemma takes_own_idD:
  "takes_own_id env s \<Longrightarrow> s t d = (Inr x, d') \<Longrightarrow> attempt_ids d' \<subseteq> insert (e_uuid env t 0) (attempt_ids d)"
  by (auto simp: takes_own_id_def)

named_theorems takes_intros

lemma takes_select [takes_intros]:
  "takes_own_id env (select_events env P)" "takes_own_id env (select_jobs env P')"
  "takes_own_id env (select_attempts env P'')"
  by (auto simp: takes_own_id_def select_events_def select_jobs_def select_attempts_def)

lemma takes_update [takes_intros]:
  "takes_own_id env (update_events env P f)" "takes_own_id env (update_jobs env P' g)"
  by (auto simp: takes_own_id_def update_events_def update_jobs_def attempt_ids_def)

lemma takes_update_attempts [takes_intros]:
  "(\<And>a. ar_id (f a) = ar_id a) \<Longrightarrow> takes_own_id env (update_attempts P f)"
  by (auto simp: takes_own_id_def update_attempts_def attempt_ids_def)

lemma takes_insert_attempt [takes_intros]:
  "(\<And>t. ar_id (mk t) = e_uuid env t 0) \<Longrightarrow> takes_own_id env (insert_attempt_row env mk)"
  by (auto simp: takes_own_id_def insert_attempt_row_def attempt_ids_def Let_def split: if_splits)

lemma takes_ingest [takes_intros]: "takes_own_id env (ingest_work env dto)"
  by (auto simp: takes_own_id_def ingest_work_def bindS_def events_insert_def insert_event_row_def
      insertJob_def insert_job_row_def attempt_ids_def Let_def split: if_splits)

section \<open>What a node's programs keep\<close>

locale steady_node =
  fixes J :: "world \<Rightarrow> bool" and env :: env
  assumes J_node: "J w \<Longrightarrow> wk_stopped (n_worker (f (w_nodes w (e_node env)))) = wk_stopped (n_worker (w_nodes w (e_node env))) \<Longrightarrow>
      J (bump (w\<lparr>w_nodes := (w_nodes w)(e_node env := f (w_nodes w (e_node env)))\<rparr>))"
    and J_db: "J w \<Longrightarrow> attempt_ids d \<subseteq> insert (e_uuid env (w_tick w) 0) (attempt_ids (w_db w)) \<Longrightarrow>
      J (bump (w\<lparr>w_db := d\<rparr>))"
begin

lemma J_bump: "J w \<Longrightarrow> J (bump w)"
  using J_db [of w "w_db w"] by auto

lemma keeps_nowP [keeps_intros]: "keeps J (nowP env)"
  by (simp add: keeps_def run_simps J_bump)

lemma keeps_readNodeP [keeps_intros]: "keeps J (readNodeP env f)"
  by (simp add: keeps_def run_simps J_bump)

lemma keeps_nodeP:
  "(\<And>n. wk_stopped (n_worker (f n)) = wk_stopped (n_worker n)) \<Longrightarrow> keeps J (nodeP env f)"
  by (simp add: keeps_def run_simps J_node)

lemma keeps_metricP [keeps_intros]: "keeps J (metricP env f)"
  unfolding metricP_def by (rule keeps_nodeP) simp

lemma keeps_workerP [keeps_intros]:
  "(\<And>s. wk_stopped (f s) = wk_stopped s) \<Longrightarrow> keeps J (workerP env f)"
  unfolding workerP_def by (rule keeps_nodeP) simp

lemma keeps_gatewayP [keeps_intros]: "keeps J (gatewayP env f)"
  unfolding gatewayP_def by (rule keeps_nodeP) simp

lemma keeps_stmtP [keeps_intros]: "takes_own_id env s \<Longrightarrow> keeps J (stmtP env s)"
  by (auto simp: keeps_def stmtP_def run_tryP Let_def J_bump intro!: J_db dest: takes_own_idD [THEN subsetD]
      split: prod.splits option.splits db_fault.splits sum.splits)

lemma keeps_exchangeP [keeps_intros]: "keeps J (exchangeP env req http)"
  by (auto simp: keeps_def exchangeP_def run_actP Let_def attempt_ids_def intro!: J_db)

lemma keeps_publish [keeps_intros]: "keeps J (publish env ev)"
proof -
  have "keeps J (tryP (\<lambda>w. (case e_socket env (w_tick w) of None \<Rightarrow> Inr () | Some e \<Rightarrow> Inl e, bump w)))"
    by (auto simp: keeps_def run_tryP J_bump split: option.split)
  then have "keeps J (emitP env c ev)" for c ev
    by (auto simp: emitP_def emitWith_def intro!: keeps_intros)
  then show ?thesis
    by (auto simp: publish_def gateway_publish_def Let_def intro!: keeps_intros)
qed

lemma keeps_transition [keeps_intros]: "keeps J (transition env job s extra)"
  by (auto simp: transition_def updateEventStatus_def intro!: keeps_intros takes_intros)

lemma keeps_complete [keeps_intros]: "keeps J (complete env a c)"
  by (auto simp: complete_def intro!: keeps_intros takes_intros split: option.split)

lemma keeps_settle [keeps_intros]: "keeps J (settle env job event a n res)"
  by (auto simp: settle_def onSuccess_def onPermanentFailure_def onRetryableFailure_def onExhausted_def
      onRetry_def completeFailedAttempt_def publishAttemptFailed_def markDelivered_def markFailed_def
      scheduleRetry_def Let_def intro!: keeps_intros split: AttemptOutcome.split FailureClassification.split)

lemma keeps_event_findOne [keeps_intros]: "keeps J (event_findOne env e)"
  by (auto simp: event_findOne_def intro!: keeps_intros takes_intros)

lemma keeps_attempts_start [keeps_intros]: "keeps J (attempts_start env e n)"
  by (auto simp: attempts_start_def intro!: keeps_intros takes_intros)

lemma keeps_send [keeps_intros]: "keeps J (send env req)"
  by (auto simp: send_def intro!: keeps_intros)

lemma keeps_record_result [keeps_intros]: "keeps J (record_result env job event a n res)"
  by (auto simp: record_result_def intro!: keeps_intros split: option.split)

lemma keeps_execute [keeps_intros]: "keeps J (executeClaimedJob env job)"
  by (auto simp: executeClaimedJob_def attempt_delivery_def markFailed_def intro!: keeps_intros
      split: option.split)

lemma keeps_claim [keeps_intros]: "keeps J (claim env j w)"
  by (auto simp: claim_def intro!: keeps_intros takes_intros)

lemma keeps_recover [keeps_intros]: "keeps J (recoverStaleJobs env limit)"
  by (auto simp: recoverStaleJobs_def findStaleJobs_def recoverJob_def closeAbandoned_def
      releaseStaleJob_def updateEventStatus_def Let_def intro!: keeps_intros takes_intros)

lemma keeps_findDue [keeps_intros]: "keeps J (findDueJobIds env limit)"
  by (auto simp: findDueJobIds_def intro!: keeps_intros takes_intros)

lemma keeps_processJob [keeps_intros]: "keeps J (processJob env job)"
  by (auto simp: processJob_def intro!: keeps_intros)

lemma keeps_drainP [keeps_intros]: "keeps J (drainP env ids c)"
  by (induction ids arbitrary: c) (auto intro!: keeps_intros split: option.split)

lemma keeps_tick [keeps_intros]: "keeps J (tick env)"
  by (auto simp: tick_def runOnce_def scheduleNextTick_def Let_def intro!: keeps_intros split: if_splits)

lemma keeps_create [keeps_intros]: "keeps J (create env dto)"
proof -
  have "keeps J (findExistingWithRetry env e n)" for e n
    by (induction n) (auto intro!: keeps_intros split: option.split)
  then show ?thesis
    by (auto simp: create_def ingest_def handleDuplicate_def numeral_3_eq_3 simp del: findExistingWithRetry.simps
        intro!: keeps_intros takes_intros split: option.split)
qed

text \<open>The environment's own actions, as steps of the calculus.\<close>

lemmas env_steps =
  runs_in_by [OF keeps_nowP runs_nowP] runs_in_by [OF keeps_metricP runs_metricP]
  runs_in_by [OF keeps_workerP runs_workerP] runs_in_by [OF keeps_publish runs_publish]

end

section \<open>A node that is not shutting down\<close>

definition up :: "env \<Rightarrow> world \<Rightarrow> bool" where
  "up env w \<longleftrightarrow> \<not> wk_stopped (n_worker (w_nodes w (e_node env)))"

locale steady_worker = steady_node +
  assumes J_up: "J w \<Longrightarrow> up env w"
begin

lemma runs_in_stopped: "Q (Inr False) d \<Longrightarrow> runs_in J (readNodeP env (\<lambda>n. wk_stopped (n_worker n))) d Q"
  using J_up by (auto simp: runs_in_def run_simps up_def J_bump)

end

interpretation anywhere: steady_node "\<lambda>_. True" env for env
  by unfold_locales simp_all

interpretation up: steady_worker "up env" env for env
  by unfold_locales (simp_all add: up_def)

abbreviation up_runs :: "env \<Rightarrow> 'a io \<Rightarrow> db \<Rightarrow> (exn + 'a \<Rightarrow> db \<Rightarrow> bool) \<Rightarrow> bool" where
  "up_runs env \<equiv> runs_in (up env)"

text \<open>The ids to come are distinct, and on no attempt yet.\<close>

definition unique_ids :: "env \<Rightarrow> bool" where
  "unique_ids env \<longleftrightarrow> (\<forall>t t'. sql_eq env (e_uuid env t 0) (e_uuid env t' 0) \<longrightarrow> t = t')"

definition new_ids :: "env \<Rightarrow> world \<Rightarrow> bool" where
  "new_ids env w \<longleftrightarrow>
     (\<forall>t \<ge> w_tick w. \<forall>i \<in> attempt_ids (w_db w). \<not> sql_eq env i (e_uuid env t 0))"

definition ready :: "env \<Rightarrow> world \<Rightarrow> bool" where
  "ready env w \<longleftrightarrow> up env w \<and> unique_ids env \<and> new_ids env w"

interpretation ready: steady_worker "ready env" env for env
proof unfold_locales
  fix w d
  assume r: "ready env w" and d: "attempt_ids d \<subseteq> insert (e_uuid env (w_tick w) 0) (attempt_ids (w_db w))"
  have "\<not> sql_eq env i (e_uuid env t 0)" if i: "i \<in> attempt_ids d" and t: "Suc (w_tick w) \<le> t" for i t
  proof (cases "i = e_uuid env (w_tick w) 0")
    case True
    from r t have "\<not> sql_eq env (e_uuid env (w_tick w) 0) (e_uuid env t 0)"
      unfolding ready_def unique_ids_def by (metis Suc_n_not_le_n)
    with True show ?thesis by simp
  next
    case False
    with i d have "i \<in> attempt_ids (w_db w)" by auto
    with r t show ?thesis by (simp add: ready_def new_ids_def)
  qed
  with r show "ready env (bump (w\<lparr>w_db := d\<rparr>))" by (simp add: ready_def up_def new_ids_def)
qed (auto simp: ready_def up_def new_ids_def)

end
