(* ===== verification/Lifecycle.thy ===== *)
theory Lifecycle
  imports Outcomes Uptime
begin

text \<open>
  The life of one job under the worker's passes, when the pass runs alone and no statement
  fails: the claim takes a due job exactly once, the attempt settles it as the receiver's
  answer demands, and a pass over a table whose other jobs rest claims and settles the one job
  that is due. \<open>passes\<close> iterates the pass: the job is DELIVERED at its first 2xx answer and
  FAILED once the budget is spent, and never before.
\<close>

section \<open>The claim\<close>

definition claimed_row :: "env \<Rightarrow> string \<Rightarrow> job_row \<Rightarrow> job_row \<Rightarrow> bool" where
  "claimed_row env workerId r r' \<longleftrightarrow>
     (\<exists>t s. r' = (claim_row workerId (e_clock env t) r)\<lparr>jr_updatedAt := s\<rparr>)"

lemma claimed_row_fields:
  assumes "claimed_row env w r r'"
  shows "jr_id r' = jr_id r" "jr_eventId r' = jr_eventId r" "jr_status r' = DELIVERING"
    "jr_attemptCount r' = jr_attemptCount r + 1" "jr_lockedBy r' = Some w" "jr_lockedAt r' \<noteq> None"
    "jr_nextAttemptAt r' = jr_nextAttemptAt r"
  using assms by (auto simp: claimed_row_def claim_row_def)

lemma set_replace_row: "r \<in> set rows \<Longrightarrow> set (replace_row r r' rows) = insert r' (set rows - {r})"
  by (auto simp: replace_row_def)

lemma job_of_replace:
  assumes "job_of env d r ev" and "jr_id r' = jr_id r" and "jr_eventId r' = jr_eventId r"
    and "events d' = events d" and "jobs d' = replace_row r r' (jobs d)"
  shows "job_of env d' r' ev"
proof -
  from assms(1) have "r \<in> set (jobs d)" by (simp add: job_of_def)
  then have "set (jobs d') = insert r' (set (jobs d) - {r})" by (simp add: assms(5) set_replace_row)
  with assms show ?thesis by (auto simp: job_of_def event_of_def)
qed

lemma runs_select_job:
  assumes "no_faults env" and "sane_env env" and j: "job_of env d r ev" and "Q (Inr (Some r)) d"
  shows "runs (mapP first_row (stmtP env (select_jobs env (\<lambda>q. sql_eq env (jr_id q) (jr_id r))))) d Q"
proof (rule runs_mapP, rule runs_stmt_known [OF assms(1)])
  fix t
  let ?rows = "filter (\<lambda>q. sql_eq env (jr_id q) (jr_id r)) (e_scan_jobs env t (jobs d))"
  from j have r: "r \<in> set (jobs d)" and one: "\<And>q. q \<in> set (jobs d) \<Longrightarrow> sql_eq env (jr_id q) (jr_id r) \<Longrightarrow> q = r"
    by (auto simp: job_of_def)
  have set: "set ?rows = {q \<in> set (jobs d). sql_eq env (jr_id q) (jr_id r)}"
    using sane_scan(2) [OF assms(2)] by auto
  also have "\<dots> = {r}" using r one by (auto simp: sql_eq_def)
  finally have "first_row ?rows = Some r"
    by (cases ?rows) (auto simp: first_row_def)
  with assms(4)
  show "\<exists>x d'. select_jobs env (\<lambda>q. sql_eq env (jr_id q) (jr_id r)) t d = (Inr x, d') \<and>
      Q (case Inr x of Inl e \<Rightarrow> Inl e | Inr x \<Rightarrow> Inr (first_row x)) d'"
    by (simp add: select_jobs_def)
qed

lemma runs_claim:
  assumes q: "no_faults env" "sane_env env" and j: "job_of env d r ev"
    and due: "\<And>t. due (e_clock env t) r"
    and Q: "\<And>r'. claimed_row env w r r' \<Longrightarrow> Q (Inr (Some r')) (d\<lparr>jobs := replace_row r r' (jobs d)\<rparr>)"
  shows "runs (claim env (jr_id r) w) d Q"
  unfolding claim_def
proof (rule runs_bind, rule runs_nowP, simp, rule runs_bind,
    rule runs_update_jobs_one [OF q(1) j, where g = "\<lambda>x. due (e_clock env _) x"])
  fix t :: nat and n :: nat and s
  let ?r' = "(claim_row w (e_clock env t) r)\<lparr>jr_updatedAt := s\<rparr>"
  let ?d = "d\<lparr>jobs := replace_row r ?r' (jobs d)\<rparr>"
  have r': "claimed_row env w r ?r'" by (auto simp: claimed_row_def)
  assume "0 < n"
  have "job_of env ?d ?r' ev"
    by (rule job_of_replace [OF j]) (simp_all add: claim_row_def)
  then have "runs (mapP first_row (stmtP env (select_jobs env (\<lambda>q. sql_eq env (jr_id q) (jr_id ?r'))))) ?d Q"
    by (rule runs_select_job [OF q]) (rule Q [OF r'])
  with \<open>0 < n\<close> show "case Inr n of Inl e \<Rightarrow> Q (Inl e) ?d
    | Inr x \<Rightarrow> runs (if x = 0 then Ret None
        else mapP first_row (stmtP env (select_jobs env (\<lambda>q. sql_eq env (jr_id q) (jr_id r))))) ?d Q"
    by (simp add: claim_row_def)
qed (use due in simp_all)

lemma runs_claim_refused:
  assumes "no_faults env" and j: "job_of env d r ev" and "\<And>t. \<not> due (e_clock env t) r"
    and "Q (Inr None) d"
  shows "runs (claim env (jr_id r) w) d Q"
  unfolding claim_def
proof (rule runs_bind, rule runs_nowP, simp, rule runs_bind, rule runs_stmt_known [OF assms(1)])
  fix t t'
  show "\<exists>x d'. update_jobs env (\<lambda>q. sql_eq env (jr_id q) (jr_id r) \<and> due (e_clock env t) q)
      (claim_row w (e_clock env t)) t' d = (Inr x, d') \<and>
      (case Inr x of Inl e \<Rightarrow> Q (Inl e) d'
       | Inr affected \<Rightarrow> runs (if affected = 0 then Ret None
          else mapP first_row (stmtP env (select_jobs env (\<lambda>q. sql_eq env (jr_id q) (jr_id r))))) d' Q)"
    using update_jobs_none [OF j, where g = "due (e_clock env t)"] assms(3,4)
    by (auto intro: runs_Ret)
qed

section \<open>One attempt\<close>

lemma runs_find_known:
  assumes q: "no_faults env" "sane_env env" and ev: "event_of env d e ev" and Q: "Q (Inr (Some ev)) d"
  shows "runs (event_findOne env e) d Q"
proof (rule runs_event_findOne [OF q])
  fix found
  assume none: "found = None \<longrightarrow> \<not> known_event env e d"
    and some: "\<forall>ev. found = Some ev \<longrightarrow> ev \<in> set (events d) \<and> sql_eq env (er_eventId ev) e"
  have "known_event env e d" using ev by (auto simp: event_of_def known_event_def sql_eq_def)
  with none obtain ev' where found: "found = Some ev'" by (cases found) auto
  with some ev have "ev' = ev" by (simp add: event_of_def)
  with Q found show "Q (Inr found) d" by simp
qed

text \<open>No attempt of this number is on record, and the ids to come are new.\<close>

definition unattempted :: "env \<Rightarrow> string \<Rightarrow> int \<Rightarrow> db \<Rightarrow> bool" where
  "unattempted env e n d \<longleftrightarrow>
     (\<forall>a \<in> set (attempts d). \<not> (sql_eq env (ar_eventId a) e \<and> ar_attemptNumber a = n))"

lemma runs_attempts_start:
  assumes "no_faults env" and "event_of env d e ev"
    and "\<forall>t. \<forall>a \<in> set (attempts d). \<not> sql_eq env (ar_id a) (e_uuid env t 0)" and "unattempted env e n d"
    and Q: "\<And>a. ar_eventId a = e \<Longrightarrow> ar_attemptNumber a = n \<Longrightarrow>
      \<forall>q \<in> set (attempts d). \<not> sql_eq env (ar_id q) (ar_id a) \<Longrightarrow>
      Q (Inr a) (d\<lparr>attempts := attempts d @ [a]\<rparr>)"
  shows "runs (attempts_start env e n) d Q"
  unfolding attempts_start_def
proof (rule runs_bind, rule runs_nowP, simp, rule runs_stmt_known [OF assms(1)])
  fix t t'
  let ?a = "new_attempt env e n (e_clock env t) t'"
  have ids: "\<forall>q \<in> set (attempts d). \<not> sql_eq env (ar_id q) (ar_id ?a)"
    using assms(3) by simp
  with assms(4) have "\<not> list_ex (\<lambda>r. (sql_eq env (ar_eventId r) e \<and> ar_attemptNumber r = n) \<or>
      sql_eq env (ar_id r) (ar_id ?a)) (attempts d)"
    by (auto simp: list_ex_iff unattempted_def)
  moreover have "\<not> fk_violated env e d"
    using assms(2) by (auto simp: fk_violated_def list_ex_iff event_of_def sql_eq_def)
  ultimately have "insert_attempt_row env (new_attempt env e n (e_clock env t)) t' d =
      (Inr ?a, d\<lparr>attempts := attempts d @ [?a]\<rparr>)"
    by (simp add: insert_attempt_row_def Let_def)
  with Q [OF _ _ ids]
  show "\<exists>x d'. insert_attempt_row env (new_attempt env e n (e_clock env t)) t' d = (Inr x, d') \<and> Q (Inr x) d'"
    by simp
qed

text \<open>The exchange an attempt leaves on the wire.\<close>

definition sent_as :: "env \<Rightarrow> event_row \<Rightarrow> int \<Rightarrow> http_reply \<Rightarrow> exchange \<Rightarrow> bool" where
  "sent_as env ev n reply x \<longleftrightarrow>
     wx_delivery x = delivery_request ev n \<and> wx_reply x = reply \<and>
     (\<exists>t. reply = e_exchange env t (wx_request x)) \<and>
     (\<exists>t. wx_request x = webhook_request (cfg_webhook (e_cfg env)) (e_hmac env) (e_clock env t) (wx_delivery x))"

lemma runs_send:
  assumes "\<And>ms reply x. sent_as env ev n reply x \<Longrightarrow>
    Q (Inr (delivery_result ms reply)) (d\<lparr>wire := wire d @ [x]\<rparr>)"
  shows "runs (send env (delivery_request ev n)) d Q"
  unfolding send_def
  by (auto intro!: runs_bind runs_nowP runs_exchangeP runs_Ret assms simp: sent_as_def; blast)

text \<open>An attempt can be opened: the row is inserted, under an id of its own.\<close>

definition opens_attempt :: "(world \<Rightarrow> bool) \<Rightarrow> env \<Rightarrow> string \<Rightarrow> int \<Rightarrow> db \<Rightarrow> bool" where
  "opens_attempt J env e n d \<longleftrightarrow>
     runs_in J (attempts_start env e n) d (\<lambda>r d'. \<exists>a. r = Inr a \<and>
       ar_eventId a = e \<and> ar_attemptNumber a = n \<and>
       (\<forall>q \<in> set (attempts d). \<not> sql_eq env (ar_id q) (ar_id a)) \<and>
       d' = d\<lparr>attempts := attempts d @ [a]\<rparr>)"

lemma opens_anywhere:
  assumes "no_faults env" and "event_of env d e ev" and "fresh_uuids env d" and "unattempted env e n d"
  shows "opens_attempt (\<lambda>_. True) env e n d"
  unfolding opens_attempt_def runs_in_True
  by (rule runs_attempts_start [OF assms(1,2) _ assms(4)]) (use assms(3) in \<open>auto simp: fresh_uuids_def\<close>)

context steady_node
begin

lemma runs_in_execute:
  assumes q: "no_faults env" "sane_env env" and j: "job_of env d r ev"
    and opens: "opens_attempt J env (jr_eventId r) (jr_attemptCount r) d"
    and Q: "\<And>reply x nx d'. sent_as env ev (jr_attemptCount r) reply x \<Longrightarrow> next_due env r reply nx \<Longrightarrow>
      settled env r ev reply nx (attempts d) (d\<lparr>wire := wire d @ [x]\<rparr>) d' \<Longrightarrow>
      Q (Inr (outcome_of env (jr_attemptCount r) reply nx)) d'"
  shows "runs_in J (executeClaimedJob env r) d Q"
proof -
  let ?n = "jr_attemptCount r"
  have ev: "event_of env d (jr_eventId r) ev" using j by (simp add: job_of_def)
  have settle: "runs (settle env r ev (ar_id a) ?n (delivery_result ms reply))
      (d\<lparr>attempts := attempts d @ [a], wire := wire d @ [x]\<rparr>) Q"
    if a: "ar_eventId a = jr_eventId r" "ar_attemptNumber a = ?n"
      "\<forall>q \<in> set (attempts d). \<not> sql_eq env (ar_id q) (ar_id a)"
      and x: "sent_as env ev ?n reply x" for a ms reply x
  proof (rule runs_settle [OF q(1) _ a])
    show "job_of env (d\<lparr>attempts := attempts d @ [a], wire := wire d @ [x]\<rparr>) r ev"
      using j by (simp add: job_of_def event_of_def)
    fix nx d'
    assume nx: "next_due env r reply nx"
      and "settled env r ev reply nx (attempts d) (d\<lparr>attempts := attempts d @ [a], wire := wire d @ [x]\<rparr>) d'"
    then have "settled env r ev reply nx (attempts d) (d\<lparr>wire := wire d @ [x]\<rparr>) d'"
      by (simp add: settled_def)
    with Q x nx show "Q (Inr (outcome_of env ?n reply nx)) d'" by blast
  qed simp
  have recorded: "runs_in J (record_result env r ev (ar_id a) ?n (delivery_result ms reply))
      (d\<lparr>attempts := attempts d @ [a], wire := wire d @ [x]\<rparr>) Q"
    if "ar_eventId a = jr_eventId r" "ar_attemptNumber a = ?n"
      "\<forall>q \<in> set (attempts d). \<not> sql_eq env (ar_id q) (ar_id a)" "sent_as env ev ?n reply x"
    for a ms reply x
  proof (rule runs_in_by [OF keeps_record_result])
    show "runs (record_result env r ev (ar_id a) ?n (delivery_result ms reply))
        (d\<lparr>attempts := attempts d @ [a], wire := wire d @ [x]\<rparr>) Q"
      unfolding record_result_def
      by (auto intro!: runs_bind runs_metricP runs_Ret settle that split: option.split)
  qed
  have attempt: "runs_in J (attempt_delivery env r ev ?n) d Q"
    unfolding attempt_delivery_def
    by (intro runs_in_bind, rule runs_in_conseq [OF opens [unfolded opens_attempt_def]])
       (auto intro!: runs_in_bind env_steps runs_in_by [OF keeps_send runs_send] recorded)
  then show ?thesis
    unfolding executeClaimedJob_def
    by (auto intro!: runs_in_bind runs_in_by [OF keeps_event_findOne runs_find_known [OF q ev]] attempt)
qed

end

lemma runs_execute:
  assumes "no_faults env" "sane_env env" and "job_of env d r ev" and "fresh_uuids env d"
    and "unattempted env (jr_eventId r) (jr_attemptCount r) d"
    and "\<And>reply x nx d'. sent_as env ev (jr_attemptCount r) reply x \<Longrightarrow> next_due env r reply nx \<Longrightarrow>
      settled env r ev reply nx (attempts d) (d\<lparr>wire := wire d @ [x]\<rparr>) d' \<Longrightarrow>
      Q (Inr (outcome_of env (jr_attemptCount r) reply nx)) d'"
  shows "runs (executeClaimedJob env r) d Q"
proof -
  have "event_of env d (jr_eventId r) ev" using assms(3) by (simp add: job_of_def)
  from opens_anywhere [OF assms(1) this assms(4,5)] assms(6)
  have "runs_in (\<lambda>_. True) (executeClaimedJob env r) d Q"
    by (rule anywhere.runs_in_execute [OF assms(1-3)])
  then show ?thesis by (simp add: runs_in_True)
qed

end
