(* ===== verification/Passes.thy ===== *)
theory Passes
  imports Lifecycle
begin

text \<open>
  Passes of the worker that run alone on a node that is up. A pass over a table whose other jobs
  rest claims the one job that is due and gives it one attempt; \<open>passes\<close> iterates that, and
  \<open>fate\<close> specifies where the job then stands: DELIVERED at the first 2xx answer, FAILED at a
  permanent one or once the budget is spent, RETRYING before.
\<close>

section \<open>One pass over a table with one open job\<close>

definition sole_open :: "db \<Rightarrow> job_row \<Rightarrow> bool" where
  "sole_open d r \<longleftrightarrow>
     r \<in> set (jobs d) \<and> (\<forall>q \<in> set (jobs d). q = r \<or> isTerminal (jr_status q))"

lemma runs_recover_none:
  assumes "no_faults env" and "sane_env env" and "\<forall>q \<in> set (jobs d). jr_status q \<noteq> DELIVERING"
    and "Q (Inr 0) d"
  shows "runs (recoverStaleJobs env limit) d Q"
proof -
  have "filter (lease_expired cutoff) (e_scan_jobs env t (jobs d)) = []" for cutoff t
    using sane_scan(2) [OF assms(2)] assms(3) by (auto simp: filter_empty_conv lease_expired_def)
  then have "select_jobs env (lease_expired cutoff) t d = (Inr [], d)" for cutoff t
    by (simp add: select_jobs_def)
  then show ?thesis
    unfolding recoverStaleJobs_def findStaleJobs_def Let_def
    by (auto intro!: runs_bind runs_nowP runs_mapP runs_stmt_known runs_Ret assms
        simp: sql_order_def sql_take_def)
qed

lemma runs_findDue_none:
  assumes "no_faults env" and "sane_env env" and "\<And>t. \<forall>q \<in> set (jobs d). \<not> due (e_clock env t) q"
    and "Q (Inr []) d"
  shows "runs (findDueJobIds env limit) d Q"
proof -
  have "filter (due (e_clock env s)) (e_scan_jobs env t (jobs d)) = []" for s t
    using sane_scan(2) [OF assms(2)] assms(3) by (auto simp: filter_empty_conv)
  then have "select_jobs env (due (e_clock env s)) t d = (Inr [], d)" for s t
    by (simp add: select_jobs_def)
  then show ?thesis
    unfolding findDueJobIds_def
    by (auto intro!: runs_bind runs_nowP runs_stmt_known runs_Ret assms simp: sql_order_def sql_take_def)
qed

lemma filter_one:
  assumes "mset xs = mset ys" and "distinct ys" and "r \<in> set ys"
    and "P r" and "\<And>q. q \<in> set ys \<Longrightarrow> P q \<Longrightarrow> q = r"
  shows "filter P xs = [r]"
proof -
  have "set xs = set ys" by (rule mset_eq_setD [OF assms(1)])
  moreover have "{q \<in> set ys. P q} = {r}" using assms(3-5) by blast
  ultimately have set: "set (filter P xs) = {r}" by (simp only: set_filter)
  have "distinct xs" using mset_eq_imp_distinct_iff [OF assms(1)] assms(2) by blast
  then have "distinct (filter P xs)" by (rule distinct_filter)
  then have "length (filter P xs) = card (set (filter P xs))" by (rule distinct_card [symmetric])
  also have "\<dots> = Suc 0" by (simp only: set) simp
  finally obtain y where "filter P xs = [y]" unfolding length_Suc_conv by blast
  moreover from this have "{y} = {r}" using set by (simp only: list.set)
  ultimately show ?thesis by simp
qed

lemma runs_findDue_one:
  assumes "no_faults env" and "sane_env env" and "wf_db (e_fold env) d" and o: "sole_open d r"
    and due: "\<And>t. due (e_clock env t) r" and b: "limit = of_nat b" "0 < b" and "Q (Inr [jr_id r]) d"
  shows "runs (findDueJobIds env limit) d Q"
proof -
  have "distinct (map (\<lambda>r. e_fold env (jr_id r)) (jobs d))" using assms(3) by (simp add: wf_db_def)
  then have "distinct (jobs d)" by (simp add: distinct_map)
  moreover have "q = r" if "q \<in> set (jobs d)" "due t q" for q t
    using o that by (auto simp: sole_open_def due_def CLAIMABLE_STATUSES_def isTerminal_def TERMINAL_STATUSES_def)
  ultimately have "filter (due (e_clock env s)) (e_scan_jobs env t (jobs d)) = [r]" for s t
    using assms(2) o due by (intro filter_one [where ys = "jobs d"]) (auto simp: sane_env_def sole_open_def)
  then have "select_jobs env (due (e_clock env s)) t d = (Inr [r], d)" for s t
    by (simp add: select_jobs_def)
  moreover have "sql_take env limit [r] = [r]"
    using assms(2) b by (simp add: sql_take_def sane_env_def)
  ultimately show ?thesis
    unfolding findDueJobIds_def
    by (auto intro!: runs_bind runs_nowP runs_stmt_known runs_Ret assms simp: sql_order_def)
qed

lemma sorted_take_drop:
  fixes f :: "'a \<Rightarrow> int"
  assumes "sorted (map f xs)" and "r \<in> set (take b xs)" and "q \<in> set (drop b xs)"
  shows "f r \<le> f q"
proof -
  have "sorted (map f (take b xs) @ map f (drop b xs))"
    using assms(1) by (simp flip: map_append)
  with assms(2,3) show ?thesis by (auto simp: sorted_append)
qed

lemma distinct_ids_taken:
  assumes "wf_db ci d" and "mset rows = mset (jobs d)"
  shows "distinct (map jr_id (take b (sort_key f (filter P rows))))"
proof -
  have "distinct (map (\<lambda>r. ci (jr_id r)) (jobs d))" using assms(1) by (simp add: wf_db_def)
  then have "distinct (map ci (map jr_id (jobs d)))" by (simp add: comp_def)
  then have "distinct (map jr_id (jobs d))" by (simp only: distinct_map)
  then have "distinct (map jr_id rows)"
    using assms(2) by (metis mset_eq_imp_distinct_iff mset_map)
  then have "distinct (map jr_id (filter P rows))" by (rule distinct_map_filter)
  then show ?thesis by (metis distinct_take mset_eq_imp_distinct_iff mset_map mset_sort take_map)
qed

text \<open>What a pass reads: the earliest due jobs, up to the limit, each once.\<close>

lemma runs_findDue_batch:
  assumes "no_faults env" and "sane_env env" and "wf_db (e_fold env) d" and "limit = of_nat b" and "0 < b"
  shows "runs (findDueJobIds env limit) d (\<lambda>res d'. \<exists>rows t. res = Inr (map jr_id rows) \<and> d' = d \<and>
    distinct (map jr_id rows) \<and> length rows = min b (length (filter (due (e_clock env t)) (jobs d))) \<and>
    (\<forall>r \<in> set rows. r \<in> set (jobs d) \<and> jr_status r \<in> set CLAIMABLE_STATUSES \<and>
       jr_nextAttemptAt r \<le> e_clock env t) \<and>
    sorted (map jr_nextAttemptAt rows) \<and>
    (\<forall>r \<in> set rows. \<forall>q \<in> set (jobs d) - set rows.
       due (e_clock env t) q \<longrightarrow> jr_nextAttemptAt r \<le> jr_nextAttemptAt q))"
proof -
  let ?P = "\<lambda>res d'. \<exists>rows t. res = Inr (map jr_id rows) \<and> d' = d \<and>
    distinct (map jr_id rows) \<and> length rows = min b (length (filter (due (e_clock env t)) (jobs d))) \<and>
    (\<forall>r \<in> set rows. r \<in> set (jobs d) \<and> jr_status r \<in> set CLAIMABLE_STATUSES \<and>
       jr_nextAttemptAt r \<le> e_clock env t) \<and>
    sorted (map jr_nextAttemptAt rows) \<and>
    (\<forall>r \<in> set rows. \<forall>q \<in> set (jobs d) - set rows.
       due (e_clock env t) q \<longrightarrow> jr_nextAttemptAt r \<le> jr_nextAttemptAt q)"
  have step: "?P (Inr (map jr_id (sql_take env (of_nat b) (sql_order jr_nextAttemptAt
      (filter (due (e_clock env s)) (e_scan_jobs env t (jobs d))))))) d" for s t
  proof -
    let ?due = "filter (due (e_clock env s)) (e_scan_jobs env t (jobs d))"
    let ?rows = "take b (sort_key jr_nextAttemptAt ?due)"
    have scan: "mset (e_scan_jobs env t (jobs d)) = mset (jobs d)" using assms(2) by (simp add: sane_env_def)
    then have len: "length ?due = length (filter (due (e_clock env s)) (jobs d))"
      by (metis mset_filter size_mset)
    have set: "set ?due = {r \<in> set (jobs d). due (e_clock env s) r}"
      by (simp add: sane_scan(2) [OF assms(2)])
    have rows: "sql_take env (of_nat b) (sql_order jr_nextAttemptAt ?due) = ?rows"
    proof -
      have "e_limit env (of_nat b) (length ?due) = min b (length ?due)"
        using assms(2,5) unfolding sane_env_def by blast
      then show ?thesis by (simp add: sql_take_def sql_order_def) (simp add: take_all_iff min_def)
    qed
    have d: "distinct (map jr_id ?rows)" by (rule distinct_ids_taken [OF assms(3) scan])
    have s: "sorted (map jr_nextAttemptAt (sort_key jr_nextAttemptAt ?due))" by simp
    then have "sorted (map jr_nextAttemptAt ?rows)" by (simp only: take_map [symmetric] sorted_wrt_take)
    moreover have "jr_nextAttemptAt r \<le> jr_nextAttemptAt q"
      if "r \<in> set ?rows" "q \<in> set (jobs d) - set ?rows" "due (e_clock env s) q" for r q
    proof -
      have "q \<in> set (sort_key jr_nextAttemptAt ?due)" using that set by simp
      then have "q \<in> set (drop b (sort_key jr_nextAttemptAt ?due))"
        using that(2) by (metis Diff_iff UnE append_take_drop_id set_append)
      with s that(1) show ?thesis by (rule sorted_take_drop)
    qed
    moreover have "r \<in> set (jobs d) \<and> jr_status r \<in> set CLAIMABLE_STATUSES \<and> jr_nextAttemptAt r \<le> e_clock env s"
      if "r \<in> set ?rows" for r
    proof -
      have "r \<in> set ?due" using in_set_takeD [OF that] by simp
      then show ?thesis unfolding set due_def by blast
    qed
    moreover have "length ?rows = min b (length (filter (due (e_clock env s)) (jobs d)))"
      using len by (simp add: min.commute)
    ultimately show ?thesis using d unfolding rows by blast
  qed
  have "runs (findDueJobIds env (of_nat b)) d ?P"
    unfolding findDueJobIds_def
    by (rule runs_bind, rule runs_nowP, simp only: sum.case, rule runs_bind, rule runs_stmt_known [OF assms(1)],
        unfold select_jobs_def, intro exI conjI, rule refl, simp only: sum.case, rule runs_Ret, rule step)
  then show ?thesis unfolding assms(4) .
qed

text \<open>What one attempt changes: the job, its event, one more attempt on record, one more exchange.\<close>

definition attempted :: "env \<Rightarrow> job_row \<Rightarrow> event_row \<Rightarrow> job_row \<Rightarrow> http_reply \<Rightarrow> db \<Rightarrow> db \<Rightarrow> bool" where
  "attempted env r ev r1 reply d d' \<longleftrightarrow>
     (\<exists>ev1 a x. d' = d\<lparr>jobs := replace_row r r1 (jobs d), events := replace_row ev ev1 (events d),
          attempts := attempts d @ [a], wire := wire d @ [x]\<rparr> \<and>
        jr_id r1 = jr_id r \<and> jr_eventId r1 = jr_eventId r \<and>
        jr_attemptCount r1 = jr_attemptCount r + 1 \<and>
        jr_status r1 = next_status env (jr_attemptCount r + 1) reply \<and>
        jr_lockedAt r1 = None \<and> jr_lockedBy r1 = None \<and>
        (if jr_status r1 = RETRYING
         then \<exists>t. jr_nextAttemptAt r1 = nextAttemptAt (cfg_retry (e_cfg env)) (jr_attemptCount r + 1) (e_clock env t)
         else jr_nextAttemptAt r1 = jr_nextAttemptAt r) \<and>
        event_le ev ev1 \<and> er_status ev1 = jr_status r1 \<and>
        closed_by a reply \<and> ar_eventId a = jr_eventId r \<and> ar_attemptNumber a = jr_attemptCount r + 1 \<and>
        sent_as env ev (jr_attemptCount r + 1) reply x)"

lemma replace_replace:
  assumes "r' \<in> set rows \<Longrightarrow> r' = r"
  shows "replace_row r' r1 (replace_row r r' rows) = replace_row r r1 rows"
  using assms by (induction rows) (auto simp: replace_row_def)

lemma attempted_settled:
  assumes c: "claimed_row env w r r'" and j: "job_of env d r ev"
    and s: "sent_as env ev (jr_attemptCount r') reply x" and nx: "next_due env r' reply nx"
    and d': "settled env r' ev reply nx (attempts d)
      (d\<lparr>jobs := replace_row r r' (jobs d), wire := wire d @ [x]\<rparr>) d'"
  shows "\<exists>r1. attempted env r ev r1 reply d d'"
proof -
  note f = claimed_row_fields [OF c]
  from d' obtain a t t' where a: "closed_by a reply" "ar_eventId a = jr_eventId r" "ar_attemptNumber a = jr_attemptCount r + 1"
    and d'': "d' = d\<lparr>wire := wire d @ [x], attempts := attempts d @ [a],
           jobs := replace_row r ((unlock (r'\<lparr>jr_status := next_status env (jr_attemptCount r + 1) reply,
              jr_nextAttemptAt := nx\<rparr>))\<lparr>jr_updatedAt := t\<rparr>) (jobs d),
           events := replace_row ev (ev\<lparr>er_status := next_status env (jr_attemptCount r + 1) reply,
              er_updatedAt := t'\<rparr>) (events d)\<rparr>"
  proof -
    have "r' = r" if "r' \<in> set (jobs d)" using j that f(1) by (auto simp: job_of_def sql_eq_def)
    then have "replace_row r' q (replace_row r r' (jobs d)) = replace_row r q (jobs d)" for q
      by (rule replace_replace)
    then show ?thesis using d' f unfolding settled_def by (elim exE conjE, intro that) simp_all
  qed
  then show ?thesis
    using s nx f
    unfolding attempted_def next_due_def
    by (intro exI [of _ "(unlock (r'\<lparr>jr_status := next_status env (jr_attemptCount r + 1) reply,
              jr_nextAttemptAt := nx\<rparr>))\<lparr>jr_updatedAt := t\<rparr>"]
            exI [of _ "ev\<lparr>er_status := next_status env (jr_attemptCount r + 1) reply, er_updatedAt := t'\<rparr>"]
            exI [of _ a] exI [of _ x])
       (cases "next_status env (jr_attemptCount r + 1) reply = RETRYING",
         simp_all add: unlock_def event_le_def delivery_request_def a)
qed

text \<open>
  What a pass needs of its environment: nothing fails, the ids to come are new, the batch is a
  positive integer, and the clock has reached the job's due time.
\<close>

definition pass_env :: "env \<Rightarrow> db \<Rightarrow> job_row \<Rightarrow> bool" where
  "pass_env env d r \<longleftrightarrow>
     no_faults env \<and> sane_env env \<and> fresh_uuids env d \<and>
     (\<exists>b > 0. batchSize (cfg_worker (e_cfg env)) = of_nat b) \<and>
     (\<forall>t. jr_nextAttemptAt r \<le> e_clock env t)"

lemma wf_one_job:
  assumes "wf_db ci d" and "r \<in> set (jobs d)" and "q \<in> set (jobs d)" and "ci (jr_eventId q) = ci (jr_eventId r)"
  shows "q = r"
proof -
  have "distinct (map ci (map er_eventId (events d)))" and "map jr_eventId (jobs d) = map er_eventId (events d)"
    using assms(1) by (simp_all add: wf_db_def comp_def)
  then have "distinct (map ci (map jr_eventId (jobs d)))" by simp
  then have "distinct (map (\<lambda>r. ci (jr_eventId r)) (jobs d))" by (simp add: comp_def)
  from distinct_map_eq [OF this assms(3,2)] assms(4) show ?thesis by simp
qed

lemma wf_unattempted:
  assumes "wf_db (e_fold env) d" and "r \<in> set (jobs d)"
  shows "unattempted env (jr_eventId r) (jr_attemptCount r + 1) d"
  unfolding unattempted_def
proof
  fix a assume a: "a \<in> set (attempts d)"
  show "\<not> (sql_eq env (ar_eventId a) (jr_eventId r) \<and> ar_attemptNumber a = jr_attemptCount r + 1)"
  proof
    assume eq: "sql_eq env (ar_eventId a) (jr_eventId r) \<and> ar_attemptNumber a = jr_attemptCount r + 1"
    from assms(1) a have "counted (ar_eventId a) (ar_attemptNumber a) d" by (simp add: wf_db_def)
    then obtain q where q: "q \<in> set (jobs d)" "jr_eventId q = ar_eventId a" "ar_attemptNumber a \<le> jr_attemptCount q"
      by (auto simp: counted_def)
    from wf_one_job [OF assms(1,2) q(1)] q(2) eq have "q = r" by (simp add: sql_eq_def)
    with q(3) eq show False by simp
  qed
qed

context steady_node
begin

lemma runs_in_process:
  assumes env: "no_faults env" "sane_env env" and j: "job_of env d r ev" and c: "claimed_row env w r r'"
    and opens: "opens_attempt J env (jr_eventId r) (jr_attemptCount r + 1) (d\<lparr>jobs := replace_row r r' (jobs d)\<rparr>)"
    and Q: "\<And>d' reply r1. attempted env r ev r1 reply d d' \<Longrightarrow> Q (Inr 1) d'"
  shows "runs_in J (processJob env r') (d\<lparr>jobs := replace_row r r' (jobs d)\<rparr>) Q"
proof -
  let ?d = "d\<lparr>jobs := replace_row r r' (jobs d)\<rparr>"
  note f = claimed_row_fields [OF c]
  have j': "job_of env ?d r' ev" by (rule job_of_replace [OF j]) (simp_all add: f)
  have n: "opens_attempt J env (jr_eventId r') (jr_attemptCount r') ?d" using opens by (simp add: f)
  show ?thesis
    unfolding processJob_def
  proof (rule runs_in_catch, rule runs_in_mapP, rule runs_in_execute [OF env j' n])
    fix reply x nx d'
    assume "sent_as env ev (jr_attemptCount r') reply x" "next_due env r' reply nx"
      "settled env r' ev reply nx (attempts ?d) (?d\<lparr>wire := wire ?d @ [x]\<rparr>) d'"
    then have "\<exists>r1. attempted env r ev r1 reply d d'"
      by (intro attempted_settled [OF c j]) simp_all
    with Q show "case case Inr (outcome_of env (jr_attemptCount r') reply nx) of
        Inl e \<Rightarrow> Inl e | Inr x \<Rightarrow> Inr 1 of Inl e \<Rightarrow> runs_in J (Ret 0) d' Q | Inr x \<Rightarrow> Q (Inr x) d'"
      by auto
  qed
qed

end

context steady_worker
begin

text \<open>One step of the drain: the first id is a due job, and is claimed and given one attempt.\<close>

lemma runs_in_drain_step:
  assumes env: "no_faults env" "sane_env env" and j: "job_of env d r ev" and due: "\<And>t. due (e_clock env t) r"
    and opens: "\<And>d'. events d' = events d \<Longrightarrow> attempts d' = attempts d \<Longrightarrow>
      opens_attempt J env (jr_eventId r) (jr_attemptCount r + 1) d'"
    and rest: "\<And>d' reply r1. attempted env r ev r1 reply d d' \<Longrightarrow>
      runs_in J (drainP env ids (c + 1, p + 1)) d' Q"
  shows "runs_in J (drainP env (jr_id r # ids) (c, p)) d Q"
proof -
  have "runs_in J (processJob env r') (d\<lparr>jobs := replace_row r r' (jobs d)\<rparr>)
      (\<lambda>x d'. case x of Inl e \<Rightarrow> Q (Inl e) d' | Inr x \<Rightarrow> runs_in J (drainP env ids (Suc c, p + x)) d' Q)"
    if "claimed_row env (worker_id (cfg_worker (e_cfg env))) r r'" for r'
    by (rule runs_in_process [OF env j that]) (use rest opens in auto)
  then show ?thesis
    by (auto intro!: runs_in_bind runs_in_stopped runs_in_by [OF keeps_claim runs_claim [OF env j due]])
qed

text \<open>A pass that finds no expired lease drains the ids it reads.\<close>

lemma runs_in_runOnce:
  assumes env: "no_faults env" "sane_env env" and idle: "\<forall>q \<in> set (jobs d). jr_status q \<noteq> DELIVERING"
    and found: "runs (findDueJobIds env (batchSize (cfg_worker (e_cfg env)))) d (\<lambda>x d'. d' = d \<and> (\<exists>ids. x = Inr ids \<and> S ids))"
    and drain: "\<And>ids. S ids \<Longrightarrow> runs_in J (drainP env ids (0, 0)) d (\<lambda>x d'. \<exists>c p. x = Inr (c, p) \<and> R c p d')"
    and Q: "\<And>res d'. R (tr_claimed res) (tr_processed res) d' \<Longrightarrow> tr_recovered res = 0 \<Longrightarrow> Q (Inr res) d'"
  shows "runs_in J (runOnce env) d Q"
proof -
  have drain': "runs_in J (drainP env ids (0, 0)) d P" if "S ids" "\<And>c p d'. R c p d' \<Longrightarrow> P (Inr (c, p)) d'" for ids P
    by (rule runs_in_conseq [OF drain [OF that(1)]]) (use that(2) in auto)
  have found': "runs (findDueJobIds env (batchSize (cfg_worker (e_cfg env)))) d P"
    if "\<And>ids. S ids \<Longrightarrow> P (Inr ids) d" for P
    by (rule runs_conseq [OF found]) (use that in auto)
  show ?thesis
    unfolding runOnce_def Let_def
    by (auto simp del: drainP.simps intro!: runs_in_bind runs_in_finally runs_in_Ret env_steps drain' Q
        runs_in_by [OF keeps_recover runs_recover_none [OF env idle]] runs_in_by [OF keeps_findDue found'])
qed

lemma runs_in_tick:
  assumes "runs_in J (runOnce env) d (\<lambda>x d'. Q (Inr ()) d')"
  shows "runs_in J (tick env) d Q"
  unfolding tick_def scheduleNextTick_def
  by (intro runs_in_finally runs_in_catch runs_in_mapP, rule runs_in_conseq [OF assms])
     (auto intro!: runs_in_Ret env_steps split: sum.split if_splits)

end

lemma sole_due:
  assumes "pass_env env d r" and "jr_status r \<in> set CLAIMABLE_STATUSES"
  shows "due (e_clock env t) r"
  using assms by (simp add: pass_env_def due_def)

text \<open>A pass claims the one job that is due and gives it one attempt.\<close>

lemma up_runs_runOnce:
  assumes e: "pass_env env d r" and wf: "wf_db (e_fold env) d" and o: "sole_open d r"
    and s: "jr_status r \<in> set CLAIMABLE_STATUSES" and j: "job_of env d r ev"
    and Q: "\<And>res d' reply r1. attempted env r ev r1 reply d d' \<Longrightarrow> tr_recovered res = 0 \<Longrightarrow>
      tr_claimed res = 1 \<Longrightarrow> tr_processed res = 1 \<Longrightarrow> Q (Inr res) d'"
  shows "up_runs env (runOnce env) d Q"
proof -
  from e obtain b where env: "no_faults env" "sane_env env" and b: "0 < b" "batchSize (cfg_worker (e_cfg env)) = of_nat b"
    by (auto simp: pass_env_def)
  have idle: "\<forall>q \<in> set (jobs d). jr_status q \<noteq> DELIVERING"
    using o s by (auto simp: sole_open_def isTerminal_def TERMINAL_STATUSES_def CLAIMABLE_STATUSES_def)
  have opens: "opens_attempt (up env) env (jr_eventId r) (jr_attemptCount r + 1) d'"
    if "events d' = events d" "attempts d' = attempts d" for d'
  proof -
    have "event_of env d' (jr_eventId r) ev" "unattempted env (jr_eventId r) (jr_attemptCount r + 1) d'"
      using j wf_unattempted [OF wf, of r] that by (simp_all add: job_of_def event_of_def unattempted_def)
    moreover have "\<forall>t. \<forall>a \<in> set (attempts d'). \<not> sql_eq env (ar_id a) (e_uuid env t 0)"
      using e that by (simp add: pass_env_def fresh_uuids_def)
    ultimately show ?thesis
      unfolding opens_attempt_def
      by (intro runs_in_by up.keeps_attempts_start, intro runs_attempts_start [OF env(1)]) auto
  qed
  show ?thesis
  proof (rule up.runs_in_runOnce [OF env idle, where S = "\<lambda>ids. ids = [jr_id r]" and
        R = "\<lambda>c p d'. c = 1 \<and> p = 1 \<and> (\<exists>reply r1. attempted env r ev r1 reply d d')"])
    show "runs (findDueJobIds env (batchSize (cfg_worker (e_cfg env)))) d (\<lambda>x d'. d' = d \<and> (\<exists>ids. x = Inr ids \<and> ids = [jr_id r]))"
      by (rule runs_findDue_one [OF env wf o sole_due [OF e s] b(2,1)]) simp
    show "up_runs env (drainP env ids (0, 0)) d
        (\<lambda>x d'. \<exists>c p. x = Inr (c, p) \<and> c = 1 \<and> p = 1 \<and> (\<exists>reply r1. attempted env r ev r1 reply d d'))"
      if "ids = [jr_id r]" for ids
      unfolding that
      by (rule up.runs_in_drain_step [OF env j sole_due [OF e s] opens]) (auto intro!: runs_in_Ret)
  qed (use Q in auto)
qed

lemma up_runs_tick:
  assumes "pass_env env d r" and "wf_db (e_fold env) d" and "sole_open d r"
    and "jr_status r \<in> set CLAIMABLE_STATUSES" and "job_of env d r ev"
    and Q: "\<And>d' reply r1. attempted env r ev r1 reply d d' \<Longrightarrow> Q (Inr ()) d'"
  shows "up_runs env (tick env) d Q"
  by (rule up.runs_in_tick, rule up_runs_runOnce [OF assms(1-5)]) (rule Q)

text \<open>A pass over a table at rest changes nothing.\<close>

lemma up_runs_tick_idle:
  assumes env: "no_faults env" "sane_env env" and rest: "\<forall>q \<in> set (jobs d). isTerminal (jr_status q)"
    and Q: "Q (Inr ()) d"
  shows "up_runs env (tick env) d Q"
proof (rule up.runs_in_tick, rule up.runs_in_runOnce [OF env, where S = "\<lambda>ids. ids = []" and R = "\<lambda>_ _ d'. d' = d"])
  show "\<forall>q \<in> set (jobs d). jr_status q \<noteq> DELIVERING"
    using rest by (auto simp: isTerminal_def TERMINAL_STATUSES_def)
  have "\<forall>q \<in> set (jobs d). \<not> due (e_clock env t) q" for t
    using rest by (auto simp: due_def isTerminal_def TERMINAL_STATUSES_def CLAIMABLE_STATUSES_def)
  then show "runs (findDueJobIds env (batchSize (cfg_worker (e_cfg env)))) d (\<lambda>x d'. d' = d \<and> (\<exists>ids. x = Inr ids \<and> ids = []))"
    by (rule runs_findDue_none [OF env]) simp
qed (use Q in \<open>auto intro: runs_in_Ret\<close>)

section \<open>Many passes\<close>

definition status_after :: "rat \<Rightarrow> int \<Rightarrow> http_reply \<Rightarrow> DeliveryStatus" where
  "status_after m n reply =
     (if reply_ok reply then DELIVERED
      else if retryable_reply reply \<and> of_int n < m then RETRYING
      else DeliveryStatus.FAILED)"

lemma next_status_after: "next_status env n reply = status_after (budget env) n reply"
  by (simp add: next_status_def status_after_def)

text \<open>
  The specification of a job's life: its status and the number of its attempts once the
  receiver has given these answers.
\<close>

fun fate :: "rat \<Rightarrow> int \<Rightarrow> DeliveryStatus \<Rightarrow> http_reply list \<Rightarrow> DeliveryStatus \<times> int" where
  "fate m n s [] = (s, n)"
| "fate m n s (reply # replies) =
     (if isTerminal s then fate m n s replies
      else fate m (n + 1) (status_after m (n + 1) reply) replies)"

lemma fate_snoc:
  "fate m n s (replies @ [reply]) =
     (case fate m n s replies of (s', n') \<Rightarrow>
        if isTerminal s' then (s', n') else (status_after m (n' + 1) reply, n' + 1))"
  by (induction replies arbitrary: n s) auto

text \<open>
  Passes of the worker, one after the other and alone, each once the job is due (or at rest);
  the receiver answers the pass with \<open>reply\<close>.
\<close>

inductive passes :: "(string \<Rightarrow> string) \<Rightarrow> rat \<Rightarrow> string \<Rightarrow> world \<Rightarrow> http_reply list \<Rightarrow> world \<Rightarrow> bool"
  for ci m e w where
  none: "passes ci m e w [] w"
| another: "passes ci m e w replies w' \<Longrightarrow> r \<in> set (jobs (w_db w')) \<Longrightarrow> jr_eventId r = e \<Longrightarrow>
    env_ok ci env \<Longrightarrow> budget env = m \<Longrightarrow> up env w' \<Longrightarrow> pass_env env (w_db w') r \<Longrightarrow>
    (\<forall>t http. e_exchange env t http = reply) \<Longrightarrow>
    passes ci m e w (replies @ [reply]) (snd (run (tick env) w'))"

lemma wf_tick:
  assumes "env_ok ci env" and "wf_db ci (w_db w)"
  shows "wf_db ci (w_db (snd (run (tick env) w)))"
proof -
  have "shared.safe ci (\<lambda>_. True) (tick env) (\<lambda>_ _. True)" using assms(1) by (rule shared.safe_tick)
  from sat_run [OF shared.safe_wsat [OF this assms(2) TrueI] assms(2)]
  show ?thesis by (auto intro: mono_trans)
qed

text \<open>
  Where a job stands: its status and attempt count, with its event showing the same status, one
  attempt on record and one exchange on the wire for each attempt counted.
\<close>

definition job_at :: "string \<Rightarrow> DeliveryStatus \<times> int \<Rightarrow> db \<Rightarrow> bool" where
  "job_at e sn d \<longleftrightarrow>
     (\<exists>r. sole_open d r \<and> jr_eventId r = e \<and> (jr_status r, jr_attemptCount r) = sn \<and>
        jr_status r \<noteq> DELIVERING) \<and>
     (\<exists>ev \<in> set (events d). er_eventId ev = e \<and> er_status ev = fst sn) \<and>
     int (length (filter (\<lambda>x. wr_eventId (wx_delivery x) = e) (wire d))) = snd sn \<and>
     int (length (filter (\<lambda>a. ar_eventId a = e) (attempts d))) = snd sn"

lemma status_after_settled: "status_after m n reply \<noteq> DELIVERING"
  by (simp add: status_after_def)

lemma attempted_at:
  assumes at: "job_at (jr_eventId r) (jr_status r, n) d" and j: "job_of env d r ev" and o: "sole_open d r"
    and n: "n = jr_attemptCount r" and a: "attempted env r ev r1 reply d d'"
  shows "job_at (jr_eventId r) (status_after (budget env) (n + 1) reply, n + 1) d'"
proof -
  from a obtain ev1 c x where d': "jobs d' = replace_row r r1 (jobs d)" "events d' = replace_row ev ev1 (events d)"
      "attempts d' = attempts d @ [c]" "wire d' = wire d @ [x]"
    and r1: "jr_eventId r1 = jr_eventId r" "jr_attemptCount r1 = n + 1"
      "jr_status r1 = status_after (budget env) (n + 1) reply"
    and ev1: "event_le ev ev1" "er_status ev1 = jr_status r1" and c: "ar_eventId c = jr_eventId r"
    and x: "wx_delivery x = delivery_request ev (n + 1)"
    unfolding attempted_def n next_status_after sent_as_def by auto
  from o have "set (jobs d') = insert r1 (set (jobs d) - {r})"
    by (simp add: d' set_replace_row sole_open_def)
  with o have "sole_open d' r1" by (auto simp: sole_open_def)
  moreover have ev: "ev \<in> set (events d)" "er_eventId ev = jr_eventId r"
    using j by (auto simp: job_of_def event_of_def)
  then have "ev1 \<in> set (events d')" by (simp add: d' set_replace_row)
  moreover have "er_eventId ev1 = jr_eventId r"
    using ev1(1) ev(2) by (auto simp: event_le_def delivery_request_def)
  ultimately show ?thesis
    using at r1 ev1 c x ev(2) status_after_settled [of "budget env" "n + 1" reply]
    unfolding job_at_def by (auto simp: d' delivery_request_def)
qed

lemma pass_step:
  assumes wf: "wf_db ci (w_db w)" and at: "job_at e sn (w_db w)" and r: "r \<in> set (jobs (w_db w))" "jr_eventId r = e"
    and env: "env_ok ci env" "up env w" "pass_env env (w_db w) r" "\<forall>t http. e_exchange env t http = reply"
  shows "job_at e (if isTerminal (fst sn) then sn
      else (status_after (budget env) (snd sn + 1) reply, snd sn + 1)) (w_db (snd (run (tick env) w)))"
proof -
  from at obtain q where "sole_open (w_db w) q" "jr_eventId q = e" and sn: "sn = (jr_status q, jr_attemptCount q)"
    "jr_status q \<noteq> DELIVERING" by (auto simp: job_at_def)
  with wf_one_job [OF wf r(1), of q] r(2) have o: "sole_open (w_db w) r" and q: "q = r"
    by (auto simp: sole_open_def)
  show ?thesis
  proof (cases "isTerminal (jr_status r)")
    case True
    with o have "\<forall>q \<in> set (jobs (w_db w)). isTerminal (jr_status q)" by (auto simp: sole_open_def)
    with env(3) have "up_runs env (tick env) (w_db w) (\<lambda>_ d'. d' = w_db w)"
      by (intro up_runs_tick_idle) (simp_all add: pass_env_def)
    with env(2) have "w_db (snd (run (tick env) w)) = w_db w" by (simp add: runs_in_def)
    with True at show ?thesis by (simp add: sn q)
  next
    case False
    with sn q have s: "jr_status r \<in> set CLAIMABLE_STATUSES"
      by (cases "jr_status r") (auto simp: isTerminal_def TERMINAL_STATUSES_def CLAIMABLE_STATUSES_def)
    from env(1) have ci: "e_fold env = ci" by (simp add: env_ok_def)
    with wf_job_of [of env "w_db w" r] wf r obtain ev where j: "job_of env (w_db w) r ev" by auto
    let ?P = "\<lambda>_ d'. \<exists>reply' r1. attempted env r ev r1 reply' (w_db w) d'"
    have "up_runs env (tick env) (w_db w) ?P"
      using wf ci by (intro up_runs_tick [OF env(3) _ o s j]) auto
    with env(2) obtain reply' r1 where a: "attempted env r ev r1 reply' (w_db w) (w_db (snd (run (tick env) w)))"
      by (auto simp: runs_in_def)
    then have "reply' = reply" using env(4) by (auto simp: attempted_def sent_as_def)
    with attempted_at [OF _ j o refl a] at r False show ?thesis by (simp add: sn q)
  qed
qed

lemma passes_fate:
  assumes "passes ci m e w replies w'" and "wf_db ci (w_db w)" and "job_at e (PENDING, 0) (w_db w)"
  shows "wf_db ci (w_db w') \<and> job_at e (fate m 0 PENDING replies) (w_db w')"
  using assms
proof (induction rule: passes.induct)
  case (another replies w' r env reply)
  then have "wf_db ci (w_db w')" and "job_at e (fate m 0 PENDING replies) (w_db w')" by auto
  with another.hyps show ?case
    using pass_step [of ci w' e "fate m 0 PENDING replies" r env reply] wf_tick [of ci env w']
    by (auto simp: fate_snoc split: prod.splits if_splits)
qed simp

lemma fate_terminal: "isTerminal s \<Longrightarrow> fate m n s replies = (s, n)"
  by (induction replies) auto

lemma fate_append: "fate m n s (xs @ ys) = (case fate m n s xs of (s', n') \<Rightarrow> fate m n' s' ys)"
  by (induction xs arbitrary: n s) (auto simp: fate_terminal)

definition failing :: "http_reply \<Rightarrow> bool" where
  "failing reply \<longleftrightarrow> \<not> reply_ok reply \<and> retryable_reply reply"

lemma fate_failing:
  assumes "\<forall>reply \<in> set replies. failing reply" and "n < \<lceil>m\<rceil>" and "\<not> isTerminal s"
  shows "fate m n s replies =
    (if n + int (length replies) < \<lceil>m\<rceil> then (if replies = [] then s else RETRYING, n + int (length replies))
     else (DeliveryStatus.FAILED, \<lceil>m\<rceil>))"
  using assms
proof (induction replies arbitrary: n s)
  case (Cons reply replies)
  show ?case
  proof (cases "n + 1 < \<lceil>m\<rceil>")
    case True
    then have "of_int (n + 1) < m" by linarith
    with Cons.prems have "status_after m (n + 1) reply = RETRYING"
      by (simp add: status_after_def failing_def)
    with Cons True show ?thesis by (simp add: isTerminal_def TERMINAL_STATUSES_def)
  next
    case False
    then have "m \<le> of_int (n + 1)" by linarith
    with Cons.prems have s: "status_after m (n + 1) reply = DeliveryStatus.FAILED"
      by (simp add: status_after_def failing_def not_less)
    from False Cons.prems have "n + 1 = \<lceil>m\<rceil>" by simp
    with s Cons.prems False show ?thesis
      by (simp add: fate_terminal isTerminal_def TERMINAL_STATUSES_def)
  qed
qed simp

end
