(* ===== verification/Dashboard.thy ===== *)
theory Dashboard
  imports Events
begin

text \<open>
  \<open>apps/server/src/dashboard/dashboard.service.ts\<close>: the read side. \<open>getStats\<close> merges counts from
  the database with the counters of the process; \<open>broadcast\<close> pushes the result and swallows every
  error. The queries of a \<open>Promise.all\<close> are modelled one after the other; \<open>auditTime\<close>, which
  decides when \<open>broadcast\<close> runs, is not modelled: it may run at any time.
\<close>

section \<open>The operations\<close>

definition LATENCY_SAMPLE_SIZE :: nat where
  "LATENCY_SAMPLE_SIZE = 500"

text \<open>\<open>Object.fromEntries\<close>: the last entry of a key wins.\<close>

definition toCountMap :: "('s \<times> nat) list \<Rightarrow> ('s \<times> nat) list" where
  "toCountMap rows = fold (\<lambda>(status, count) m. AList.update status count m) rows []"

definition sum_counts :: "('s \<times> nat) list \<Rightarrow> nat" where
  "sum_counts counts = foldl (+) 0 (map snd counts)"

definition count_of :: "('s \<times> nat) list \<Rightarrow> 's \<Rightarrow> nat" where
  "count_of counts s = coalesce (map_of counts s) 0"

text \<open>\<open>Math.round(value * factor) / factor\<close>, on exact numbers.\<close>

definition round_to :: "rat \<Rightarrow> nat \<Rightarrow> rat" where
  "round_to value decimals = of_int (js_round (value * 10 ^ decimals)) / 10 ^ decimals"

definition attempts_countByStatus :: "env \<Rightarrow> (AttemptStatus \<times> nat) list io" where
  "attempts_countByStatus env =
     mapP (\<lambda>rows. count_groups (map ar_status rows)) (stmtP env (select_attempts env (\<lambda>_. True)))"

text \<open>ORDER BY completedAt DESC: both databases sort NULL as the least value, hence last.\<close>

definition newest_first :: "attempt_row \<Rightarrow> int \<times> int" where
  "newest_first a = (case ar_completedAt a of None \<Rightarrow> (1, 0) | Some t \<Rightarrow> (0, - t))"

text \<open>\<open>new Map(events.map((event) => [event.eventId, event.createdAt.getTime()]))\<close>.\<close>

definition created_by_event :: "event_row list \<Rightarrow> (string \<times> int) list" where
  "created_by_event rows = fold (\<lambda>e m. AList.update (er_eventId e) (er_createdAt e) m) rows []"

definition latencies :: "(string \<times> int) list \<Rightarrow> attempt_row list \<Rightarrow> int list" where
  "latencies createdAt successes =
     filter (\<lambda>value. 0 \<le> value)
       (List.map_filter (\<lambda>a.
          case (ar_completedAt a, map_of createdAt (ar_eventId a)) of
            (Some completed, Some created) \<Rightarrow> Some (completed - created)
          | _ \<Rightarrow> None) successes)"

definition averageDeliveryLatencyMs :: "env \<Rightarrow> int option io" where
  "averageDeliveryLatencyMs env =
     bindP (mapP (\<lambda>rows. sql_take env (of_nat LATENCY_SAMPLE_SIZE) (sql_order newest_first rows))
              (stmtP env (select_attempts env (\<lambda>a. ar_status a = SUCCESS)))) (\<lambda>successes.
     if successes = [] then Ret None
     else
       let eventIds = map ar_eventId successes in
       bindP (stmtP env (select_events env (\<lambda>r. list_ex (sql_eq env (er_eventId r)) eventIds))) (\<lambda>events.
       let values = latencies (created_by_event events) successes in
       Ret (if values = [] then None
            else Some (js_round (of_int (foldl (+) 0 values) / of_nat (length values))))))"

text \<open>The object \<open>getStats\<close> returns, from what it has read.\<close>

definition build_stats ::
  "rat \<Rightarrow> (DeliveryStatus \<times> nat) list \<Rightarrow> (AttemptStatus \<times> nat) list \<Rightarrow> nat \<Rightarrow> int option \<Rightarrow>
   MetricsSnapshot \<Rightarrow> int \<Rightarrow> int \<Rightarrow> DashboardStats" where
  "build_stats allowed byStatus byAttemptStatus totalEvents latency snap clients now =
     (let attemptsTotal = sum_counts byAttemptStatus;
          delivered = count_of byStatus DELIVERED;
          settled = delivered + count_of byStatus DeliveryStatus.FAILED
      in \<lparr>ds_totals =
            \<lparr>st_events = totalEvents, st_pending = count_of byStatus PENDING,
             st_delivering = count_of byStatus DELIVERING, st_retrying = count_of byStatus RETRYING,
             st_delivered = delivered, st_failed = count_of byStatus DeliveryStatus.FAILED\<rparr>,
          ds_attempts =
            \<lparr>at_total = attemptsTotal, at_succeeded = count_of byAttemptStatus SUCCESS,
             at_failed = count_of byAttemptStatus AttemptStatus.FAILED,
             at_inProgress = count_of byAttemptStatus IN_PROGRESS,
             at_averagePerEvent =
               (if totalEvents = 0 then 0 else round_to (of_nat attemptsTotal / of_nat totalEvents) 2)\<rparr>,
          ds_delivery =
            \<lparr>df_maxAttempts = allowed, df_averageDeliveryLatencyMs = latency,
             df_averageAttemptDurationMs = ms_averageAttemptDurationMs snap,
             df_averageWorkerTickMs = ms_averageWorkerProcessingMs snap,
             df_successRate =
               (if settled = 0 then None
                else Some (round_to (of_nat delivered / of_nat settled * 100) 1))\<rparr>,
          ds_httpStatusDistribution = ms_httpStatusDistribution snap,
          ds_counters = ms_counters snap,
          ds_connectedClients = clients,
          ds_generatedAt = toISOString now\<rparr>)"

definition getStats :: "env \<Rightarrow> DashboardStats io" where
  "getStats env =
     bindP (events_countByStatus env) (\<lambda>statusRows.
     bindP (attempts_countByStatus env) (\<lambda>attemptRows.
     bindP (events_count env) (\<lambda>totalEvents.
     bindP (averageDeliveryLatencyMs env) (\<lambda>latency.
     bindP (nowP env) (\<lambda>t.
     bindP (readNodeP env (\<lambda>n. snapshot t (n_metrics n))) (\<lambda>snap.
     bindP (readNodeP env (\<lambda>n. g_connections (n_gateway n))) (\<lambda>clients.
     bindP (nowP env) (\<lambda>now.
     Ret (build_stats (budget env) (toCountMap statusRows) (toCountMap attemptRows) totalEvents
            latency snap clients now)))))))))"

definition broadcast :: "env \<Rightarrow> unit io" where
  "broadcast env = catchP (bindP (getStats env) (broadcastStats env)) (\<lambda>e. Ret ())"

section \<open>Facts\<close>

lemma update_new: "k \<notin> fst ` set m \<Longrightarrow> AList.update k v m = m @ [(k, v)]"
  by (induction m) auto

lemma toCountMap_distinct:
  assumes "distinct (map fst rows)"
  shows "toCountMap rows = rows"
proof -
  have "fold (\<lambda>(k, v) m. AList.update k v m) rows m = m @ rows"
    if "distinct (map fst rows)" "set (map fst rows) \<inter> set (map fst m) = {}" for m
    using that
  proof (induction rows arbitrary: m)
    case (Cons r rows)
    obtain k v where r: "r = (k, v)" by fastforce
    have "AList.update k v m = m @ [(k, v)]" using Cons.prems(2) by (intro update_new) (auto simp: r)
    with Cons show ?case by (auto simp: r)
  qed simp
  with assms show ?thesis by (simp add: toCountMap_def)
qed

lemma count_groups_fst [simp]: "map fst (count_groups ss) = remdups ss" "distinct (map fst (count_groups ss))"
  by (simp_all add: count_groups_def comp_def)

lemma map_of_count_groups: "map_of (count_groups ss) s = (if s \<in> set ss then Some (count_list ss s) else None)"
proof -
  have "map_of (map (\<lambda>x. (x, f x)) xs) s = (if s \<in> set xs then Some (f s) else None)" for f :: "'a \<Rightarrow> nat" and xs
    by (induction xs) auto
  then show ?thesis by (simp add: count_groups_def)
qed

lemma count_of_groups [simp]: "count_of (toCountMap (count_groups ss)) s = count_list ss s"
  by (simp add: count_of_def toCountMap_distinct map_of_count_groups coalesce_def count_list_0_iff)

lemma foldl_plus: "foldl (+) a xs = a + sum_list (xs :: nat list)"
  by (induction xs arbitrary: a) simp_all

lemma count_list_filter: "count_list (map f xs) s = length (filter (\<lambda>x. f x = s) xs)"
  by (induction xs) auto

lemma sum_count_groups: "sum_counts (toCountMap (count_groups ss)) = length ss"
proof -
  have "sum_counts (toCountMap (count_groups ss)) = sum_list (map (count_list ss) (remdups ss))"
    by (simp add: sum_counts_def foldl_plus toCountMap_distinct) (simp add: count_groups_def comp_def)
  also have "\<dots> = (\<Sum>s \<in> set ss. count_list ss s)" by (simp add: sum_list_distinct_conv_sum_set)
  also have "\<dots> = length ss" by (rule sum_count_set) auto
  finally show ?thesis .
qed

lemma round_to_mono: "x \<le> y \<Longrightarrow> round_to x n \<le> round_to y n"
  by (simp add: round_to_def js_round_def divide_right_mono floor_mono)

lemma round_to_int: "round_to (of_int i) n = of_int i"
proof -
  have "js_round (of_int k :: rat) = k" for k by (simp add: js_round_def floor_eq_iff)
  from this [of "i * 10 ^ n"] show ?thesis by (simp add: round_to_def)
qed

lemma latencies_nonneg: "x \<in> set (latencies m as) \<Longrightarrow> 0 \<le> x"
  by (simp add: latencies_def)

end
