(* ===== verification/Receiver.thy ===== *)
theory Receiver
  imports Realtime Runs
begin

text \<open>
  \<open>apps/server/src/test-receiver\<close>: the bundled webhook endpoint, its configuration and its memory
  of what it has seen. The memory is read and written before the artificial latency, in one go;
  the configuration is read again after it. An update comes from the HTTP body through the class
  \<open>UpdateReceiverConfigDto\<close>, or from a caller inside the process as a plain object; the two
  differ in the fields a caller leaves out. The lemmas show that the counters agree with the
  memory under any interleaving, and what each mode answers.
\<close>

section \<open>Updating the configuration\<close>

text \<open>
  A property of a patch is absent (\<open>None\<close>), present and \<open>undefined\<close> (\<open>Some None\<close>), or present
  with a value. \<open>null\<close> is not modelled.
\<close>

record ReceiverPatch =
  rp_mode :: "ReceiverMode option option"
  rp_failureStatus :: "int option option"
  rp_latencyMs :: "int option option"
  rp_resetState :: "bool option"

text \<open>
  The body of \<open>POST /test-receiver/config\<close>. Under the compiler's target ES2022 a declared field of
  a class is a property of every instance, so the instance the validation pipe builds has all of
  them, \<open>undefined\<close> where the body has none.
\<close>

definition UpdateReceiverConfigDto ::
  "ReceiverMode option \<Rightarrow> int option \<Rightarrow> int option \<Rightarrow> bool option \<Rightarrow> ReceiverPatch" where
  "UpdateReceiverConfigDto mode failureStatus latencyMs resetState =
     \<lparr>rp_mode = Some mode, rp_failureStatus = Some failureStatus, rp_latencyMs = Some latencyMs,
      rp_resetState = resetState\<rparr>"

text \<open>What the decorators of the class accept, of values that are present.\<close>

definition valid_update :: "ReceiverPatch \<Rightarrow> bool" where
  "valid_update p \<longleftrightarrow>
     (case rp_failureStatus p of Some (Some s) \<Rightarrow> 400 \<le> s \<and> s \<le> 599 | _ \<Rightarrow> True) \<and>
     (case rp_latencyMs p of Some (Some l) \<Rightarrow> 0 \<le> l \<and> l \<le> 60000 | _ \<Rightarrow> True)"

text \<open>\<open>{ ...config, ...patch }\<close>: a property of the patch wins, even an \<open>undefined\<close> one.\<close>

definition spread_config :: "ReceiverConfig \<Rightarrow> ReceiverPatch \<Rightarrow> ReceiverConfig" where
  "spread_config c p =
     \<lparr>rc_mode = coalesce (rp_mode p) (rc_mode c),
      rc_failureStatus = coalesce (rp_failureStatus p) (rc_failureStatus c),
      rc_latencyMs = coalesce (rp_latencyMs p) (rc_latencyMs c)\<rparr>"

definition apply_update :: "ReceiverPatch \<Rightarrow> receiver \<Rightarrow> receiver" where
  "apply_update patch r =
     (let r' = r\<lparr>rv_config := spread_config (rv_config r) patch\<rparr> in
      if rp_resetState patch = Some True
      then r'\<lparr>rv_deliveries := [], rv_totalReceived := 0, rv_duplicateDeliveries := 0,
              rv_lastReceivedAt := None\<rparr>
      else r')"

definition show_mode :: "ReceiverMode option \<Rightarrow> string" where
  "show_mode m = (case m of None \<Rightarrow> ''undefined'' | Some m \<Rightarrow> mode_name m)"

definition show_status :: "int option \<Rightarrow> string" where
  "show_status s = (case s of None \<Rightarrow> ''undefined'' | Some s \<Rightarrow> show_int s)"

section \<open>Receiving a delivery\<close>

record ReceiverDecision =
  rd_status :: "int option"
  rd_body :: json

text \<open>\<open>{ ok, mode, ... }\<close>: serialised, a field that is \<open>undefined\<close> is left out.\<close>

definition mode_field :: "ReceiverMode option \<Rightarrow> (string \<times> json) list" where
  "mode_field m = (case m of None \<Rightarrow> [] | Some m \<Rightarrow> [(''mode'', JStr (mode_name m))])"

definition decide :: "ReceiverConfig \<Rightarrow> nat \<Rightarrow> ReceiverDecision" where
  "decide c previousDeliveries =
     (let failure = \<lparr>rd_status = rc_failureStatus c,
                     rd_body = JObj ((''ok'', JBool False) # mode_field (rc_mode c))\<rparr>;
          success = \<lparr>rd_status = Some 200, rd_body = JObj ((''ok'', JBool True) # mode_field (rc_mode c))\<rparr>
      in case rc_mode c of
           Some FAIL_ALWAYS \<Rightarrow> failure
         | Some FAIL_ONCE \<Rightarrow>
             if previousDeliveries = 0 then failure
             else \<lparr>rd_status = Some 200,
                   rd_body = JObj ((''ok'', JBool True) # mode_field (rc_mode c) @
                     [(''recoveredAfterFailure'', JBool True)])\<rparr>
         | Some SUCCESS_mode \<Rightarrow> success
         | None \<Rightarrow> success)"

definition deliveries_of :: "receiver \<Rightarrow> string \<Rightarrow> nat" where
  "deliveries_of r key = coalesce (map_of (rv_deliveries r) key) 0"

text \<open>The part of \<open>handleDelivery\<close> before the first \<open>await\<close>.\<close>

definition note_delivery :: "string \<Rightarrow> int \<Rightarrow> receiver \<Rightarrow> receiver" where
  "note_delivery key now r =
     (let previousDeliveries = deliveries_of r key in
      r\<lparr>rv_deliveries := AList.update key (previousDeliveries + 1) (rv_deliveries r),
        rv_totalReceived := rv_totalReceived r + 1,
        rv_lastReceivedAt := Some now,
        rv_duplicateDeliveries :=
          (if 0 < previousDeliveries then rv_duplicateDeliveries r + 1 else rv_duplicateDeliveries r)\<rparr>)"

section \<open>The handlers\<close>

text \<open>One uninterrupted stretch of a handler that works on the receiver.\<close>

definition receiverP :: "env \<Rightarrow> (int \<Rightarrow> receiver \<Rightarrow> 'a \<times> receiver) \<Rightarrow> 'a io" where
  "receiverP env f =
     actP (\<lambda>w.
       let n = w_nodes w (e_node env); (x, r) = f (e_clock env (w_tick w)) (n_receiver n)
       in (x, bump (w\<lparr>w_nodes := (w_nodes w)(e_node env := n\<lparr>n_receiver := r\<rparr>)\<rparr>)))"

record ReceiverStats =
  rs_totalReceived :: nat
  rs_uniqueEvents :: nat
  rs_duplicateDeliveries :: nat
  rs_lastReceivedAt :: "string option"

definition receiver_getStats :: "receiver \<Rightarrow> ReceiverStats" where
  "receiver_getStats r =
     \<lparr>rs_totalReceived = rv_totalReceived r, rs_uniqueEvents = length (rv_deliveries r),
      rs_duplicateDeliveries = rv_duplicateDeliveries r,
      rs_lastReceivedAt = map_option toISOString (rv_lastReceivedAt r)\<rparr>"

definition receiver_updateConfig :: "env \<Rightarrow> ReceiverPatch \<Rightarrow> ReceiverConfig io" where
  "receiver_updateConfig env patch =
     bindP (receiverP env (\<lambda>_ r. let r' = apply_update patch r in (rv_config r', r'))) (\<lambda>c.
     bindP (publish env (realtime_event RECEIVER_CONFIG_CHANGED ''-''
       (''Test receiver set to '' @ show_mode (rc_mode c) @
        (if rc_mode c = Some SUCCESS_mode then ''''
         else '' returning '' @ show_status (rc_failureStatus c))))) (\<lambda>_.
     readNodeP env (\<lambda>n. rv_config (n_receiver n))))"

definition delivery_event :: "string \<Rightarrow> string option \<Rightarrow> bool \<Rightarrow> ReceiverDecision \<Rightarrow> RealtimeEvent" where
  "delivery_event key attemptHeader isDuplicate decision =
     (realtime_event RECEIVER_DELIVERY_RECEIVED key
        (if isDuplicate
         then ''Receiver saw '' @ key @ '' again (at-least-once duplicate) and answered '' @
              show_status (rd_status decision)
         else ''Receiver handled '' @ key @ '' and answered '' @ show_status (rd_status decision)))
     \<lparr>re_httpStatus := map_option Some (rd_status decision), re_duplicate := Some isDuplicate,
      re_attemptNumber :=
        (case attemptHeader of None \<Rightarrow> None | Some h \<Rightarrow> if h = [] then None else Some (js_Number h))\<rparr>"

text \<open>The pause of \<open>latencyMs\<close> is a point where others run; the configuration is read after it.\<close>

definition handleDelivery :: "env \<Rightarrow> string option \<Rightarrow> string option \<Rightarrow> ReceiverDecision io" where
  "handleDelivery env eventId attemptHeader =
     (let key = coalesce eventId ''unknown'' in
      bindP (receiverP env (\<lambda>now r. (deliveries_of r key, note_delivery key now r))) (\<lambda>previousDeliveries.
      bindP (readNodeP env (\<lambda>n. decide (rv_config (n_receiver n)) previousDeliveries)) (\<lambda>decision.
      bindP (publish env (delivery_event key attemptHeader (0 < previousDeliveries) decision)) (\<lambda>_.
      Ret decision))))"

text \<open>The controller: \<open>GET\<close> and \<open>POST /test-receiver/config\<close>.\<close>

definition controller_getConfig :: "env \<Rightarrow> (ReceiverConfig \<times> ReceiverStats) io" where
  "controller_getConfig env = readNodeP env (\<lambda>n. (rv_config (n_receiver n), receiver_getStats (n_receiver n)))"

definition controller_updateConfig :: "env \<Rightarrow> ReceiverPatch \<Rightarrow> (ReceiverConfig \<times> ReceiverStats) io" where
  "controller_updateConfig env dto =
     bindP (receiver_updateConfig env dto) (\<lambda>config.
     bindP (readNodeP env (\<lambda>n. receiver_getStats (n_receiver n))) (\<lambda>stats.
     Ret (config, stats)))"

section \<open>The counters\<close>

definition receiver_ok :: "receiver \<Rightarrow> bool" where
  "receiver_ok r \<longleftrightarrow>
     distinct (map fst (rv_deliveries r)) \<and> (\<forall>(k, n) \<in> set (rv_deliveries r). 1 \<le> n) \<and>
     rv_totalReceived r = sum_list (map snd (rv_deliveries r)) \<and>
     rv_duplicateDeliveries r + length (rv_deliveries r) = rv_totalReceived r \<and>
     (rv_lastReceivedAt r = None \<longleftrightarrow> rv_totalReceived r = 0)"

lemma receiver_ok_new: "receiver_ok new_receiver"
  by (simp add: receiver_ok_def new_receiver_def)

lemma receiver_ok_update: "receiver_ok r \<Longrightarrow> receiver_ok (apply_update patch r)"
  by (simp add: receiver_ok_def apply_update_def Let_def)

lemma update_sum:
  assumes "distinct (map fst m)"
  shows "sum_list (map snd (AList.update k (coalesce (map_of m k) 0 + 1) m)) = sum_list (map snd m) + (1 :: nat)"
  using assms
proof (induction m)
  case (Cons p m)
  then show ?case by (cases p) (auto simp: coalesce_def)
qed (simp add: coalesce_def)

lemma update_length: "length (AList.update k v m) = (if map_of m k = None then Suc (length m) else length m)"
  by (induction m) auto

lemma update_member: "p \<in> set (AList.update k v m) \<Longrightarrow> p = (k, v) \<or> p \<in> set m"
  by (induction m) (auto split: if_splits)

lemma receiver_ok_note:
  assumes r: "receiver_ok r"
  shows "receiver_ok (note_delivery key now r)"
proof -
  let ?m = "rv_deliveries r" and ?v = "deliveries_of r key + 1"
  from r have d: "distinct (map fst ?m)" and pos: "\<forall>(k, n) \<in> set ?m. 1 \<le> n" by (simp_all add: receiver_ok_def)
  have "\<forall>(k, n) \<in> set (AList.update key ?v ?m). 1 \<le> n" using pos by (auto dest!: update_member)
  moreover have "0 < deliveries_of r key \<longleftrightarrow> map_of ?m key \<noteq> None"
    using pos by (auto simp: deliveries_of_def coalesce_def split: option.splits dest!: map_of_SomeD)
  ultimately show ?thesis
    using r d update_sum [OF d, of key]
    by (auto simp: receiver_ok_def note_delivery_def Let_def update_length distinct_update deliveries_of_def)
qed

text \<open>Programs under interference by the others; every receiver on every node keeps its counters.\<close>

definition receivers_ok :: "world \<Rightarrow> bool" where
  "receivers_ok w \<longleftrightarrow> (\<forall>n. receiver_ok (n_receiver (w_nodes w n)))"

abbreviation rsat :: "'a io \<Rightarrow> world \<Rightarrow> bool" where
  "rsat \<equiv> sat (\<lambda>_ _. True) receivers_ok (\<lambda>_ _. True) (\<lambda>_ _. True) (\<lambda>_ _. True)"

definition counts :: "'a io \<Rightarrow> bool" where
  "counts p \<longleftrightarrow> (\<forall>w. receivers_ok w \<longrightarrow> rsat p w)"

lemma counts_Ret: "counts (Ret x)"
  by (simp add: counts_def)

lemma counts_bind: "counts p \<Longrightarrow> (\<And>x. counts (k x)) \<Longrightarrow> counts (bindP p k)"
  unfolding counts_def by (auto intro: sat_bindP)

lemma counts_catch: "counts p \<Longrightarrow> (\<And>e. counts (h e)) \<Longrightarrow> counts (catchP p h)"
  unfolding counts_def by (auto intro: sat_catchP)

lemma counts_map: "counts p \<Longrightarrow> counts (mapP f p)"
  by (simp add: mapP_def counts_bind counts_Ret)

lemma counts_actions:
  "counts (nowP env)" "counts (readNodeP env f)" "counts (gatewayP env g)"
  "counts (tryP (\<lambda>w. (case e_socket env (w_tick w) of None \<Rightarrow> Inr () | Some e \<Rightarrow> Inl e, bump w)))"
  by (auto simp: counts_def receivers_ok_def nowP_def readNodeP_def gatewayP_def nodeP_def actP_def
      tryP_def split: option.split)

lemma counts_receiverP:
  assumes "\<And>now r. receiver_ok r \<Longrightarrow> receiver_ok (snd (f now r))"
  shows "counts (receiverP env f)"
  using assms
  by (auto simp: counts_def receivers_ok_def receiverP_def actP_def Let_def split_beta)

lemma counts_if: "counts p \<Longrightarrow> counts q \<Longrightarrow> counts (if b then p else q)"
  by simp

lemmas counts_intros = counts_bind counts_catch counts_map counts_actions counts_if counts_Ret

lemma counts_publish: "counts (publish env event)"
  unfolding publish_def Let_def gateway_publish_def emitP_def emitWith_def by (intro counts_intros)

inductive_set receiver_programs :: "unit io set" where
  receive: "mapP (\<lambda>_. ()) (handleDelivery env eventId attempt) \<in> receiver_programs"
| getConfig: "mapP (\<lambda>_. ()) (controller_getConfig env) \<in> receiver_programs"
| updateConfig: "mapP (\<lambda>_. ()) (controller_updateConfig env dto) \<in> receiver_programs"

lemma counts_receiver:
  assumes "p \<in> receiver_programs"
  shows "counts p"
  using assms
proof cases
  case (receive env e h)
  then show ?thesis unfolding handleDelivery_def Let_def
    by (auto intro!: counts_intros counts_receiverP counts_publish receiver_ok_note)
next
  case (getConfig env)
  then show ?thesis unfolding controller_getConfig_def by (auto intro!: counts_intros)
next
  case (updateConfig env dto)
  then show ?thesis unfolding controller_updateConfig_def receiver_updateConfig_def
    by (auto intro!: counts_intros counts_receiverP counts_publish receiver_ok_update simp: Let_def)
qed

interpretation rx: concurrent_system "\<lambda>_. receiver_programs" receivers_ok "\<lambda>_ _ _. True" "\<lambda>_ _ _. True"
  "\<lambda>_ _. True"
  by unfold_locales (use counts_receiver in \<open>auto simp: counts_def\<close>)

text \<open>
  Property C28. The test receiver's counters are consistent: however deliveries, configuration
  updates and resets of any number of requests interleave, the total is the sum of the deliveries
  by event, the duplicates are the total less the number of distinct events, and there is a time of
  the last delivery exactly when there was one.
\<close>

theorem receiver_counters_agree:
  assumes "pool_steps (\<lambda>_. receiver_programs) (Map.empty, w0) (ps, w)"
    and "\<And>n. n_receiver (w_nodes w0 n) = new_receiver"
  shows "let r = n_receiver (w_nodes w n); s = receiver_getStats r in
    rs_totalReceived s = sum_list (map snd (rv_deliveries r)) \<and>
    rs_uniqueEvents s + rs_duplicateDeliveries s = rs_totalReceived s \<and>
    (rs_lastReceivedAt s = None \<longleftrightarrow> rs_totalReceived s = 0)"
proof -
  have "receivers_ok w0" using assms(2) by (simp add: receivers_ok_def receiver_ok_new)
  with assms(1) have "receivers_ok w" by (rule rx.reachable_invariant)
  then have "receiver_ok (n_receiver (w_nodes w n))" by (simp add: receivers_ok_def)
  then show ?thesis by (auto simp: receiver_ok_def receiver_getStats_def Let_def)
qed

section \<open>What a delivery is answered\<close>

lemma run_receiverP [run_simps]:
  "run (receiverP env f) w =
     (let n = w_nodes w (e_node env); (x, r) = f (e_clock env (w_tick w)) (n_receiver n)
      in (Inr x, bump (w\<lparr>w_nodes := (w_nodes w)(e_node env := n\<lparr>n_receiver := r\<rparr>)\<rparr>)))"
  by (simp add: receiverP_def run_actP Let_def split_beta)

text \<open>Publishing leaves the receiver alone, and returns.\<close>

definition leaves_receiver :: "'a io \<Rightarrow> bool" where
  "leaves_receiver p \<longleftrightarrow> (\<forall>w n. n_receiver (w_nodes (snd (run p w)) n) = n_receiver (w_nodes w n))"

lemma leaves_bind: "leaves_receiver p \<Longrightarrow> (\<And>x. leaves_receiver (k x)) \<Longrightarrow> leaves_receiver (bindP p k)"
  by (auto simp: leaves_receiver_def run_bindP split: prod.splits sum.splits) (metis snd_conv)+

lemma leaves_catch: "leaves_receiver p \<Longrightarrow> (\<And>e. leaves_receiver (h e)) \<Longrightarrow> leaves_receiver (catchP p h)"
  by (auto simp: leaves_receiver_def run_catchP split: prod.splits sum.splits) (metis snd_conv)+

lemma leaves_actions:
  "leaves_receiver (Ret x)" "leaves_receiver (nowP env)" "leaves_receiver (readNodeP env f)"
  "leaves_receiver (gatewayP env g)"
  "leaves_receiver (tryP (\<lambda>w. (case e_socket env (w_tick w) of None \<Rightarrow> Inr () | Some e \<Rightarrow> Inl e, bump w)))"
  by (simp_all add: leaves_receiver_def run_simps gatewayP_def)

lemma leaves_if: "leaves_receiver p \<Longrightarrow> leaves_receiver q \<Longrightarrow> leaves_receiver (if b then p else q)"
  by simp

lemma leaves_publish: "leaves_receiver (publish env event)"
  unfolding publish_def Let_def gateway_publish_def emitP_def emitWith_def
  by (intro leaves_bind leaves_catch leaves_actions leaves_if)

lemma publish_returns: "\<exists>ev w'. run (publish env event) w = (Inr ev, w')"
  unfolding publish_def Let_def
  by (auto simp: run_simps split: prod.splits sum.splits)

text \<open>
  A delivery is answered by the mode and by what the receiver has seen: alone,
  \<open>handleDelivery\<close> answers \<open>decide\<close> of the configuration and of the number of earlier deliveries of
  that event, counts the delivery under its event only, and marks it a duplicate exactly when there
  was an earlier one. In mode FAIL_ONCE the first delivery of an event, and no later one, fails.
\<close>

theorem delivery_is_counted_and_decided:
  "\<exists>w'. run (handleDelivery env eventId attempt) w =
     (Inr (decide (rv_config (n_receiver (w_nodes w (e_node env))))
        (deliveries_of (n_receiver (w_nodes w (e_node env))) (coalesce eventId ''unknown''))), w') \<and>
   (let r = n_receiver (w_nodes w (e_node env)); r' = n_receiver (w_nodes w' (e_node env));
        key = coalesce eventId ''unknown''
    in rv_config r' = rv_config r \<and> rv_totalReceived r' = rv_totalReceived r + 1 \<and>
       (\<forall>k. deliveries_of r' k = (if k = key then deliveries_of r k + 1 else deliveries_of r k)) \<and>
       rv_duplicateDeliveries r' =
         rv_duplicateDeliveries r + (if deliveries_of r key = 0 then 0 else 1) \<and>
       rd_status (decide ((rv_config r)\<lparr>rc_mode := Some FAIL_ONCE\<rparr>) (deliveries_of r key)) =
         (if deliveries_of r key = 0 then rc_failureStatus (rv_config r) else Some 200))"
proof -
  let ?key = "coalesce eventId ''unknown''" and ?n = "w_nodes w (e_node env)"
  let ?r' = "note_delivery ?key (e_clock env (w_tick w)) (n_receiver ?n)"
  let ?w1 = "bump (bump (w\<lparr>w_nodes := (w_nodes w)(e_node env := ?n\<lparr>n_receiver := ?r'\<rparr>)\<rparr>))"
  let ?dec = "decide (rv_config (n_receiver ?n)) (deliveries_of (n_receiver ?n) ?key)"
  let ?pub = "publish env (delivery_event ?key attempt (0 < deliveries_of (n_receiver ?n) ?key) ?dec)"
  obtain ev w' where pub: "run ?pub ?w1 = (Inr ev, w')" using publish_returns by blast
  have conf: "rv_config ?r' = rv_config (n_receiver ?n)" by (simp add: note_delivery_def Let_def)
  have run: "run (handleDelivery env eventId attempt) w = (Inr ?dec, w')"
    using pub by (simp add: handleDelivery_def Let_def run_simps conf)
  have "n_receiver (w_nodes (snd (run ?pub ?w1)) (e_node env)) = n_receiver (w_nodes ?w1 (e_node env))"
    using leaves_publish unfolding leaves_receiver_def by blast
  then have r': "n_receiver (w_nodes w' (e_node env)) = ?r'" unfolding pub by simp
  have of: "\<forall>k. deliveries_of ?r' k =
      (if k = ?key then deliveries_of (n_receiver ?n) k + 1 else deliveries_of (n_receiver ?n) k)"
    by (simp add: note_delivery_def Let_def deliveries_of_def update_conv' coalesce_def)
  have tot: "rv_totalReceived ?r' = rv_totalReceived (n_receiver ?n) + 1"
    and dup: "rv_duplicateDeliveries ?r' =
       rv_duplicateDeliveries (n_receiver ?n) + (if deliveries_of (n_receiver ?n) ?key = 0 then 0 else 1)"
    by (simp_all add: note_delivery_def Let_def)
  have once: "rd_status (decide (c\<lparr>rc_mode := Some FAIL_ONCE\<rparr>) k) = (if k = 0 then rc_failureStatus c else Some 200)"
    for c k by (simp add: decide_def)
  show ?thesis unfolding Let_def
    by (rule exI [of _ w'], unfold r' conf, intro conjI) (rule run refl tot of dup once)+
qed

definition receiver_world :: world where
  "receiver_world = \<lparr>w_db = empty_db, w_nodes = (\<lambda>_. new_node), w_tick = 0\<rparr>"

theorem receiver_counters_agree_witness:
  "\<forall>env. let w = snd (run (mapP (\<lambda>_. ()) (handleDelivery env (Some ''evt-1'') None)) receiver_world);
       r = n_receiver (w_nodes w 0)
     in rs_totalReceived (receiver_getStats r) = sum_list (map snd (rv_deliveries r))"
proof
  fix env
  have "pool_steps (\<lambda>_. receiver_programs) (Map.empty :: nat \<Rightarrow> unit io option, receiver_world)
      (Map.empty, snd (run (mapP (\<lambda>_. ()) (handleDelivery env (Some ''evt-1'') None)) receiver_world))"
    by (rule pool_program [of _ _ 0]) (simp_all add: receiver_programs.receive)
  from receiver_counters_agree [OF this, of 0]
  show "let w = snd (run (mapP (\<lambda>_. ()) (handleDelivery env (Some ''evt-1'') None)) receiver_world);
       r = n_receiver (w_nodes w 0)
     in rs_totalReceived (receiver_getStats r) = sum_list (map snd (rv_deliveries r))"
    by (simp add: Let_def receiver_world_def new_node_def)
qed

section \<open>Partial updates\<close>

text \<open>
  A partial update through HTTP forgets the settings it does not name, where the same
  update inside the process keeps them: after \<open>{ mode: FAIL_ALWAYS }\<close> the receiver has no failure
  status to answer with, and after \<open>{ resetState: true }\<close> it answers 200 whatever its mode was.
  A complete update, as the dashboard sends it, takes effect either way.
\<close>

theorem partial_http_update_forgets:
  "(let c = rv_config (apply_update (UpdateReceiverConfigDto (Some FAIL_ALWAYS) None None None) r)
    in rd_status (decide c k) = None) \<and>
   (let c = rv_config (apply_update (UpdateReceiverConfigDto None None None (Some True)) r)
    in rd_status (decide c k) = Some 200) \<and>
   (let c = rv_config (apply_update \<lparr>rp_mode = Some (Some FAIL_ALWAYS), rp_failureStatus = None,
              rp_latencyMs = None, rp_resetState = None\<rparr> r)
    in rd_status (decide c k) = rc_failureStatus (rv_config r)) \<and>
   rv_config (apply_update (UpdateReceiverConfigDto (Some m) (Some s) (Some l) rs) r) =
     \<lparr>rc_mode = Some m, rc_failureStatus = Some s, rc_latencyMs = Some l\<rparr>"
  by (simp add: apply_update_def spread_config_def UpdateReceiverConfigDto_def decide_def coalesce_def Let_def)

end
