(* ===== verification/Health.thy ===== *)
theory Health
  imports Worker Runs
begin

text \<open>
  \<open>apps/server/src/health/health.controller.ts\<close>, and what \<open>apps/server/src/database\<close> makes of the
  configuration: the TypeORM options (\<open>typeorm-options.ts\<close>) and the column types
  (\<open>column-types.ts\<close>).
\<close>

section \<open>Data source options\<close>

record shared_options =
  so_migrationsRun :: bool
  so_synchronize :: bool
  so_logging :: bool

record mysql_options =
  my_host :: string
  my_port :: rat
  my_username :: string
  my_password :: string
  my_database :: string
  my_timezone :: string
  my_dateStrings :: bool

datatype DataSourceOptions =
    Better_sqlite3 string shared_options
  | Mysql mysql_options shared_options

text \<open>The lists of entities and migrations are the same for both drivers, and left out.\<close>

definition buildDataSourceOptions :: "AppConfiguration \<Rightarrow> DataSourceOptions" where
  "buildDataSourceOptions config =
     (let database = cfg_database config;
          shared = \<lparr>so_migrationsRun = False, so_synchronize = db_synchronize database,
                    so_logging = db_logging database\<rparr>
      in if db_driver database = sqlite then Better_sqlite3 (db_file database) shared
         else Mysql \<lparr>my_host = db_host database, my_port = db_port database,
                     my_username = db_username database, my_password = db_password database,
                     my_database = db_name database, my_timezone = ''Z'', my_dateStrings = False\<rparr> shared)"

text \<open>\<open>column-types.ts\<close> reads \<open>DB_DRIVER\<close> straight from the environment.\<close>

definition isSqlite :: "(string \<rightharpoonup> string) \<Rightarrow> bool" where
  "isSqlite processEnv \<longleftrightarrow> coalesce (processEnv ''DB_DRIVER'') ''mysql'' = ''sqlite''"

definition JSON_COLUMN_TYPE :: "(string \<rightharpoonup> string) \<Rightarrow> string" where
  "JSON_COLUMN_TYPE processEnv = (if isSqlite processEnv then ''simple-json'' else ''json'')"

definition TIMESTAMP_PRECISION :: nat where
  "TIMESTAMP_PRECISION = 3"

text \<open>
  The driver is read twice and agrees: whenever the configuration is accepted, the data
  source is opened with the driver the entities' column types were chosen for.
\<close>

theorem driver_read_twice_agrees:
  assumes "buildConfiguration processEnv pid = Inr c"
  shows "(case buildDataSourceOptions c of Better_sqlite3 _ _ \<Rightarrow> isSqlite processEnv | Mysql _ _ \<Rightarrow> \<not> isSqlite processEnv) \<and>
    JSON_COLUMN_TYPE processEnv = (if db_driver (cfg_database c) = sqlite then ''simple-json'' else ''json'')"
proof -
  obtain d where d: "readString processEnv ''DB_DRIVER'' (Some ''mysql'') = Inr d"
    using assms by (cases "readString processEnv ''DB_DRIVER'' (Some ''mysql'')") (simp_all add: buildConfiguration_def)
  have known: "d \<in> {''mysql'', ''sqlite''}"
    using assms unfolding buildConfiguration_def d by (simp split: if_splits)
  have "db_driver (cfg_database c) = (if d = ''sqlite'' then sqlite else mysql)"
  proof (cases "d = ''sqlite''")
    case True
    with assms d show ?thesis by (clarsimp simp: buildConfiguration_def sum_bind_Inr_iff split: if_split_asm)
  next
    case False
    with known have "d = ''mysql''" by blast
    with assms d show ?thesis by (clarsimp simp: buildConfiguration_def sum_bind_Inr_iff split: if_split_asm)
  qed
  with d known have "\<exists>d. readString processEnv ''DB_DRIVER'' (Some ''mysql'') = Inr d \<and> d \<in> {''mysql'', ''sqlite''} \<and>
      db_driver (cfg_database c) = (if d = ''sqlite'' then sqlite else mysql)" by blast
  then have "db_driver (cfg_database c) = sqlite \<longleftrightarrow> isSqlite processEnv"
    by (auto simp: readString_def isSqlite_def coalesce_def split: if_splits option.splits)
  then show ?thesis by (simp add: buildDataSourceOptions_def JSON_COLUMN_TYPE_def Let_def)
qed

theorem driver_read_twice_agrees_witness:
  "\<exists>c. buildConfiguration sample_env 7 = Inr c \<and> \<not> isSqlite sample_env \<and>
     JSON_COLUMN_TYPE sample_env = (if db_driver (cfg_database c) = sqlite then ''simple-json'' else ''json'')"
proof -
  from sample_env_retry obtain c where c: "buildConfiguration sample_env 7 = Inr c"
    by (cases "buildConfiguration sample_env 7") auto
  have "\<not> isSqlite sample_env" by code_simp
  with c driver_read_twice_agrees [OF c] show ?thesis by blast
qed

section \<open>The health check\<close>

record HealthReport =
  h_status :: string
  h_database :: string
  h_worker :: WorkerStatus
  h_retry :: retry_config
  h_target :: string
  h_uptimeSeconds :: int
  h_timestamp :: string

definition pingDatabase :: "env \<Rightarrow> string io" where
  "pingDatabase env =
     catchP (mapP (\<lambda>_. ''up'') (stmtP env (\<lambda>t d. (Inr (), d)))) (\<lambda>e. Ret ''down'')"

text \<open>\<open>process.uptime()\<close> is \<open>uptime\<close>, in seconds.\<close>

definition check :: "env \<Rightarrow> rat \<Rightarrow> HealthReport io" where
  "check env uptime =
     bindP (pingDatabase env) (\<lambda>database.
     bindP (readNodeP env (\<lambda>n. worker_status env (n_worker n))) (\<lambda>worker.
     bindP (nowP env) (\<lambda>now.
     Ret \<lparr>h_status = (if database = ''up'' then ''ok'' else ''degraded''), h_database = database,
          h_worker = worker, h_retry = cfg_retry (e_cfg env), h_target = targetUrl (cfg_webhook (e_cfg env)),
          h_uptimeSeconds = js_round uptime, h_timestamp = toISOString now\<rparr>)))"

text \<open>
  The health check always answers: it never throws and changes nothing in the database,
  and it reports \<open>degraded\<close> exactly when the probing statement failed.
\<close>

theorem health_always_answers:
  "\<exists>h. fst (run (check env uptime) w) = Inr h \<and> w_db (snd (run (check env uptime) w)) = w_db w \<and>
     (h_status h = ''degraded'' \<longleftrightarrow> e_fault env (w_tick w) \<noteq> None) \<and>
     (h_status h = ''ok'' \<longleftrightarrow> h_database h = ''up'') \<and>
     ws_running (h_worker h) = wk_ticking (n_worker (w_nodes w (e_node env)))"
proof (cases "e_fault env (w_tick w)")
  case None
  then show ?thesis by (simp add: check_def pingDatabase_def stmtP_def run_simps worker_status_def Let_def)
next
  case (Some f)
  then show ?thesis
    by (cases f) (simp_all add: check_def pingDatabase_def stmtP_def run_simps worker_status_def Let_def)
qed

end
