(* ===== verification/Endpoints.thy ===== *)
theory Endpoints
  imports Contract Dashboard Receiver Health
begin

text \<open>
  The endpoints that only read the database, as programs of the concurrent server: the dashboard's
  statistics and its pushes, the health check, the test receiver. They meet the contract of
  \<open>theory Contract\<close> whatever the others do.
\<close>

inductive_set endpoint_programs :: "unit io set" where
  getStats: "mapP (\<lambda>_. ()) (getStats env) \<in> endpoint_programs"
| broadcast: "broadcast env \<in> endpoint_programs"
| check: "mapP (\<lambda>_. ()) (check env uptime) \<in> endpoint_programs"
| receiver: "p \<in> receiver_programs \<Longrightarrow> p \<in> endpoint_programs"

context store
begin

text \<open>What carries no status may be emitted at any time.\<close>

lemma safe_emitWith:
  assumes "\<And>g. g_emitted (sent g) = g_emitted g"
  shows "safe (\<lambda>_. True) (emitWith env sent) (\<lambda>_ _. True)"
proof (rule safeI)
  fix d assume d: "I d"
  have "dsat T R I G (\<lambda>_ d'. R d d' \<and> I d') (\<lambda>_ d'. R d d' \<and> I d') (emitWith env sent) d"
    using d G_refl R_refl R_trans by (rule dsat_emitWith) (simp_all add: assms)
  then show "dsat T R I G (\<lambda>_ _. True) (\<lambda>_ _. True) (emitWith env sent) d"
    by (rule dsat_conseq) (use d in auto)
qed

lemma safe_notice:
  "safe (\<lambda>_. True) (publish env (realtime_event kind e message)) (\<lambda>_ _. True)"
  "safe (\<lambda>_. True) (publish env (delivery_event key header duplicate decision)) (\<lambda>_ _. True)"
  by (rule safe_publish [OF stable_True]; simp add: told_def realtime_event_def delivery_event_def)+

lemma safe_receiverP: "safe (\<lambda>_. True) (receiverP env f) (\<lambda>_ _. True)"
  by (rule safeI)
     (auto simp: dsat_def receiverP_def actP_def Let_def split_beta emitted_node emitted_def
        intro!: G_refl tells_quiet)

lemma safe_probe: "safe (\<lambda>_. True) (stmtP env (\<lambda>t d. (Inr (), d))) (\<lambda>_ _. True)"
  by (rule safe_select) simp_all

lemmas safe_quiet = safe_now [OF stable_True] safe_readNode [OF stable_True] safe_notice
  safe_reads safe_receiverP safe_probe

lemma safe_getStats: "safe (\<lambda>_. True) (getStats env) (\<lambda>_ _. True)"
proof -
  have latency: "safe (\<lambda>_. True) (averageDeliveryLatencyMs env) (\<lambda>_ _. True)"
    unfolding averageDeliveryLatencyMs_def Let_def
  proof (rule safe_bind, rule safe_mapP, rule safe_reads)
    fix rows :: "attempt_row list"
    show "safe (\<lambda>_. True)
      (if rows = [] then Ret None
       else bindP (stmtP env (select_events env (\<lambda>r. list_ex (sql_eq env (er_eventId r)) (map ar_eventId rows)))) (\<lambda>es.
         Ret (if latencies (created_by_event es) rows = [] then None
              else Some (js_round (of_int (foldl (+) 0 (latencies (created_by_event es) rows)) /
                of_nat (length (latencies (created_by_event es) rows))))))) (\<lambda>_ _. True)"
      by (cases "rows = []") (simp_all only: if_True if_False simp_thms, (rule safe_Ret, simp),
          (rule safe_bind, rule safe_reads, rule safe_Ret, simp))
  qed
  have counts: "safe (\<lambda>_. True) (events_countByStatus env) (\<lambda>_ _. True)"
    "safe (\<lambda>_. True) (attempts_countByStatus env) (\<lambda>_ _. True)" "safe (\<lambda>_. True) (events_count env) (\<lambda>_ _. True)"
    unfolding events_countByStatus_def attempts_countByStatus_def events_count_def
    by (rule safe_mapP, rule safe_reads)+
  show ?thesis unfolding getStats_def
    by (rule safe_bind, rule counts)+ (rule safe_bind, rule latency, (rule safe_bind, rule safe_quiet)+, rule safe_Ret, rule TrueI)
qed

lemma safe_endpoint:
  assumes "p \<in> endpoint_programs"
  shows "safe (\<lambda>_. True) p (\<lambda>_ _. True)"
  using assms
proof cases
  case (getStats env)
  show ?thesis unfolding getStats by (rule safe_mapP, rule safe_getStats)
next
  case (broadcast env)
  show ?thesis unfolding broadcast broadcast_def broadcastStats_def
    by (rule safe_catch, rule safe_bind, rule safe_getStats, rule safe_emitWith, simp, rule safe_Ret, rule TrueI)
next
  case (check env uptime)
  show ?thesis unfolding check check_def pingDatabase_def
    by (rule safe_mapP, rule safe_bind, rule safe_catch, rule safe_mapP, rule safe_probe, rule safe_Ret, rule TrueI,
        (rule safe_bind, rule safe_quiet)+, rule safe_Ret, rule TrueI)
next
  case receiver
  then show ?thesis
  proof cases
    case (receive env e h)
    show ?thesis unfolding receive handleDelivery_def Let_def
      by (rule safe_mapP, (rule safe_bind, rule safe_quiet)+, rule safe_Ret, rule TrueI)
  next
    case (getConfig env)
    show ?thesis unfolding getConfig controller_getConfig_def by (rule safe_mapP, rule safe_quiet)
  next
    case (updateConfig env dto)
    show ?thesis unfolding updateConfig controller_updateConfig_def receiver_updateConfig_def
      by (rule safe_mapP, rule safe_bind, (rule safe_bind, rule safe_quiet)+, rule safe_quiet,
          (rule safe_bind, rule safe_quiet)+, rule safe_Ret, rule TrueI)
  qed
qed

end

end
