(* ===== verification/System.thy ===== *)
theory System
  imports Invariant Endpoints
begin

text \<open>
  The whole server as a concurrent system: any number of slots, each running a worker's tick or
  an API request of some node, interleaved action by action, each possibly dying at any point,
  with any answers of the receiver and any failing statements. The theorems hold of every state
  such a cluster reaches from an empty database, and of every two states of one run.
\<close>

section \<open>The programs\<close>

inductive_set api_programs :: "(string \<Rightarrow> string) \<Rightarrow> unit io set" for ci where
  create: "env_ok ci env \<Longrightarrow> mapP (\<lambda>_. ()) (create env dto) \<in> api_programs ci"
| list: "env_ok ci env \<Longrightarrow> mapP (\<lambda>_. ()) (list_events env query) \<in> api_programs ci"
| findOne: "env_ok ci env \<Longrightarrow> mapP (\<lambda>_. ()) (findOne env e) \<in> api_programs ci"
| findAttempts: "env_ok ci env \<Longrightarrow> mapP (\<lambda>_. ()) (findAttempts env e) \<in> api_programs ci"
| bootstrap: "env_ok ci env \<Longrightarrow> onApplicationBootstrap env \<in> api_programs ci"
| destroy: "env_ok ci env \<Longrightarrow> onModuleDestroy env \<in> api_programs ci"
| endpoint: "p \<in> endpoint_programs \<Longrightarrow> p \<in> api_programs ci"

inductive_set worker_programs :: "(string \<Rightarrow> string) \<Rightarrow> unit io set" for ci where
  tick: "env_ok ci env \<Longrightarrow> tick env \<in> worker_programs ci"

text \<open>Every slot of the cluster may run any of them.\<close>

definition cluster :: "(string \<Rightarrow> string) \<Rightarrow> nat \<Rightarrow> unit io set" where
  "cluster ci k = api_programs ci \<union> worker_programs ci"

context ingest_store
begin

lemma safe_api:
  assumes "p \<in> api_programs ci" and "\<And>env. env_ok ci env \<Longrightarrow> ok env"
  shows "safe (\<lambda>_. True) p (\<lambda>_ _. True)"
  using assms(1)
proof cases
  case (bootstrap env)
  then show ?thesis
    by (auto simp: onApplicationBootstrap_def scheduleNextTick_def intro: safe_Ret safe_worker [OF stable_True])
next
  case (destroy env)
  then show ?thesis by (auto simp: onModuleDestroy_def intro: safe_worker [OF stable_True])
next
  case endpoint
  then show ?thesis by (rule safe_endpoint)
qed (auto intro!: safe_mapP safe_create safe_list_events safe_findOne safe_findAttempts assms(2))

end

section \<open>The cluster\<close>

interpretation cl: concurrent_system "cluster ci" "\<lambda>w. wf_db ci (w_db w)"
  "\<lambda>_ w w'. mono_db (w_db w) (w_db w')"
  "\<lambda>_ w w'. mono_db (w_db w) (w_db w') \<and> tells (\<lambda>e _. queued e) w w'"
  "\<lambda>w w'. mono_db (w_db w) (w_db w')" for ci
proof (unfold_locales, goal_cases)
  case (4 p k w)
  then have "shared.safe ci (\<lambda>_. True) p (\<lambda>_ _. True)"
    by (auto simp: cluster_def elim!: worker_programs.cases intro: shared.safe_api shared.safe_tick)
  from shared.safe_tsat [OF this 4(2)] show ?case by simp
qed (auto intro: mono_trans)

definition starts_empty :: "world \<Rightarrow> bool" where
  "starts_empty w \<longleftrightarrow> w_db w = empty_db"

lemma wf_empty: "wf_db ci empty_db"
  by (simp add: wf_db_def empty_db_def)

lemma cluster_wf:
  "pool_steps (cluster ci) (Map.empty, w0) (ps, w) \<Longrightarrow> starts_empty w0 \<Longrightarrow> wf_db ci (w_db w)"
  using cl.reachable_invariant [of ci w0 ps w] wf_empty [of ci] by (simp add: starts_empty_def)

lemma cluster_mono:
  "pool_steps (cluster ci) (Map.empty, w0) (ps, w) \<Longrightarrow> pool_steps (cluster ci) (ps, w) (ps', w') \<Longrightarrow>
   starts_empty w0 \<Longrightarrow> mono_db (w_db w) (w_db w')"
  using cl.reachable_history [of ci w0 "(ps, w)" "(ps', w')"] wf_empty [of ci]
  by (simp add: starts_empty_def)

end
