(* ===== verification/Single.thy ===== *)
theory Single
  imports System
begin

text \<open>
  The deployment with one worker at a time: one slot ticks (and may crash and be restarted at
  any point), any number of slots serve API requests. Here the two bounds the design aims at
  hold: no job is attempted more often than the configured maximum, and every status change is
  one of the transition table. \<open>theory Lease\<close> shows that with several workers they do not.
\<close>

section \<open>The life of a job\<close>

definition job_step :: "job_row \<Rightarrow> job_row \<Rightarrow> bool" where
  "job_step r r' \<longleftrightarrow>
     job_le r r' \<and>
     (jr_status r' = jr_status r \<and> jr_attemptCount r' = jr_attemptCount r \<or>
      canTransition (jr_status r) (jr_status r') \<and>
      jr_attemptCount r' = jr_attemptCount r + (if jr_status r' = DELIVERING then 1 else 0))"

text \<open>
  From \<open>r\<close> to \<open>r'\<close> the job walked through the transition table, and consumed one attempt at each
  visit to DELIVERING.
\<close>

definition job_life :: "job_row \<Rightarrow> job_row \<Rightarrow> bool" where
  "job_life r r' \<longleftrightarrow>
     (\<exists>ts. walk (jr_status r) ts \<and> jr_status r' = last (jr_status r # ts) \<and>
        jr_attemptCount r' = jr_attemptCount r + int (visits ts))"

lemma walk_append: "walk s ts \<Longrightarrow> walk (last (s # ts)) us \<Longrightarrow> walk s (ts @ us)"
  by (induction ts arbitrary: s) auto

lemma visits_append [simp]: "visits (ts @ us) = visits ts + visits us"
  by (simp add: visits_def)

lemma job_life_refl [simp]: "job_life r r"
  unfolding job_life_def by (intro exI [of _ "[]"]) (simp add: visits_def)

lemma job_life_trans:
  assumes "job_life q r" and "job_life r s"
  shows "job_life q s"
proof -
  from assms obtain ts us where
    "walk (jr_status q) ts" "jr_status r = last (jr_status q # ts)"
    "jr_attemptCount r = jr_attemptCount q + int (visits ts)"
    "walk (jr_status r) us" "jr_status s = last (jr_status r # us)"
    "jr_attemptCount s = jr_attemptCount r + int (visits us)" by (auto simp: job_life_def)
  then show ?thesis
    unfolding job_life_def
    by (intro exI [of _ "ts @ us"] conjI walk_append) (auto simp: last_append split: if_splits)
qed

lemma job_step_life: "job_step r r' \<Longrightarrow> job_life r r'"
  unfolding job_step_def job_life_def
  by (elim conjE disjE; intro exI [of _ "if jr_status r' = jr_status r then [] else [jr_status r']"])
     (auto simp: visits_def canTransition_def split: if_splits; cases "jr_status r"; auto)+

lemma job_step_refl [simp]: "job_step r r"
  by (simp add: job_step_def)

section \<open>The invariant of one worker\<close>

definition budgeted :: "rat \<Rightarrow> db \<Rightarrow> bool" where
  "budgeted m d \<longleftrightarrow>
     (\<forall>r \<in> set (jobs d). jr_attemptCount r \<le> \<lceil>m\<rceil> \<and>
        (jr_status r \<in> set CLAIMABLE_STATUSES \<longrightarrow> jr_attemptCount r < \<lceil>m\<rceil>))"

definition wire_key :: "exchange \<Rightarrow> string \<times> int" where
  "wire_key x = (wr_eventId (wx_delivery x), wr_attemptNumber (wx_delivery x))"

definition single_db :: "(string \<Rightarrow> string) \<Rightarrow> rat \<Rightarrow> db \<Rightarrow> bool" where
  "single_db ci m d \<longleftrightarrow> wf_db ci d \<and> budgeted m d \<and> distinct (map wire_key (wire d))"

definition work_step :: "db \<Rightarrow> db \<Rightarrow> bool" where
  "work_step d d' \<longleftrightarrow> mono_db d d' \<and> list_all2 job_step (jobs d) (jobs d')"

text \<open>What the API may do meanwhile: accept events.\<close>

definition api_step :: "db \<Rightarrow> db \<Rightarrow> bool" where
  "api_step d d' \<longleftrightarrow> (\<exists>es js. d' = d\<lparr>events := events d @ es, jobs := jobs d @ js\<rparr>)"

definition single_history :: "db \<Rightarrow> db \<Rightarrow> bool" where
  "single_history d d' \<longleftrightarrow> mono_db d d' \<and> grows job_life (jobs d) (jobs d')"

lemma api_refl [simp]: "api_step d d"
  unfolding api_step_def by (intro exI [of _ "[]"]) simp

lemma api_trans: "api_step u v \<Longrightarrow> api_step v w \<Longrightarrow> api_step u w"
  by (fastforce simp: api_step_def)

lemma api_mono: "api_step d d' \<Longrightarrow> mono_db d d'"
  by (auto simp: api_step_def mono_db_def grows_refl grows_append)

lemma api_history: "api_step d d' \<Longrightarrow> single_history d d'"
  using api_mono by (auto simp: single_history_def api_step_def grows_append)

lemma work_history: "work_step d d' \<Longrightarrow> single_history d d'"
  by (auto simp: work_step_def single_history_def grows_def list_all2_conv_all_nth job_step_life)

lemma history_trans: "single_history u v \<Longrightarrow> single_history v w \<Longrightarrow> single_history u w"
  unfolding single_history_def by (auto intro: mono_trans grows_trans [OF job_life_trans])

definition worker_env :: "(string \<Rightarrow> string) \<Rightarrow> rat \<Rightarrow> env \<Rightarrow> bool" where
  "worker_env ci m env \<longleftrightarrow> env_ok ci env \<and> budget env = m \<and> 1 \<le> m"

lemma exhausted_budget: "worker_env ci m env \<Longrightarrow> isExhausted (cfg_retry (e_cfg env)) n \<longleftrightarrow> \<lceil>m\<rceil> \<le> n"
  using rb.exhausted_iff [of "cfg_retry (e_cfg env)" n] by (simp add: worker_env_def budget_def)

text \<open>A change of the jobs: row by row.\<close>

lemma single_update_jobs:
  assumes I: "single_db ci m d" and u: "update_jobs env P f t d = (Inr n, d')"
    and wf: "wf_db ci d' \<and> mono_db d d'"
    and step: "\<And>r. r \<in> set (jobs d) \<Longrightarrow> P r \<Longrightarrow> job_step r (f r) \<and> jr_attemptCount (f r) \<le> \<lceil>m\<rceil> \<and>
       (jr_status (f r) \<in> set CLAIMABLE_STATUSES \<longrightarrow> jr_attemptCount (f r) < \<lceil>m\<rceil>)"
  shows "single_db ci m d' \<and> work_step d d'"
proof -
  from u obtain g where d': "d' = d\<lparr>jobs := map g (jobs d)\<rparr>"
    and g: "\<And>r. g r = (if P r then (f r)\<lparr>jr_updatedAt := e_db_clock env t\<rparr> else r)"
    by (rule update_jobs_effect) blast
  have row: "job_step r (g r) \<and> jr_attemptCount (g r) \<le> \<lceil>m\<rceil> \<and>
      (jr_status (g r) \<in> set CLAIMABLE_STATUSES \<longrightarrow> jr_attemptCount (g r) < \<lceil>m\<rceil>)"
    if "r \<in> set (jobs d)" for r
    using step [OF that] I that by (auto simp: g job_step_def single_db_def budgeted_def)
  then have "list_all2 job_step (jobs d) (jobs d')"
    by (auto simp: d' list_all2_conv_all_nth)
  moreover have "budgeted m d'" using row by (auto simp: d' budgeted_def)
  ultimately show ?thesis using I wf by (simp add: single_db_def work_step_def d')
qed

text \<open>A change that leaves the jobs and the wire alone.\<close>

lemma single_other:
  "single_db ci m d \<Longrightarrow> wf_db ci d' \<and> mono_db d d' \<Longrightarrow> jobs d' = jobs d \<Longrightarrow> wire d' = wire d \<Longrightarrow>
   single_db ci m d' \<and> work_step d d'"
  by (simp add: single_db_def work_step_def budgeted_def list_all2_refl)

section \<open>What the worker knows\<close>

definition owned :: "job_row \<Rightarrow> db \<Rightarrow> bool" where
  "owned job d \<longleftrightarrow>
     1 \<le> jr_attemptCount job \<and>
     (\<exists>r \<in> set (jobs d). jr_id r = jr_id job \<and> jr_eventId r = jr_eventId job \<and>
        jr_attemptCount r = jr_attemptCount job \<and> jr_status r = DELIVERING)"

text \<open>The attempt has not been sent.\<close>

definition unsent :: "job_row \<Rightarrow> db \<Rightarrow> bool" where
  "unsent job d \<longleftrightarrow> (jr_eventId job, jr_attemptCount job) \<notin> wire_key ` set (wire d)"

definition just_claimed :: "(string \<Rightarrow> string) \<Rightarrow> string \<Rightarrow> db \<Rightarrow> bool" where
  "just_claimed ci j d \<longleftrightarrow>
     (\<exists>r \<in> set (jobs d). ci (jr_id r) = ci j \<and> jr_status r = DELIVERING \<and>
        1 \<le> jr_attemptCount r \<and> unsent r d)"

definition lease_seen :: "(string \<Rightarrow> string) \<Rightarrow> job_row \<Rightarrow> db \<Rightarrow> bool" where
  "lease_seen ci job d \<longleftrightarrow>
     (\<exists>r \<in> set (jobs d). jr_id r = jr_id job \<and> jr_eventId r = jr_eventId job) \<and>
     (\<forall>r \<in> set (jobs d). ci (jr_id r) = ci (jr_id job) \<longrightarrow> jr_status r = DELIVERING \<longrightarrow>
        jr_attemptCount r = jr_attemptCount job)"

text \<open>The status of an event's job, and an event that shows it: DELIVERING is not mirrored.\<close>

definition in_status :: "string \<Rightarrow> DeliveryStatus \<Rightarrow> db \<Rightarrow> bool" where
  "in_status e s d \<longleftrightarrow> (\<exists>r \<in> set (jobs d). jr_eventId r = e \<and> jr_status r = s)"

definition shown :: "string \<Rightarrow> DeliveryStatus \<Rightarrow> db \<Rightarrow> bool" where
  "shown e s d \<longleftrightarrow>
     in_status e s d \<and>
     (s \<noteq> DELIVERING \<longrightarrow> (\<exists>ev \<in> set (events d). er_eventId ev = e \<and> er_status ev = s))"

lemma owned_held: "owned job d \<Longrightarrow> held job d"
  by (auto simp: owned_def held_def)

lemma owned_row:
  assumes "wf_db ci d" and "owned job d" and "r \<in> set (jobs d)" and "ci (jr_id r) = ci (jr_id job)"
  shows "jr_eventId r = jr_eventId job \<and> jr_attemptCount r = jr_attemptCount job \<and> jr_status r = DELIVERING"
proof -
  from assms(2) obtain q where q: "q \<in> set (jobs d)" "jr_id q = jr_id job" "jr_eventId q = jr_eventId job"
    "jr_attemptCount q = jr_attemptCount job" "jr_status q = DELIVERING" by (auto simp: owned_def)
  with wf_job_unique [OF assms(1,3) q(1)] assms(4) show ?thesis by simp
qed

lemma api_knowledge:
  assumes "api_step d d'"
  shows "owned job d \<Longrightarrow> owned job d'" "unsent job d \<Longrightarrow> unsent job d'"
    "just_claimed ci j d \<Longrightarrow> just_claimed ci j d'" "evidence e d \<Longrightarrow> evidence e d'"
proof -
  from assms have sub: "set (jobs d) \<subseteq> set (jobs d')" and wire: "wire d' = wire d"
    by (auto simp: api_step_def)
  show "owned job d \<Longrightarrow> owned job d'" using sub unfolding owned_def by blast
  show "unsent job d \<Longrightarrow> unsent job d'" by (simp add: unsent_def wire)
  show "just_claimed ci j d \<Longrightarrow> just_claimed ci j d'"
    using sub unfolding just_claimed_def unsent_def wire by blast
  show "evidence e d \<Longrightarrow> evidence e d'" by (simp add: evidence_def wire)
qed

lemma api_shown:
  assumes "api_step d d'"
  shows "in_status e s d \<Longrightarrow> in_status e s d'" "shown e s d \<Longrightarrow> shown e s d'"
  using assms by (auto simp: api_step_def in_status_def shown_def)

lemma owned_in_status: "owned job d \<Longrightarrow> in_status (jr_eventId job) DELIVERING d"
  by (auto simp: owned_def in_status_def)

lemma mirror_shown:
  assumes wf: "wf_db ci d" and "in_status e s d"
    and u: "update_events env (\<lambda>r. sql_eq env (er_eventId r) e) (\<lambda>r. r\<lparr>er_status := s\<rparr>) t d = (Inr n, d')"
  shows "shown e s d'"
proof -
  let ?up = "\<lambda>r. if sql_eq env (er_eventId r) e then r\<lparr>er_status := s, er_updatedAt := e_db_clock env t\<rparr> else r"
  have "e \<in> set (map jr_eventId (jobs d))" using assms(2) by (auto simp: in_status_def)
  also have "map jr_eventId (jobs d) = map er_eventId (events d)" using wf by (simp add: wf_db_def)
  finally obtain ev where ev: "ev \<in> set (events d)" "er_eventId ev = e" by auto
  then have "er_eventId (?up ev) = e \<and> er_status (?up ev) = s" by (simp add: sql_eq_def)
  moreover have "?up ev \<in> set (events d')" using ev(1) u by (auto simp: update_events_def)
  moreover have "jobs d' = jobs d" using u by (auto simp: update_events_def)
  ultimately show ?thesis using assms(2) by (auto simp: shown_def in_status_def)
qed

lemma api_lease_seen:
  assumes "wf_db ci d'" and "api_step d d'" and "lease_seen ci job d"
  shows "lease_seen ci job d'"
proof -
  from assms(3) obtain q where q: "q \<in> set (jobs d)" "jr_id q = jr_id job" "jr_eventId q = jr_eventId job"
    by (auto simp: lease_seen_def)
  from assms(2) have sub: "set (jobs d) \<subseteq> set (jobs d')" by (auto simp: api_step_def)
  have "r = q" if "r \<in> set (jobs d')" "ci (jr_id r) = ci (jr_id job)" for r
    using that q sub by (intro wf_job_unique [OF assms(1)]) auto
  with q sub assms(3) show ?thesis by (auto simp: lease_seen_def)
qed

lemma lease_seen_other:
  "jobs d' = jobs d \<Longrightarrow> lease_seen ci job d \<Longrightarrow> lease_seen ci job d'"
  by (simp add: lease_seen_def)

lemma single_claim:
  assumes env: "worker_env ci m env" and I: "single_db ci m d"
    and u: "update_jobs env (\<lambda>r. sql_eq env (jr_id r) j \<and> due now r) (claim_row w now) t d = (Inr n, d')"
  shows "single_db ci m d' \<and> work_step d d' \<and> (n \<noteq> 0 \<longrightarrow> just_claimed ci j d')"
proof -
  from I have wf: "wf_db ci d" and b: "budgeted m d" by (simp_all add: single_db_def)
  from env have e: "env_ok ci env" by (simp add: worker_env_def)
  from wf_claim [OF e wf u] have wf': "wf_db ci d' \<and> mono_db d d'" by simp
  have "single_db ci m d' \<and> work_step d d'"
  proof (rule single_update_jobs [OF I u wf'])
    fix r assume r: "r \<in> set (jobs d)" "sql_eq env (jr_id r) j \<and> due now r"
    with b have "jr_attemptCount r < \<lceil>m\<rceil>" by (auto simp: budgeted_def due_def)
    with r show "job_step r (claim_row w now r) \<and> jr_attemptCount (claim_row w now r) \<le> \<lceil>m\<rceil> \<and>
        (jr_status (claim_row w now r) \<in> set CLAIMABLE_STATUSES \<longrightarrow>
         jr_attemptCount (claim_row w now r) < \<lceil>m\<rceil>)"
      by (auto simp: job_step_def job_le_def claim_row_def due_def)
  qed
  moreover have "just_claimed ci j d'" if "n \<noteq> 0"
  proof -
    from u obtain g where d': "d' = d\<lparr>jobs := map g (jobs d)\<rparr>"
      and n: "n = length (filter (\<lambda>r. sql_eq env (jr_id r) j \<and> due now r) (jobs d))"
      and g: "\<And>r. g r = (if sql_eq env (jr_id r) j \<and> due now r
                 then (claim_row w now r)\<lparr>jr_updatedAt := e_db_clock env t\<rparr> else r)"
      by (rule update_jobs_effect) blast
    from that n obtain r where r: "r \<in> set (jobs d)" "sql_eq env (jr_id r) j" "due now r"
      by (auto simp: filter_empty_conv)
    have "unsent (g r) d'"
    proof -
      have "wr_attemptNumber (wx_delivery x) \<le> jr_attemptCount r"
        if "x \<in> set (wire d)" "wr_eventId (wx_delivery x) = jr_eventId r" for x
      proof -
        from wf that(1) obtain q where q: "q \<in> set (jobs d)" "jr_eventId q = wr_eventId (wx_delivery x)"
          "wr_attemptNumber (wx_delivery x) \<le> jr_attemptCount q"
          by (auto simp: wf_db_def exchange_ok_def counted_def)
        have "q = r"
        proof (rule distinct_map_eq [OF _ q(1) r(1)])
          have "distinct (map (\<lambda>e. ci (er_eventId e)) (events d))" using wf by (simp add: wf_db_def)
          then have "distinct (map er_eventId (events d))" by (auto simp: distinct_map inj_on_def)
          then show "distinct (map jr_eventId (jobs d))" using wf by (simp add: wf_db_def)
        qed (use q(2) that(2) in simp)
        with q(3) show ?thesis by simp
      qed
      with r show ?thesis by (fastforce simp: unsent_def wire_key_def d' g claim_row_def)
    qed
    moreover from r(1) wf have "0 \<le> jr_attemptCount r" by (auto simp: wf_db_def job_ok_def)
    with r e have "g r \<in> set (jobs d')" "ci (jr_id (g r)) = ci j" "1 \<le> jr_attemptCount (g r)"
      "jr_status (g r) = DELIVERING"
      by (auto simp: d' g claim_row_def env_ok_def sql_eq_def)
    ultimately show ?thesis by (auto simp: just_claimed_def)
  qed
  ultimately show ?thesis by simp
qed

lemma single_settle:
  assumes env: "worker_env ci m env" and I: "single_db ci m d" and "owned job d"
    and "b \<longrightarrow> evidence (jr_eventId job) d" and s: "may_settle env job b s"
    and u: "update_jobs env (\<lambda>r. sql_eq env (jr_id r) (jr_id job))
              (\<lambda>r. unlock (r\<lparr>jr_status := s, jr_nextAttemptAt := nx r\<rparr>)) t d = (Inr n, d')"
  shows "single_db ci m d' \<and> work_step d d' \<and> in_status (jr_eventId job) s d'"
proof -
  from assms(3) obtain q where "q \<in> set (jobs d)" "jr_id q = jr_id job" "jr_eventId q = jr_eventId job"
    by (auto simp: owned_def)
  moreover obtain g where "d' = d\<lparr>jobs := map g (jobs d)\<rparr>"
    and "\<And>r. g r = (if sql_eq env (jr_id r) (jr_id job)
      then (unlock (r\<lparr>jr_status := s, jr_nextAttemptAt := nx r\<rparr>))\<lparr>jr_updatedAt := e_db_clock env t\<rparr> else r)"
    using u by (rule update_jobs_effect) blast
  ultimately have "g q \<in> set (jobs d')" "jr_eventId (g q) = jr_eventId job" "jr_status (g q) = s"
    by (simp_all add: sql_eq_def unlock_def)
  then have "in_status (jr_eventId job) s d'" by (auto simp: in_status_def)
  moreover have "single_db ci m d' \<and> work_step d d'"
  proof (rule single_update_jobs [OF I u])
    from I have wf: "wf_db ci d" by (simp add: single_db_def)
    from env have e: "env_ok ci env" by (simp add: worker_env_def)
    show "wf_db ci d' \<and> mono_db d d'" using wf_settle [OF e wf owned_held [OF assms(3)] assms(4) s u] .
    fix r assume r: "r \<in> set (jobs d)" "sql_eq env (jr_id r) (jr_id job)"
    with owned_row [OF wf assms(3) r(1)] e have "jr_attemptCount r = jr_attemptCount job" "jr_status r = DELIVERING"
      by (auto simp: sql_eq_def env_ok_def)
    moreover have "jr_attemptCount r \<le> \<lceil>m\<rceil>" using I r(1) by (auto simp: single_db_def budgeted_def)
    ultimately show "job_step r (unlock (r\<lparr>jr_status := s, jr_nextAttemptAt := nx r\<rparr>)) \<and>
        jr_attemptCount (unlock (r\<lparr>jr_status := s, jr_nextAttemptAt := nx r\<rparr>)) \<le> \<lceil>m\<rceil> \<and>
        (jr_status (unlock (r\<lparr>jr_status := s, jr_nextAttemptAt := nx r\<rparr>)) \<in> set CLAIMABLE_STATUSES \<longrightarrow>
         jr_attemptCount (unlock (r\<lparr>jr_status := s, jr_nextAttemptAt := nx r\<rparr>)) < \<lceil>m\<rceil>)"
      using s exhausted_budget [OF env] by (auto simp: job_step_def job_le_def unlock_def may_settle_def)
  qed
  ultimately show ?thesis by simp
qed

lemma single_release:
  assumes env: "worker_env ci m env" and I: "single_db ci m d" and seen: "lease_seen ci job d"
    and s: "may_settle env job False s"
    and u: "update_jobs env (same_lease env job) (release_row s ts) t d = (Inr n, d')"
  shows "single_db ci m d' \<and> work_step d d' \<and> (\<forall>job'. lease_seen ci job' d \<longrightarrow> lease_seen ci job' d') \<and>
    (n \<noteq> 0 \<longrightarrow> in_status (jr_eventId job) s d')"
proof -
  from I have wf: "wf_db ci d" by (simp add: single_db_def)
  from u obtain g where d': "d' = d\<lparr>jobs := map g (jobs d)\<rparr>"
    and n: "n = length (filter (same_lease env job) (jobs d))"
    and g: "\<And>r. g r = (if same_lease env job r
               then (release_row s ts r)\<lparr>jr_updatedAt := e_db_clock env t\<rparr> else r)"
    by (rule update_jobs_effect) blast
  have "single_db ci m d' \<and> work_step d d'"
  proof (rule single_update_jobs [OF I u wf_release [OF wf s u]])
    fix r assume r: "r \<in> set (jobs d)" "same_lease env job r"
    with seen env have "jr_attemptCount r = jr_attemptCount job" "jr_status r = DELIVERING"
      by (auto simp: lease_seen_def same_lease_def sql_eq_def worker_env_def env_ok_def)
    moreover have "jr_attemptCount r \<le> \<lceil>m\<rceil>" using I r(1) by (auto simp: single_db_def budgeted_def)
    ultimately show "job_step r (release_row s ts r) \<and> jr_attemptCount (release_row s ts r) \<le> \<lceil>m\<rceil> \<and>
        (jr_status (release_row s ts r) \<in> set CLAIMABLE_STATUSES \<longrightarrow>
         jr_attemptCount (release_row s ts r) < \<lceil>m\<rceil>)"
      using s exhausted_budget [OF env]
      by (auto simp: job_step_def job_le_def release_row_def unlock_def may_settle_def)
  qed
  moreover have "lease_seen ci job' d'" if "lease_seen ci job' d" for job'
  proof -
    have "jr_id (g r) = jr_id r" "jr_eventId (g r) = jr_eventId r" "jr_attemptCount (g r) = jr_attemptCount r"
      "jr_status (g r) = DELIVERING \<Longrightarrow> jr_status r = DELIVERING" for r
      using s by (auto simp: g release_row_def unlock_def may_settle_def split: if_splits)
    with that show ?thesis by (auto simp: lease_seen_def d')
  qed
  moreover have "in_status (jr_eventId job) s d'" if "n \<noteq> 0"
  proof -
    from that n obtain r where r: "r \<in> set (jobs d)" "same_lease env job r" by (auto simp: filter_empty_conv)
    from seen obtain q where q: "q \<in> set (jobs d)" "jr_id q = jr_id job" "jr_eventId q = jr_eventId job"
      by (auto simp: lease_seen_def)
    have "r = q"
      by (rule wf_job_unique [OF wf r(1) q(1)])
         (use r(2) q(2) env in \<open>simp add: same_lease_def sql_eq_def worker_env_def env_ok_def\<close>)
    with r q(3) have "g r \<in> set (jobs d')" "jr_eventId (g r) = jr_eventId job" "jr_status (g r) = s"
      by (simp_all add: d' g release_row_def unlock_def)
    then show ?thesis by (auto simp: in_status_def)
  qed
  ultimately show ?thesis by simp
qed

lemma single_sent:
  assumes I: "single_db ci m d" and o: "owned job d" "unsent job d"
    and ev: "er_eventId ev = jr_eventId job" "accepted ev d"
    and x: "wx_delivery x = delivery_request ev (jr_attemptCount job)"
      "hr_body (wx_request x) = webhook_body (wx_delivery x)"
    and d': "d' = d\<lparr>wire := wire d @ [x]\<rparr>"
  shows "single_db ci m d' \<and> work_step d d' \<and> owned job d' \<and>
    (reply_ok (wx_reply x) \<longrightarrow> evidence (jr_eventId job) d')"
proof -
  from I have wf: "wf_db ci d" by (simp add: single_db_def)
  have "held_event_of job ev d" using owned_held [OF o(1)] ev by (simp add: held_event_of_def)
  from wf_sent [OF wf this x d'] have "wf_db ci d' \<and> mono_db d d' \<and>
      (reply_ok (wx_reply x) \<longrightarrow> evidence (jr_eventId job) d')" .
  moreover have "wire_key x \<notin> wire_key ` set (wire d)"
    using o(2) x(1) ev(1) by (simp add: unsent_def wire_key_def delivery_request_def)
  ultimately show ?thesis
    using I o(1) by (simp add: single_db_def work_step_def budgeted_def owned_def d' list_all2_refl)
qed

text \<open>The job and its event, before the attempt is sent.\<close>

definition ready_to_send :: "job_row \<Rightarrow> event_row \<Rightarrow> db \<Rightarrow> bool" where
  "ready_to_send job ev d \<longleftrightarrow>
     owned job d \<and> unsent job d \<and> er_eventId ev = jr_eventId job \<and> accepted ev d"

interpretation solo: delivery_store "worker_env ci m" api_step "single_db ci m" work_step shown
  "just_claimed ci" "\<lambda>job d. owned job d \<and> unsent job d" ready_to_send ready_to_send
  "\<lambda>job b d. owned job d \<and> (b \<longrightarrow> evidence (jr_eventId job) d)"
  "\<lambda>e s d. mirrorable e s d \<and> in_status e s d" "lease_seen ci" for ci m
proof (unfold_locales, goal_cases)
  case (1 u)
  then show ?case by simp
next
  case (2 u v w)
  then show ?case by (rule api_trans)
next
  case (3 u)
  then show ?case by (simp add: work_step_def list_all2_refl)
next
  case (4 env)
  then show ?case by (simp add: worker_env_def env_ok_def)
next
  case (5 e s)
  then show ?case by (auto simp: stable_def intro: api_shown)
next
  case (6 j)
  then show ?case by (auto simp: stable_def intro: api_knowledge)
next
  case (7 job)
  then show ?case by (auto simp: stable_def intro: api_knowledge)
next
  case (8 job ev)
  then show ?case
    by (auto simp: stable_def ready_to_send_def intro: api_knowledge accepted_mono api_mono)
next
  case (9 job b)
  then show ?case by (auto simp: stable_def intro: api_knowledge)
next
  case (10 e s)
  then show ?case by (auto simp: stable_def mirrorable_def intro: api_knowledge api_shown)
next
  case (11 job)
  then show ?case by (auto simp: stable_def single_db_def intro: api_lease_seen)
next
  case (12 d job ev)
  then show ?case by (simp add: shown_def ready_to_send_def owned_in_status)
next
  case (13 d job b)
  then show ?case by (simp add: shown_def owned_in_status)
next
  case (14 env d j now w t n d')
  then show ?case by (rule single_claim)
next
  case (15 env d j job)
  then have wf: "wf_db ci d" and "ci (jr_id job) = ci j"
    by (simp_all add: worker_env_def env_ok_def sql_eq_def single_db_def)
  moreover from 15 obtain r where "r \<in> set (jobs d)" "ci (jr_id r) = ci j" "jr_status r = DELIVERING"
    "1 \<le> jr_attemptCount r" "unsent r d" by (auto simp: just_claimed_def)
  ultimately show ?case using wf_job_unique [OF wf, of r job] 15(4) by (auto simp: owned_def)
next
  case (16 env d job)
  then have "wf_db ci d" and "held job d" by (simp_all add: single_db_def owned_held)
  then obtain e where "e \<in> set (events d)" "er_eventId e = jr_eventId job"
    using held_event by blast
  then show ?case by (intro bexI [of _ e]) (simp_all add: sql_eq_def)
next
  case (17 env d job ev)
  then have "wf_db ci d" and "held job d" by (simp_all add: single_db_def owned_held)
  with held_event_unique [of ci d job ev] 17 show ?case
    by (auto simp: sql_eq_def worker_env_def env_ok_def ready_to_send_def accepted_def)
next
  case (18 env d job ev ts t a d')
  then have "wf_db ci d' \<and> mono_db d d'"
    by (intro wf_start) (auto simp: ready_to_send_def single_db_def worker_env_def owned_held)
  moreover from 18 have "jobs d' = jobs d" "wire d' = wire d" "events d' = events d"
    by (auto simp: insert_attempt_row_def Let_def split: if_splits)
  ultimately show ?case
    using single_other [OF 18(2)] 18(3)
    by (simp add: ready_to_send_def owned_def unsent_def accepted_def)
next
  case (19 d job ev x d')
  then show ?case using single_sent [of ci m d job ev x d'] by (auto simp: ready_to_send_def)
next
  case (20 env d job b c aid ts t n d')
  then have "wf_db ci d' \<and> mono_db d d'" by (intro wf_close) (auto simp: single_db_def)
  moreover from 20 have "jobs d' = jobs d" "wire d' = wire d" by (auto simp: update_attempts_def)
  ultimately show ?case
    using single_other [OF 20(2)] 20(3) by (simp add: owned_def evidence_def)
next
  case (21 env d job b s nx t n d')
  then have "single_db ci m d' \<and> work_step d d' \<and> in_status (jr_eventId job) s d'"
    by (intro single_settle) auto
  with 21 show ?case
    by (auto simp: mirrorable_def may_settle_def work_step_def intro: evidence_mono)
next
  case (22 env d e s t n d')
  then have "wf_db ci d' \<and> mono_db d d'" by (intro wf_mirror) (auto simp: single_db_def worker_env_def)
  moreover from 22 have "shown e s d'" by (intro mirror_shown) (auto simp: single_db_def)
  moreover from 22 have "jobs d' = jobs d" "wire d' = wire d" by (auto simp: update_events_def)
  ultimately show ?case using single_other [OF 22(2)] lease_seen_other by blast
next
  case (23 env d job cutoff)
  then have "r = job" if "r \<in> set (jobs d)" "ci (jr_id r) = ci (jr_id job)" for r
    using that wf_job_unique [of ci d r job] by (simp add: single_db_def)
  with 23 show ?case by (auto simp: lease_seen_def)
next
  case (24 env d e reason now t n d')
  then have "wf_db ci d' \<and> mono_db d d'" by (intro wf_abandon) (auto simp: single_db_def)
  moreover from 24 have "jobs d' = jobs d" "wire d' = wire d" by (auto simp: update_attempts_def)
  ultimately show ?case using single_other [OF 24(2)] lease_seen_other by blast
next
  case (25 env d job s ts t n d')
  then have "single_db ci m d' \<and> work_step d d' \<and> (\<forall>job'. lease_seen ci job' d \<longrightarrow> lease_seen ci job' d') \<and>
      (n \<noteq> 0 \<longrightarrow> in_status (jr_eventId job) s d')"
    by (intro single_release)
  with 25 show ?case by (auto simp: mirrorable_def may_settle_def)
qed

lemma single_ingest:
  assumes env: "env_ok ci env" and m: "1 \<le> m" and I: "single_db ci m d"
    and i: "ingest_work env dto t d = (Inr x, d')"
  shows "single_db ci m d' \<and> api_step d d'"
proof -
  from env have "e_fold env = ci" by (simp add: env_ok_def)
  with I have "wf_db ci d'" using wf_ingest [OF _ _ i] by (simp add: single_db_def)
  moreover from m have "0 < \<lceil>m\<rceil>" by simp
  ultimately show ?thesis
    using I ingest_effect [OF i]
    by (auto simp: single_db_def budgeted_def api_step_def new_job_def)
qed

interpretation solo_api: ingest_store "\<lambda>env. env_ok ci env \<and> 1 \<le> m" mono_db "single_db ci m" api_step
  "\<lambda>e _. queued e" for ci m
proof (unfold_locales, goal_cases)
  case (6 env d dto t x d')
  then show ?case using single_ingest [of ci env m d dto t x d'] queued_ingest by auto
qed (auto simp: stable_def env_ok_def single_db_def intro: mono_trans queued_mono accepted_queued)

section \<open>The system with one worker\<close>

text \<open>Slot 0 is the worker, with a budget of \<open>m \<ge> 1\<close>; every other slot serves the API.\<close>

definition one_worker :: "(string \<Rightarrow> string) \<Rightarrow> rat \<Rightarrow> nat \<Rightarrow> unit io set" where
  "one_worker ci m k =
     (if k = 0 then {p. \<exists>env. worker_env ci m env \<and> p = tick env}
      else {p \<in> api_programs ci. 1 \<le> m})"

definition solo_rely :: "nat \<Rightarrow> world \<Rightarrow> world \<Rightarrow> bool" where
  "solo_rely k w w' \<longleftrightarrow>
     (if k = 0 then api_step (w_db w) (w_db w') else mono_db (w_db w) (w_db w'))"

definition solo_guarantee :: "nat \<Rightarrow> world \<Rightarrow> world \<Rightarrow> bool" where
  "solo_guarantee k w w' \<longleftrightarrow>
     (if k = 0 then work_step (w_db w) (w_db w') \<and> tells shown w w'
      else api_step (w_db w) (w_db w') \<and> tells (\<lambda>e _. queued e) w w')"

interpretation one: concurrent_system "one_worker ci m" "\<lambda>w. single_db ci m (w_db w)"
  solo_rely solo_guarantee "\<lambda>w w'. single_history (w_db w) (w_db w')" for ci m
proof (unfold_locales, goal_cases)
  case (4 p k w)
  show ?case
  proof (cases "k = 0")
    case True
    with 4(1) obtain env where "worker_env ci m env" "p = tick env" by (auto simp: one_worker_def)
    then have "solo.safe ci m (\<lambda>_. True) p (\<lambda>_ _. True)" using solo.safe_tick by blast
    from solo.safe_tsat [OF this 4(2)] True show ?thesis
      by (simp add: solo_rely_def [abs_def] solo_guarantee_def [abs_def])
  next
    case False
    with 4(1) have "p \<in> api_programs ci" "1 \<le> m" by (auto simp: one_worker_def)
    then have "solo_api.safe ci m (\<lambda>_. True) p (\<lambda>_ _. True)" by (intro solo_api.safe_api) auto
    from solo_api.safe_tsat [OF this 4(2)] False show ?thesis
      by (simp add: solo_rely_def [abs_def] solo_guarantee_def [abs_def])
  qed
next
  case (5 w)
  then show ?case by (simp add: single_history_def grows_refl)
next
  case (6 u v w)
  then show ?case by (rule history_trans)
next
  case (7 u v k)
  then show ?case
    by (auto simp: solo_guarantee_def split: if_splits intro: work_history api_history)
next
  case (3 j k u v)
  then show ?case
    by (auto simp: solo_guarantee_def solo_rely_def work_step_def split: if_splits intro: api_mono)
qed (auto simp: solo_rely_def intro: api_trans mono_trans split: if_splits)

lemma single_empty: "single_db ci m empty_db"
  using wf_empty by (simp add: single_db_def budgeted_def empty_db_def)

lemma one_worker_invariant:
  "pool_steps (one_worker ci m) (Map.empty, w0) (ps, w) \<Longrightarrow> starts_empty w0 \<Longrightarrow> single_db ci m (w_db w)"
  using one.reachable_invariant [of ci m w0 ps w] single_empty [of ci m] by (simp add: starts_empty_def)

lemma one_worker_history:
  "pool_steps (one_worker ci m) (Map.empty, w0) (ps, w) \<Longrightarrow>
   pool_steps (one_worker ci m) (ps, w) (ps', w') \<Longrightarrow> starts_empty w0 \<Longrightarrow>
   single_history (w_db w) (w_db w')"
  using one.reachable_history [of ci m w0 "(ps, w)" "(ps', w')"] single_empty [of ci m]
  by (simp add: starts_empty_def)

end
