(* ===== verification/Sample.thy ===== *)
theory Sample
  imports Passes Single
begin

text \<open>
  A deployment to instantiate the theorems at: three attempts, delays of 100 and 200 ms, batches
  of ten, SQLite's case-sensitive strings, a receiver that answers \<open>reply\<close>, a clock that stands
  at \<open>now\<close>, and ids of a length no row has yet. Every list of answers is the list of some
  passes over it.
\<close>

text \<open>SQLite compares strings as they are.\<close>

definition binary :: "string \<Rightarrow> string" where
  "binary s = s"

definition demo_cfg :: AppConfiguration where
  "demo_cfg =
     \<lparr>cfg_env = ''test'', cfg_http = \<lparr>http_port = 3001, corsOrigin = ''*''\<rparr>,
      cfg_database = \<lparr>db_driver = sqlite, db_host = '''', db_port = 0, db_username = '''',
        db_password = '''', db_name = '''', db_logging = False, db_file = '':memory:'',
        db_synchronize = True\<rparr>,
      cfg_webhook = \<lparr>targetUrl = ''http://localhost/hook'', timeoutMs = 5000, signingSecret = ''s''\<rparr>,
      cfg_retry = \<lparr>maxAttempts = 3, delaysMs = [100, 200]\<rparr>,
      cfg_worker = \<lparr>worker_enabled = True, worker_id = ''w1'', pollIntervalMs = 1000,
        batchSize = 10, leaseTimeoutMs = 60000\<rparr>\<rparr>"

definition demo_env :: "nat \<Rightarrow> int \<Rightarrow> http_reply \<Rightarrow> env" where
  "demo_env ids now reply =
     \<lparr>e_cfg = demo_cfg, e_node = 0, e_clock = (\<lambda>_. now), e_db_clock = (\<lambda>_. now),
      e_fault = (\<lambda>_. None), e_uuid = (\<lambda>t i. replicate (ids + 2 * t + i) (CHR ''x'')),
      e_exchange = (\<lambda>_ _. reply), e_hmac = (\<lambda>_ _. ''hmac''), e_socket = (\<lambda>_. None), e_fold = binary,
      e_like = (\<lambda>_ _. True), e_limit = (\<lambda>r k. min (nat \<lfloor>r\<rfloor>) k),
      e_scan_events = (\<lambda>_ es. es), e_scan_jobs = (\<lambda>_ js. js), e_scan_attempts = (\<lambda>_ as. as),
      e_duplicate_key = QueryFailedError None ''UNIQUE constraint failed: events.event_id'',
      e_foreign_key = QueryFailedError None ''FOREIGN KEY constraint failed''\<rparr>"

definition demo_world :: world where
  "demo_world = \<lparr>w_db = empty_db, w_nodes = (\<lambda>_. new_node), w_tick = 0\<rparr>"

definition demo_dto :: CreateEventDto where
  "demo_dto =
     \<lparr>dto_eventId = ''evt-1'', dto_type = ''order.created'', dto_occurredAt = 5, dto_payload = None\<rparr>"

definition demo_reply :: "int \<Rightarrow> http_reply" where
  "demo_reply status = Inr \<lparr>ax_status = status, ax_statusText = [], ax_data = None\<rparr>"

lemma demo_sane: "env_ok binary (demo_env ids now reply)" "no_faults (demo_env ids now reply)"
proof -
  have "isUniqueViolation (QueryFailedError None ''UNIQUE constraint failed: events.event_id'')"
    "\<not> isUniqueViolation (QueryFailedError None ''FOREIGN KEY constraint failed'')" by code_simp+
  then show "env_ok binary (demo_env ids now reply)"
    by (simp add: env_ok_def sane_env_def demo_env_def)
  show "no_faults (demo_env ids now reply)" by (simp add: no_faults_def demo_env_def)
qed

definition row_ids :: "db \<Rightarrow> string set" where
  "row_ids d = er_id ` set (events d) \<union> jr_id ` set (jobs d) \<union> ar_id ` set (attempts d)"

lemma demo_fresh: "\<exists>ids. \<forall>now reply. fresh_uuids (demo_env ids now reply) d"
proof -
  have "finite (length ` row_ids d)" by (simp add: row_ids_def)
  then obtain n where n: "\<And>s. s \<in> row_ids d \<Longrightarrow> length s \<le> n"
    by (metis finite_nat_set_iff_bounded_le image_eqI)
  have new: "s \<noteq> e_uuid (demo_env (Suc n) now reply) t i" if "s \<in> row_ids d" for s now reply t i
    using n [OF that] by (auto simp: demo_env_def)
  have eq: "sql_eq (demo_env (Suc n) now reply) a b \<longleftrightarrow> a = b" for now reply a b
    by (simp add: sql_eq_def demo_env_def binary_def)
  have ids: "e \<in> set (events d) \<Longrightarrow> er_id e \<in> row_ids d" "r \<in> set (jobs d) \<Longrightarrow> jr_id r \<in> row_ids d"
    "a \<in> set (attempts d) \<Longrightarrow> ar_id a \<in> row_ids d" for e r a by (auto simp: row_ids_def)
  have "fresh_uuids (demo_env (Suc n) now reply) d" for now reply
    by (simp add: fresh_uuids_def eq new ids)
  then show ?thesis by blast
qed

lemma demo_passes:
  assumes "wf_db binary (w_db w)" and "job_at e (PENDING, 0) (w_db w)" and "up (demo_env 0 0 (demo_reply 200)) w"
  shows "\<exists>w'. passes binary 3 e w replies w'"
proof -
  have "\<exists>w'. passes binary 3 e w replies w' \<and> up (demo_env 0 0 (demo_reply 200)) w'"
  proof (induction replies rule: rev_induct)
    case Nil
    show ?case using assms(3) by (auto intro!: passes.none)
  next
    case (snoc reply replies)
    then obtain w' where p: "passes binary 3 e w replies w'" and up: "up (demo_env 0 0 (demo_reply 200)) w'" by auto
    from passes_fate [OF p assms(1,2)] obtain r where r: "r \<in> set (jobs (w_db w'))" "jr_eventId r = e"
      by (auto simp: job_at_def sole_open_def)
    obtain ids where ids: "\<And>now reply. fresh_uuids (demo_env ids now reply) (w_db w')"
      using demo_fresh by blast
    let ?env = "demo_env ids (jr_nextAttemptAt r) reply"
    have "pass_env ?env (w_db w') r"
      using ids demo_sane by (auto simp: pass_env_def env_ok_def demo_env_def demo_cfg_def intro!: exI [of _ 10])
    moreover have "budget ?env = 3" by (simp add: budget_def demo_env_def demo_cfg_def)
    moreover have "up ?env w'" using up by (simp add: up_def demo_env_def)
    moreover have "\<forall>t http. e_exchange ?env t http = reply" by (simp add: demo_env_def)
    ultimately have "passes binary 3 e w (replies @ [reply]) (snd (run (tick ?env) w'))"
      by (intro passes.another [OF p r] demo_sane)
    moreover have "up ?env (snd (run (tick ?env) w'))"
      using \<open>up ?env w'\<close> up.keeps_tick by (auto simp: keeps_def)
    ultimately show ?case by (auto simp: up_def demo_env_def)
  qed
  then show ?thesis by blast
qed

section \<open>An accepted event and its passes, as runs of the system\<close>

definition demo_accepted :: world where
  "demo_accepted = snd (run (create (demo_env 0 1000 (demo_reply 200)) demo_dto) demo_world)"

lemma demo_world_db: "w_db demo_world = empty_db"
  by (simp add: demo_world_def)

lemma wf_create:
  assumes "env_ok ci env" and "wf_db ci (w_db w)"
  shows "wf_db ci (w_db (snd (run (create env dto) w)))"
proof -
  have "shared.safe ci (\<lambda>_. True) (create env dto) (\<lambda>_ _. True)" using assms(1) by (rule shared.safe_create)
  from sat_run [OF shared.safe_wsat [OF this assms(2) TrueI] assms(2)]
  show ?thesis by (auto intro: mono_trans)
qed

lemma demo_accepted_db:
  "\<exists>t. w_db demo_accepted =
     empty_db\<lparr>events := [new_event (demo_env 0 1000 (demo_reply 200)) demo_dto t],
       jobs := [new_job (demo_env 0 1000 (demo_reply 200)) ''evt-1'' 1000 t]\<rparr>"
proof -
  let ?env = "demo_env 0 1000 (demo_reply 200)"
  have wf: "wf_db (e_fold ?env) empty_db" by (rule wf_empty)
  have fresh: "fresh_uuids ?env empty_db" "\<not> known_event ?env (dto_eventId demo_dto) empty_db"
    by (simp_all add: fresh_uuids_def known_event_def empty_db_def)
  from runs_create_new [OF demo_sane(2) wf fresh]
  obtain t where d: "w_db demo_accepted = empty_db\<lparr>events := events empty_db @ [new_event ?env demo_dto t],
      jobs := jobs empty_db @ [new_job ?env (dto_eventId demo_dto) (e_clock ?env t) t]\<rparr>"
    unfolding runs_def demo_accepted_def by (metis demo_world_db)
  have "dto_eventId demo_dto = ''evt-1''" "e_clock ?env t = 1000" "events empty_db = []" "jobs empty_db = []"
    by (simp_all add: demo_dto_def demo_env_def empty_db_def)
  with d show ?thesis by auto
qed

lemma demo_accepted: "wf_db binary (w_db demo_accepted)" "job_at ''evt-1'' (PENDING, 0) (w_db demo_accepted)"
  "up (demo_env 0 0 (demo_reply 200)) demo_accepted"
  "jobs (w_db demo_accepted) \<noteq> []" "jr_status (jobs (w_db demo_accepted) ! 0) = PENDING"
proof -
  obtain t where d: "w_db demo_accepted =
     empty_db\<lparr>events := [new_event (demo_env 0 1000 (demo_reply 200)) demo_dto t],
       jobs := [new_job (demo_env 0 1000 (demo_reply 200)) ''evt-1'' 1000 t]\<rparr>"
    using demo_accepted_db by blast
  show "jobs (w_db demo_accepted) \<noteq> []" "jr_status (jobs (w_db demo_accepted) ! 0) = PENDING"
    by (simp_all add: d new_job_def)
  show "job_at ''evt-1'' (PENDING, 0) (w_db demo_accepted)"
    by (simp add: job_at_def sole_open_def d empty_db_def new_job_def demo_dto_def new_event_def)
  show "wf_db binary (w_db demo_accepted)"
    unfolding demo_accepted_def by (rule wf_create [OF demo_sane(1)]) (simp add: demo_world_def wf_empty)
  have "keeps (up (demo_env 0 1000 (demo_reply 200))) (create (demo_env 0 1000 (demo_reply 200)) demo_dto)"
    by (rule up.keeps_create)
  then show "up (demo_env 0 0 (demo_reply 200)) demo_accepted"
    by (simp add: keeps_def demo_accepted_def up_def demo_world_def new_node_def demo_env_def)
qed

lemma passes_cluster: "passes ci m e w replies w' \<Longrightarrow> pool_steps (cluster ci) (Map.empty, w) (Map.empty, w')"
proof (induction rule: passes.induct)
  case none
  show ?case by (rule pool_steps.start)
next
  case (another replies w' r env reply)
  then have "tick env \<in> cluster ci 0" by (auto simp: cluster_def intro: worker_programs.tick)
  then have "pool_steps (cluster ci) (Map.empty, w') (Map.empty, snd (run (tick env) w'))"
    by (rule pool_program) simp
  with another.IH show ?case by (blast intro: pool_steps_trans)
qed

lemma passes_one_worker:
  "passes ci m e w replies w' \<Longrightarrow> 1 \<le> m \<Longrightarrow> pool_steps (one_worker ci m) (Map.empty, w) (Map.empty, w')"
proof (induction rule: passes.induct)
  case none
  show ?case by (rule pool_steps.start)
next
  case (another replies w' r env reply)
  then have "tick env \<in> one_worker ci m 0" by (auto simp: one_worker_def worker_env_def)
  then have "pool_steps (one_worker ci m) (Map.empty, w') (Map.empty, snd (run (tick env) w'))"
    by (rule pool_program) simp
  with another.IH another.prems show ?case by (blast intro: pool_steps_trans)
qed

lemma demo_run:
  "\<exists>w. pool_steps (cluster binary) (Map.empty, demo_world) (Map.empty, w) \<and>
     pool_steps (one_worker binary 3) (Map.empty, demo_world) (Map.empty, w) \<and>
     job_at ''evt-1'' (fate 3 0 PENDING replies) (w_db w) \<and> passes binary 3 ''evt-1'' demo_accepted replies w"
proof -
  obtain w where p: "passes binary 3 ''evt-1'' demo_accepted replies w"
    using demo_passes [OF demo_accepted(1-3)] by blast
  let ?create = "mapP (\<lambda>_. ()) (create (demo_env 0 1000 (demo_reply 200)) demo_dto)"
  have w: "snd (run ?create demo_world) = demo_accepted"
    by (simp add: demo_accepted_def run_mapP split: prod.splits sum.splits)
  have api: "?create \<in> api_programs binary" by (rule api_programs.create) (rule demo_sane)
  then have entry: "?create \<in> cluster binary 0" "?create \<in> one_worker binary 3 1"
    by (simp_all add: cluster_def one_worker_def)
  have "pool_steps (cluster binary) (Map.empty, demo_world) (Map.empty, snd (run ?create demo_world))"
    using entry(1) by (rule pool_program) simp
  moreover have "pool_steps (one_worker binary 3) (Map.empty, demo_world) (Map.empty, snd (run ?create demo_world))"
    using entry(2) by (rule pool_program) simp
  moreover have "pool_steps (cluster binary) (Map.empty, demo_accepted) (Map.empty, w)"
    using p by (rule passes_cluster)
  moreover have "pool_steps (one_worker binary 3) (Map.empty, demo_accepted) (Map.empty, w)"
    using p by (rule passes_one_worker) simp
  ultimately have "pool_steps (cluster binary) (Map.empty, demo_world) (Map.empty, w)"
    "pool_steps (one_worker binary 3) (Map.empty, demo_world) (Map.empty, w)"
    unfolding w by (blast intro: pool_steps_trans)+
  then show ?thesis
    using p passes_fate [OF p demo_accepted(1,2)] by blast
qed

inductive_cases passes_noneE: "passes ci m e w [] w'"

lemma demo_starts: "starts_empty demo_world"
  by (simp add: starts_empty_def demo_world_def)

end
