(* ===== verification/Operations.thy ===== *)
theory Operations
  imports Sample
begin

text \<open>
  What single operations return and do, on every branch: ingestion of a new and of a known event,
  the claim, the batch of due jobs, one delivery attempt, the recovery of a lease.
\<close>

lemma demo_env_rules [simp]: "sane_env (demo_env ids now reply)" "e_fold (demo_env ids now reply) = binary"
  "e_exchange (demo_env ids now reply) t http = reply" "e_clock (demo_env ids now reply) t = now"
  "wf_db binary (w_db demo_accepted)"
  using demo_sane(1) demo_accepted(1) by (simp_all add: env_ok_def) (simp_all add: demo_env_def)

section \<open>Ingestion\<close>

text \<open>
  Property C17. A new event is accepted: the response says so, and the database gains exactly the
  event, PENDING and as submitted, and one job for it, PENDING, due at once, without attempts or
  lock. Nothing else changes.
\<close>

theorem accept_new:
  assumes "no_faults env" and "wf_db (e_fold env) (w_db w)" and "fresh_uuids env (w_db w)"
    and "\<forall>e \<in> set (events (w_db w)). \<not> sql_eq env (er_eventId e) (dto_eventId dto)"
  shows "\<exists>e r. w_db (snd (run (create env dto) w)) =
      (w_db w)\<lparr>events := events (w_db w) @ [e], jobs := jobs (w_db w) @ [r]\<rparr> \<and>
    fst (run (create env dto) w) =
      Inr \<lparr>cr_accepted = True, cr_duplicate = False, cr_eventId = dto_eventId dto,
           cr_status = PENDING, cr_message = ''Event accepted and delivery scheduled''\<rparr> \<and>
    er_eventId e = dto_eventId dto \<and> er_type e = dto_type dto \<and> er_occurredAt e = dto_occurredAt dto \<and>
    er_payload e = payload_or_empty (dto_payload dto) \<and> er_status e = PENDING \<and>
    jr_eventId r = dto_eventId dto \<and> jr_status r = PENDING \<and> jr_attemptCount r = 0 \<and>
    jr_lockedAt r = None \<and> (\<exists>t. jr_nextAttemptAt r = e_clock env t)"
proof -
  have "\<not> known_event env (dto_eventId dto) (w_db w)" using assms(4) by (simp add: known_event_def)
  from runs_create_new [OF assms(1-3) this]
  show ?thesis
    unfolding runs_def
    by (fastforce simp: new_event_def new_job_def)
qed

theorem accept_new_witness:
  "\<exists>e r. w_db (snd (run (create (demo_env 0 7 (demo_reply 200)) demo_dto) demo_world)) =
     empty_db\<lparr>events := [e], jobs := [r]\<rparr> \<and> jr_status r = PENDING \<and> jr_nextAttemptAt r = 7"
proof -
  let ?env = "demo_env 0 7 (demo_reply 200)"
  have "wf_db (e_fold ?env) (w_db demo_world)" "fresh_uuids ?env (w_db demo_world)"
    "\<forall>e \<in> set (events (w_db demo_world)). \<not> sql_eq ?env (er_eventId e) (dto_eventId demo_dto)"
    by (simp_all add: demo_world_db wf_empty fresh_uuids_def) (simp_all add: empty_db_def)
  from accept_new [OF demo_sane(2) this] show ?thesis
    by (auto simp: demo_world_db demo_env_def) (auto simp: empty_db_def)
qed

text \<open>
  Property C18. Idempotence: submitting an event whose key is known changes nothing in the database;
  the response reports the duplicate with the stored event's identity and current status.
\<close>

theorem duplicate_changes_nothing:
  assumes "no_faults env" and "sane_env env" and "ev \<in> set (events (w_db w))"
    and "sql_eq env (er_eventId ev) (dto_eventId dto)"
  shows "w_db (snd (run (create env dto) w)) = w_db w \<and>
    (\<exists>e \<in> set (events (w_db w)). sql_eq env (er_eventId e) (dto_eventId dto) \<and>
      (\<exists>response. fst (run (create env dto) w) = Inr response \<and> cr_duplicate response \<and>
         cr_accepted response \<and> cr_eventId response = er_eventId e \<and> cr_status response = er_status e))"
proof -
  have "known_event env (dto_eventId dto) (w_db w)" using assms(3,4) by (auto simp: known_event_def)
  from runs_create_duplicate [OF assms(1,2) this] show ?thesis by (fastforce simp: runs_def)
qed

theorem duplicate_changes_nothing_witness:
  "w_db (snd (run (create (demo_env 0 9 (demo_reply 200)) demo_dto) demo_accepted)) = w_db demo_accepted"
proof -
  from demo_accepted(2) obtain ev where "ev \<in> set (events (w_db demo_accepted))" "er_eventId ev = ''evt-1''"
    by (auto simp: job_at_def)
  moreover from this have "sql_eq (demo_env 0 9 (demo_reply 200)) (er_eventId ev) (dto_eventId demo_dto)"
    by (simp add: sql_eq_def demo_dto_def)
  moreover have "sane_env (demo_env 0 9 (demo_reply 200))" using demo_sane(1) by (simp add: env_ok_def)
  ultimately show ?thesis using duplicate_changes_nothing [OF demo_sane(2)] by blast
qed

section \<open>The claim\<close>

text \<open>
  Property C4. The claim is exclusive. Its UPDATE takes a job exactly when the job is PENDING or
  RETRYING and due, moves that one row to DELIVERING under the worker's lock and counts one attempt;
  and once it has taken a job, no UPDATE of any other claim, at any time, takes it again.
\<close>

theorem claim_is_exclusive:
  assumes "wf_db (e_fold env) d" and "e_fold env' = e_fold env"
    and "claim_update env j worker now t d = (Inr n, d')"
  shows "(if \<exists>r \<in> set (jobs d). sql_eq env (jr_id r) j \<and>
             (jr_status r = PENDING \<or> jr_status r = RETRYING) \<and> jr_nextAttemptAt r \<le> now
          then n \<noteq> 0 \<and> (\<exists>r r'. sql_eq env (jr_id r) j \<and> jobs d' = replace_row r r' (jobs d) \<and>
             jr_status r' = DELIVERING \<and> jr_attemptCount r' = jr_attemptCount r + 1 \<and>
             jr_lockedBy r' = Some worker \<and> jr_lockedAt r' = Some now)
          else n = 0 \<and> d' = d) \<and>
    (n \<noteq> 0 \<longrightarrow> fst (claim_update env' j worker' now' t' d') = Inr 0)"
proof -
  have due: "due now r \<longleftrightarrow> (jr_status r = PENDING \<or> jr_status r = RETRYING) \<and> jr_nextAttemptAt r \<le> now" for r now
    by (auto simp: due_def CLAIMABLE_STATUSES_def)
  show ?thesis
  proof (cases "\<exists>r \<in> set (jobs d). sql_eq env (jr_id r) j")
    case True
    then obtain r where r: "r \<in> set (jobs d)" and id: "sql_eq env (jr_id r) j" by auto
    from wf_job_of [OF assms(1) r] obtain ev where j: "job_of env d r ev" ..
    have only: "q = r" if "q \<in> set (jobs d)" "sql_eq env (jr_id q) j" for q
      using j id that by (simp add: job_of_def sql_eq_def)
    have P: "sql_eq env (jr_id q) j \<and> due now q \<longleftrightarrow> sql_eq env (jr_id q) (jr_id r) \<and> due now q" for q
      using id by (auto simp: sql_eq_def)
    show ?thesis
    proof (cases "due now r")
      case True
      from update_jobs_one [OF j P True, of "claim_row worker now" t] assms(3)
      have n: "0 < n" and d': "d' = d\<lparr>jobs := replace_row r
          ((claim_row worker now r)\<lparr>jr_updatedAt := e_db_clock env t\<rparr>) (jobs d)\<rparr>" by auto
      have "\<not> due now' q" if "q \<in> set (jobs d')" "sql_eq env' (jr_id q) j" for q
      proof -
        let ?r' = "(claim_row worker now r)\<lparr>jr_updatedAt := e_db_clock env t\<rparr>"
        from that(2) assms(2) have "sql_eq env (jr_id q) j" by (simp add: sql_eq_def)
        moreover from that(1) r have "q = ?r' \<or> q \<in> set (jobs d) \<and> q \<noteq> r" by (auto simp: d' set_replace_row)
        ultimately have "q = ?r'" using only by blast
        then show ?thesis by (simp add: due claim_row_def)
      qed
      then have "filter (\<lambda>q. sql_eq env' (jr_id q) j \<and> due now' q) (jobs d') = []"
        by (auto simp: filter_empty_conv)
      moreover have "\<exists>r r'. sql_eq env (jr_id r) j \<and> jobs d' = replace_row r r' (jobs d) \<and>
             jr_status r' = DELIVERING \<and> jr_attemptCount r' = jr_attemptCount r + 1 \<and>
             jr_lockedBy r' = Some worker \<and> jr_lockedAt r' = Some now"
        using id d' by (intro exI [of _ r] exI [of _ "(claim_row worker now r)\<lparr>jr_updatedAt := e_db_clock env t\<rparr>"])
          (simp add: claim_row_def)
      ultimately show ?thesis using n r id True by (auto simp: update_jobs_def due)
    next
      case False
      from update_jobs_none [OF j P False, of "claim_row worker now" t] assms(3) have "n = 0" "d' = d" by auto
      with False only show ?thesis by (auto simp: due)
    qed
  next
    case False
    then have "filter (\<lambda>r. sql_eq env (jr_id r) j \<and> due now r) (jobs d) = []"
      by (auto simp: filter_empty_conv)
    moreover have "map (\<lambda>r. if sql_eq env (jr_id r) j \<and> due now r
        then (claim_row worker now r)\<lparr>jr_updatedAt := e_db_clock env t\<rparr> else r) (jobs d) = jobs d"
      using False by (intro map_idI) auto
    ultimately have "n = 0" "d' = d" using assms(3) by (auto simp: update_jobs_def)
    with False show ?thesis by auto
  qed
qed

lemma demo_job:
  obtains r where "r \<in> set (jobs (w_db demo_accepted))" "jr_eventId r = ''evt-1''" "jr_status r = PENDING"
    "jr_attemptCount r = 0"
  using demo_accepted(2) by (auto simp: job_at_def sole_open_def)

text \<open>The job claimed, and left there.\<close>

lemma demo_claimed:
  obtains w :: world and r now where "wf_db binary (w_db w)" "r \<in> set (jobs (w_db w))" "jr_eventId r = ''evt-1''"
    "jr_status r = DELIVERING" "jr_lockedAt r = Some now" "jr_attemptCount r = 1"
proof -
  obtain r where r: "r \<in> set (jobs (w_db demo_accepted))" "jr_eventId r = ''evt-1''" "jr_status r = PENDING"
    "jr_attemptCount r = 0" by (rule demo_job)
  let ?env = "demo_env 0 (jr_nextAttemptAt r) (demo_reply 200)"
  have wf: "wf_db (e_fold ?env) (w_db demo_accepted)" by simp
  obtain ev where j: "job_of ?env (w_db demo_accepted) r ev" using wf_job_of [OF wf r(1)] ..
  let ?w = "snd (run (claim ?env (jr_id r) ''w1'') demo_accepted)"
  have due: "due (e_clock ?env t) r" for t using r(3) by (simp add: due_def CLAIMABLE_STATUSES_def)
  have "runs (claim ?env (jr_id r) ''w1'') (w_db demo_accepted) (\<lambda>_ d'. \<exists>r'. claimed_row ?env ''w1'' r r' \<and>
      jobs d' = replace_row r r' (jobs (w_db demo_accepted)))"
    by (rule runs_claim [OF demo_sane(2) demo_env_rules(1) j due]) auto
  then obtain r' where r': "claimed_row ?env ''w1'' r r'" "jobs (w_db ?w) = replace_row r r' (jobs (w_db demo_accepted))"
    unfolding runs_def by blast
  have "r' \<in> set (jobs (w_db ?w))" using r(1) r'(2) by (simp add: set_replace_row)
  moreover have "wf_db binary (w_db ?w)"
  proof -
    have "shared.safe binary (\<lambda>_. True) (claim ?env (jr_id r) ''w1'') (\<lambda>_ _. True)"
      by (rule shared.safe_conseq [OF shared.safe_claim [OF demo_sane(1)]]) auto
    from sat_run [OF shared.safe_wsat [OF this demo_accepted(1) TrueI] demo_accepted(1)]
    show ?thesis by (auto intro: mono_trans)
  qed
  ultimately show ?thesis
    using that [of ?w r'] claimed_row_fields [OF r'(1)] r by auto
qed

theorem claim_is_exclusive_witness:
  "\<exists>j now n d'. claim_update (demo_env 0 9 (demo_reply 200)) j ''w1'' now 0 (w_db demo_accepted) = (Inr n, d') \<and>
     n \<noteq> 0 \<and> fst (claim_update (demo_env 1 10 (demo_reply 500)) j ''w2'' (now + 5) 1 d') = Inr 0"
proof -
  obtain r where r: "r \<in> set (jobs (w_db demo_accepted))" "jr_status r = PENDING" by (rule demo_job)
  let ?env = "demo_env 0 9 (demo_reply 200)" and ?env' = "demo_env 1 10 (demo_reply 500)"
  obtain n d' where u: "claim_update ?env (jr_id r) ''w1'' (jr_nextAttemptAt r) 0 (w_db demo_accepted) = (Inr n, d')"
    by (simp add: update_jobs_def)
  have "wf_db (e_fold ?env) (w_db demo_accepted)" "e_fold ?env' = e_fold ?env"
    using demo_accepted(1) by (simp_all add: demo_env_def)
  note x = claim_is_exclusive [OF this u, where worker' = "''w2''" and now' = "jr_nextAttemptAt r + 5" and t' = 1]
  have "n \<noteq> 0" using x r by (auto simp: sql_eq_def split: if_splits)
  with x u show ?thesis by blast
qed

text \<open>
  The batch of a pass: the ids are those of claimable due jobs, each listed once, at
  most as many as the batch size; if there is room every due job is in it, and no due job that is
  left out was due before one that is taken.
\<close>

theorem due_batch:
  assumes "no_faults env" and "sane_env env" and "wf_db (e_fold env) (w_db w)" and "0 < b"
  shows "\<exists>rows t. fst (run (findDueJobIds env (of_nat b)) w) = Inr (map jr_id rows) \<and>
    w_db (snd (run (findDueJobIds env (of_nat b)) w)) = w_db w \<and>
    distinct (map jr_id rows) \<and> length rows = min b (length (filter (due (e_clock env t)) (jobs (w_db w)))) \<and>
    (\<forall>r \<in> set rows. r \<in> set (jobs (w_db w)) \<and> jr_status r \<in> set CLAIMABLE_STATUSES \<and>
       jr_nextAttemptAt r \<le> e_clock env t) \<and>
    sorted (map jr_nextAttemptAt rows) \<and>
    (\<forall>r \<in> set rows. \<forall>q \<in> set (jobs (w_db w)) - set rows.
       due (e_clock env t) q \<longrightarrow> jr_nextAttemptAt r \<le> jr_nextAttemptAt q)"
  using runs_findDue_batch [OF assms(1-3) refl assms(4)] unfolding runs_def by blast

theorem due_batch_witness:
  "\<exists>rows :: job_row list. fst (run (findDueJobIds (demo_env 1 9000 (demo_reply 200)) (of_nat 10)) demo_accepted) = Inr (map jr_id rows) \<and>
     distinct (map jr_id rows)"
proof -
  let ?env = "demo_env 1 9000 (demo_reply 200)"
  have env: "sane_env ?env" "wf_db (e_fold ?env) (w_db demo_accepted)"
    by simp_all
  have "(0 :: nat) < 10" by simp
  from due_batch [OF demo_sane(2) env this] show ?thesis
    by (elim exE conjE, intro exI conjI) assumption+
qed

section \<open>One attempt\<close>

text \<open>
  Property C5. The outcome of an attempt, on every branch. A claimed job's event is sent once, as
  accepted, in a signed request; the outcome and the job's next status are those the answer
  demands: DELIVERED for a 2xx, RETRYING for a retryable failure with budget left (due after the
  policy's delay), FAILED otherwise. The attempt is closed accordingly, the lock released, the event shows
  the job's status, and nothing else in the database changes.
\<close>

theorem attempt_outcome:
  assumes "no_faults env" and "sane_env env" and "wf_db (e_fold env) (w_db w)" and "r \<in> set (jobs (w_db w))"
    and "fresh_uuids env (w_db w)" and "unattempted env (jr_eventId r) (jr_attemptCount r) (w_db w)"
  shows "\<exists>ev reply x nx. ev \<in> set (events (w_db w)) \<and> er_eventId ev = jr_eventId r \<and>
    sent_as env ev (jr_attemptCount r) reply x \<and> next_due env r reply nx \<and>
    fst (run (executeClaimedJob env r) w) = Inr (outcome_of env (jr_attemptCount r) reply nx) \<and>
    settled env r ev reply nx (attempts (w_db w)) ((w_db w)\<lparr>wire := wire (w_db w) @ [x]\<rparr>)
      (w_db (snd (run (executeClaimedJob env r) w)))"
proof -
  from wf_job_of [OF assms(3,4)] obtain ev where j: "job_of env (w_db w) r ev" ..
  have "runs (executeClaimedJob env r) (w_db w) (\<lambda>res d'. \<exists>reply x nx.
    sent_as env ev (jr_attemptCount r) reply x \<and> next_due env r reply nx \<and>
    res = Inr (outcome_of env (jr_attemptCount r) reply nx) \<and>
    settled env r ev reply nx (attempts (w_db w)) ((w_db w)\<lparr>wire := wire (w_db w) @ [x]\<rparr>) d')"
    by (rule runs_execute [OF assms(1,2) j assms(5,6)]) blast
  moreover have "ev \<in> set (events (w_db w))" "er_eventId ev = jr_eventId r"
    using j by (auto simp: job_of_def event_of_def)
  ultimately show ?thesis unfolding runs_def by blast
qed

theorem attempt_outcome_witness:
  "\<exists>ids r. r \<in> set (jobs (w_db demo_accepted)) \<and>
     fst (run (executeClaimedJob (demo_env ids 9000 (demo_reply 204)) r) demo_accepted) =
       Inr (Delivered_outcome 0 (Some 204))"
proof -
  obtain r where r: "r \<in> set (jobs (w_db demo_accepted))" "jr_attemptCount r = 0" by (rule demo_job)
  obtain ids where ids: "fresh_uuids (demo_env ids 9000 (demo_reply 204)) (w_db demo_accepted)"
    using demo_fresh by blast
  let ?env = "demo_env ids 9000 (demo_reply 204)"
  have env: "sane_env ?env" "wf_db (e_fold ?env) (w_db demo_accepted)"
    by simp_all
  have "unattempted ?env (jr_eventId r) (jr_attemptCount r) (w_db demo_accepted)"
    using demo_accepted(1) r(2) by (auto simp: unattempted_def wf_db_def counted_def)
  from attempt_outcome [OF demo_sane(2) env r(1) ids this] obtain reply x nx ev where
    "sent_as ?env ev (jr_attemptCount r) reply x"
    "fst (run (executeClaimedJob ?env r) demo_accepted) = Inr (outcome_of ?env (jr_attemptCount r) reply nx)" by blast
  moreover from this have "reply = demo_reply 204" by (auto simp: sent_as_def demo_env_def)
  ultimately show ?thesis
    using r by (auto simp: outcome_of_def reply_ok_def ok_status_def demo_reply_def http_status_of_def)
qed

text \<open>
  Property C19. A claimed job is never skipped: whatever the other programs of the system do between
  its steps, with failing statements and any answers, \<open>executeClaimedJob\<close> keeps the invariant and
  the history of the database, and does not end in the branch for a missing event.
\<close>

theorem claimed_job_never_skipped:
  assumes "env_ok ci env" and "wf_db ci (w_db w)" and "r \<in> set (jobs (w_db w))"
    and "jr_status r = DELIVERING"
  shows "wsat mono_db (wf_db ci) mono_db (\<lambda>out _. \<forall>reason. out \<noteq> Skipped_outcome reason) (\<lambda>_ _. True)
    (executeClaimedJob env r) w"
proof -
  have "job_ok r" using assms(2,3) by (simp add: wf_db_def)
  with assms(4) have "1 \<le> jr_attemptCount r" by (auto simp: job_ok_def)
  with assms(3) have h: "held r (w_db w)" by (auto simp: held_def)
  have "shared.safe ci (held r) (executeClaimedJob env r) (\<lambda>out _. \<not> skipped out)"
    using assms(1) by (rule shared.safe_executeClaimedJob)
  from shared.safe_wsat [OF this assms(2) h]
  show ?thesis by (rule sat_conseq) (auto simp: skipped_def assms(2))
qed

theorem claimed_job_never_skipped_witness:
  "\<exists>w r. jr_status r = DELIVERING \<and>
     wsat mono_db (wf_db binary) mono_db (\<lambda>out _. \<forall>reason. out \<noteq> Skipped_outcome reason) (\<lambda>_ _. True)
       (executeClaimedJob (demo_env 0 9 (demo_reply 500)) r) w"
proof -
  obtain w :: world and r where "wf_db binary (w_db w)" "r \<in> set (jobs (w_db w))" "jr_status r = DELIVERING" by (rule demo_claimed)
  with claimed_job_never_skipped [OF demo_sane(1) this] show ?thesis by blast
qed

section \<open>Publishing\<close>

text \<open>
  Property C20. Realtime publishing is best effort: whatever the socket server throws, and with or
  without a server, \<open>publish\<close> returns the event, stamped with an emission time if it had none, and
  leaves the database and the worker of the node alone.
\<close>

theorem publish_is_best_effort:
  "(\<exists>t. fst (run (publish env event) w) =
     Inr (event\<lparr>re_emittedAt := Some (case re_emittedAt event of None \<Rightarrow> toISOString (e_clock env t) | Some s \<Rightarrow> s)\<rparr>)) \<and>
   w_db (snd (run (publish env event) w)) = w_db w \<and>
   (\<forall>n. n_worker (w_nodes (snd (run (publish env event) w)) n) = n_worker (w_nodes w n) \<and>
        n_metrics (w_nodes (snd (run (publish env event) w)) n) = n_metrics (w_nodes w n))"
proof -
  let ?same = "\<lambda>p. \<forall>w. w_db (snd (run p w)) = w_db w \<and>
    (\<forall>n. n_worker (w_nodes (snd (run p w)) n) = n_worker (w_nodes w n) \<and>
         n_metrics (w_nodes (snd (run p w)) n) = n_metrics (w_nodes w n))"
  have bind: "?same (bindP p k)" if "?same p" "\<And>x. ?same (k x)" for p :: "'a io" and k :: "'a \<Rightarrow> 'b io"
    using that by (auto simp: run_bindP split: prod.splits sum.splits) (metis snd_conv)+
  have catch: "?same (catchP p h)" if "?same p" "\<And>x. ?same (h x)" for p :: "'a io" and h
    using that by (auto simp: run_catchP split: prod.splits sum.splits) (metis snd_conv)+
  have gate: "?same (gatewayP env f)" for f by (simp add: gatewayP_def run_nodeP)
  have emit: "?same (emitP env c e)" for c e
  proof -
    have sock: "?same (tryP (\<lambda>w. (case e_socket env (w_tick w) of None \<Rightarrow> Inr () | Some e \<Rightarrow> Inl e, bump w)))"
      by (simp add: run_tryP)
    have "?same (if server then bindP (tryP (\<lambda>w. (case e_socket env (w_tick w) of None \<Rightarrow> Inr () | Some e \<Rightarrow> Inl e, bump w)))
        (\<lambda>_. gatewayP env (\<lambda>g. g\<lparr>g_emitted := g_emitted g @ [(c, e)]\<rparr>)) else Ret ())" for server
    proof (cases server)
      case True
      show ?thesis unfolding if_P [OF True] by (rule bind [OF sock gate])
    qed simp
    then show ?thesis unfolding emitP_def emitWith_def by (rule bind [rotated]) (simp add: run_readNodeP)
  qed
  have "?same (gateway_publish env e)" for e
    unfolding gateway_publish_def by (intro bind emit gate)
  then have same: "?same (catchP (gateway_publish env e) (\<lambda>e. Ret ()))" for e by (rule catch) simp
  then have "?same (publish env event)"
    unfolding publish_def Let_def by (intro bind) (auto simp: run_nowP)
  moreover have "\<exists>t. fst (run (publish env event) w) =
     Inr (event\<lparr>re_emittedAt := Some (case re_emittedAt event of None \<Rightarrow> toISOString (e_clock env t) | Some s \<Rightarrow> s)\<rparr>)"
    by (intro exI [of _ "w_tick w"])
       (auto simp: publish_def Let_def run_bindP run_nowP run_catchP coalesce_def split: prod.splits sum.splits option.splits)
  ultimately show ?thesis by blast
qed

end
