(* ===== verification/Recovery.thy ===== *)
theory Recovery
  imports Operations
begin

text \<open>
  Lease recovery (\<open>recoverStaleJobs\<close> of \<open>delivery.service.ts\<close>): what one sweep does to the
  jobs whose lease expired, to their events and to their open attempts.
\<close>

section \<open>One expired lease\<close>

text \<open>The row a recovered job is left with.\<close>

definition recovered_row :: "env \<Rightarrow> int \<Rightarrow> job_row \<Rightarrow> job_row \<Rightarrow> bool" where
  "recovered_row env now r r' \<longleftrightarrow>
     (\<exists>t. r' = (if budget env \<le> of_int (jr_attemptCount r)
        then release_row DeliveryStatus.FAILED (jr_nextAttemptAt r) r
        else release_row RETRYING (nextAttemptAt (cfg_retry (e_cfg env)) (jr_attemptCount r) now) r)
        \<lparr>jr_updatedAt := t\<rparr>)"

lemma recovered_row_fields:
  assumes "recovered_row env now r r'"
  shows "jr_id r' = jr_id r" "jr_eventId r' = jr_eventId r" "jr_attemptCount r' = jr_attemptCount r"
    "jr_status r' \<noteq> DELIVERING" "jr_lockedAt r' = None"
  using assms by (auto simp: recovered_row_def release_row_def unlock_def split: if_splits)

definition keyed :: "env \<Rightarrow> db \<Rightarrow> bool" where
  "keyed env d \<longleftrightarrow>
     distinct (map (\<lambda>r. e_fold env (jr_id r)) (jobs d)) \<and>
     map jr_eventId (jobs d) = map er_eventId (events d) \<and>
     distinct (map (\<lambda>e. e_fold env (er_eventId e)) (events d))"

lemma wf_keyed: "wf_db (e_fold env) d \<Longrightarrow> keyed env d"
  by (simp add: wf_db_def keyed_def)

lemma keyed_job_of:
  assumes "keyed env d" and "r \<in> set (jobs d)"
  shows "\<exists>ev. job_of env d r ev"
proof -
  have "jr_eventId r \<in> set (map jr_eventId (jobs d))" using assms(2) by simp
  also have "map jr_eventId (jobs d) = map er_eventId (events d)" using assms(1) by (simp add: keyed_def)
  finally obtain ev where ev: "ev \<in> set (events d)" "er_eventId ev = jr_eventId r" by auto
  have distinct: "distinct (map (\<lambda>r. e_fold env (jr_id r)) (jobs d))"
    "distinct (map (\<lambda>e. e_fold env (er_eventId e)) (events d))"
    using assms(1) by (simp_all add: keyed_def)
  have "q = r" if "q \<in> set (jobs d)" "sql_eq env (jr_id q) (jr_id r)" for q
    using distinct_map_eq [OF distinct(1) that(1) assms(2)] that(2) by (simp add: sql_eq_def)
  moreover have "q = ev" if "q \<in> set (events d)" "sql_eq env (er_eventId q) (jr_eventId r)" for q
    using distinct_map_eq [OF distinct(2) that(1) ev(1)] that(2) ev(2) by (simp add: sql_eq_def)
  ultimately show ?thesis using ev assms(2) by (auto simp: job_of_def event_of_def)
qed

lemma map_replace_row: "f r' = f r \<Longrightarrow> map f (replace_row r r' rows) = map f rows"
  by (simp add: replace_row_def)

definition closed_attempts :: "env \<Rightarrow> string \<Rightarrow> db \<Rightarrow> attempt_row list \<Rightarrow> bool" where
  "closed_attempts env e d as \<longleftrightarrow>
     (\<exists>reason t. as = map (\<lambda>a. if in_flight env e a then abandon_attempt reason t a else a) (attempts d))"

lemma runs_closeAbandoned:
  assumes "no_faults env" and "\<And>n as. closed_attempts env e d as \<Longrightarrow> Q (Inr n) (d\<lparr>attempts := as\<rparr>)"
  shows "runs (closeAbandoned env e reason) d Q"
  unfolding closeAbandoned_def
  by (rule runs_bind, rule runs_nowP, simp only: sum.case, rule runs_stmt_known [OF assms(1)],
      unfold update_attempts_def, intro exI conjI, rule refl, rule assms(2))
     (auto simp: closed_attempts_def)

text \<open>What the recovery of one job does.\<close>

definition recovered :: "env \<Rightarrow> int \<Rightarrow> job_row \<Rightarrow> db \<Rightarrow> db \<Rightarrow> bool" where
  "recovered env now r d d' \<longleftrightarrow>
     (\<exists>r' ev t as. recovered_row env now r r' \<and> job_of env d r ev \<and> closed_attempts env (jr_eventId r) d as \<and>
        d' = d\<lparr>attempts := as, jobs := replace_row r r' (jobs d),
               events := replace_row ev (ev\<lparr>er_status := jr_status r', er_updatedAt := t\<rparr>) (events d)\<rparr>)"

lemma runs_releaseStaleJob:
  assumes "no_faults env" and j: "job_of env d r ev" and r: "jr_status r = DELIVERING" "jr_lockedAt r \<noteq> None"
    and Q: "\<And>t t'. Q (Inr True) (d\<lparr>jobs := replace_row r ((release_row s nx r)\<lparr>jr_updatedAt := t\<rparr>) (jobs d),
      events := replace_row ev (ev\<lparr>er_status := s, er_updatedAt := t'\<rparr>) (events d)\<rparr>)"
  shows "runs (releaseStaleJob env r s nx) d Q"
  unfolding releaseStaleJob_def
proof (rule runs_bind, rule runs_update_jobs_one [OF assms(1) j,
    where g = "\<lambda>q. jr_status q = DELIVERING \<and> jr_lockedAt q \<noteq> None \<and> jr_lockedAt q = jr_lockedAt r"])
  fix n :: nat and t assume "0 < n"
  let ?d = "d\<lparr>jobs := replace_row r ((release_row s nx r)\<lparr>jr_updatedAt := t\<rparr>) (jobs d)\<rparr>"
  have "runs (bindP (updateEventStatus env (jr_eventId r) s) (\<lambda>_. Ret True)) ?d Q"
  proof (rule runs_bind, rule runs_mirror [OF assms(1)])
    show "event_of env ?d (jr_eventId r) ev" using j by (simp add: job_of_def event_of_def)
  qed (use Q in \<open>auto intro: runs_Ret\<close>)
  with \<open>0 < n\<close> show "case Inr n of Inl e \<Rightarrow> Q (Inl e) ?d | Inr x \<Rightarrow> runs (if x \<noteq> 0
      then bindP (updateEventStatus env (jr_eventId r) s) (\<lambda>_. Ret True) else Ret False) ?d Q"
    by simp
qed (use r in \<open>auto simp: same_lease_def\<close>)

lemma runs_recoverJob:
  assumes "no_faults env" and j: "job_of env d r ev" and r: "jr_status r = DELIVERING" "jr_lockedAt r \<noteq> None"
    and Q: "\<And>d'. recovered env now r d d' \<Longrightarrow> Q (Inr (k + 1)) d'"
  shows "runs (recoverJob env now r k) d Q"
proof -
  have spent: "isExhausted (cfg_retry (e_cfg env)) (jr_attemptCount r) \<longleftrightarrow> budget env \<le> of_int (jr_attemptCount r)"
    by (simp add: isExhausted_def budget_def)
  have step: "runs (releaseStaleJob env r s nx) (d\<lparr>attempts := as\<rparr>)
      (\<lambda>res d'. res = Inr True \<and> recovered env now r d d')"
    if as: "closed_attempts env (jr_eventId r) d as"
      and s: "\<And>t. recovered_row env now r ((release_row s nx r)\<lparr>jr_updatedAt := t\<rparr>)" for s nx as
  proof (rule runs_releaseStaleJob [OF assms(1) _ r])
    show "job_of env (d\<lparr>attempts := as\<rparr>) r ev" using j by (simp add: job_of_def event_of_def)
    fix t t'
    have "jr_status ((release_row s nx r)\<lparr>jr_updatedAt := t\<rparr>) = s" by (simp add: release_row_def unlock_def)
    with as s j show "Inr True = Inr True \<and> recovered env now r d
        ((d\<lparr>attempts := as\<rparr>)\<lparr>jobs := replace_row r ((release_row s nx r)\<lparr>jr_updatedAt := t\<rparr>) (jobs (d\<lparr>attempts := as\<rparr>)),
          events := replace_row ev (ev\<lparr>er_status := s, er_updatedAt := t'\<rparr>) (events (d\<lparr>attempts := as\<rparr>))\<rparr>)"
      unfolding recovered_def by fastforce
  qed
  note Q' = Q [simplified]
  have rows: "recovered_row env now r ((release_row (if budget env \<le> of_int (jr_attemptCount r)
      then DeliveryStatus.FAILED else RETRYING) (if budget env \<le> of_int (jr_attemptCount r)
      then jr_nextAttemptAt r else nextAttemptAt (cfg_retry (e_cfg env)) (jr_attemptCount r) now) r)\<lparr>jr_updatedAt := t\<rparr>)" for t
    by (auto simp: recovered_row_def)
  show ?thesis
  proof (cases "budget env \<le> of_int (jr_attemptCount r)")
    case True
    then show ?thesis
      unfolding recoverJob_def Let_def spent using rows
      by (auto intro!: runs_bind runs_closeAbandoned [OF assms(1)] runs_conseq [OF step] runs_metricP
          runs_publish runs_Ret Q')
  next
    case False
    then show ?thesis
      unfolding recoverJob_def Let_def spent using rows
      by (auto intro!: runs_bind runs_closeAbandoned [OF assms(1)] runs_conseq [OF step] runs_metricP
          runs_publish runs_Ret Q')
  qed
qed

section \<open>A sweep\<close>

definition swept :: "env \<Rightarrow> int \<Rightarrow> job_row list \<Rightarrow> db \<Rightarrow> db \<Rightarrow> bool" where
  "swept env now stale d d' \<longleftrightarrow>
     list_all2 (\<lambda>q q'. if q \<in> set stale then recovered_row env now q q' else q' = q) (jobs d) (jobs d') \<and>
     (\<forall>r \<in> set stale. \<forall>a \<in> set (attempts d'). \<not> in_flight env (jr_eventId r) a) \<and>
     (\<forall>a \<in> set (attempts d'). \<forall>e. in_flight env e a \<longrightarrow> a \<in> set (attempts d)) \<and>
     wire d' = wire d \<and> length (attempts d') = length (attempts d) \<and>
     map er_eventId (events d') = map er_eventId (events d)"

lemma in_flight_closed: "\<not> in_flight env e (abandon_attempt reason t a)"
  by (simp add: in_flight_def abandon_attempt_def)

lemma closed_attempts_in_flight:
  assumes "closed_attempts env e d as"
  shows "\<forall>a \<in> set as. \<not> in_flight env e a" "length as = length (attempts d)"
    "\<forall>a \<in> set as. in_flight env e' a \<longrightarrow> a \<in> set (attempts d)"
  using assms by (auto simp: closed_attempts_def in_flight_closed)

lemma recovered_swept:
  assumes k: "keyed env d" and r: "recovered env now r d d1" and rest: "swept env now rs d1 d'"
    and "\<forall>q \<in> set rs. jr_status q = DELIVERING" and "r \<notin> set rs"
  shows "swept env now (r # rs) d d'"
proof -
  from r obtain r' ev t as where r': "recovered_row env now r r'" and j: "job_of env d r ev"
    and as: "closed_attempts env (jr_eventId r) d as"
    and d1: "d1 = d\<lparr>attempts := as, jobs := replace_row r r' (jobs d),
        events := replace_row ev (ev\<lparr>er_status := jr_status r', er_updatedAt := t\<rparr>) (events d)\<rparr>"
    by (auto simp: recovered_def)
  have "r' \<notin> set rs" using recovered_row_fields [OF r'] assms(4) by auto
  then have "list_all2 (\<lambda>q q'. if q \<in> set (r # rs) then recovered_row env now q q' else q' = q) (jobs d) (jobs d')"
    using rest r' assms(5)
    by (auto simp: swept_def d1 replace_row_def list_all2_conv_all_nth split: if_splits)
  moreover have "\<not> in_flight env (jr_eventId q) a" if "q \<in> set (r # rs)" "a \<in> set (attempts d')" for q a
  proof
    assume f: "in_flight env (jr_eventId q) a"
    with rest that(2) have "a \<in> set (attempts d1)" unfolding swept_def by blast
    then have "a \<in> set as" by (simp add: d1)
    with closed_attempts_in_flight(1) [OF as] rest f that show False by (auto simp: swept_def)
  qed
  moreover have "a \<in> set (attempts d)" if "a \<in> set (attempts d')" "in_flight env e a" for a e
  proof -
    from rest that have "a \<in> set (attempts d1)" unfolding swept_def by blast
    with closed_attempts_in_flight(3) [OF as] that(2) show ?thesis by (simp add: d1)
  qed
  moreover have "wire d' = wire d" "length (attempts d') = length (attempts d)"
    "map er_eventId (events d') = map er_eventId (events d)"
    using rest closed_attempts_in_flight(2) [OF as] by (simp_all add: swept_def d1 map_replace_row)
  ultimately show ?thesis unfolding swept_def by blast
qed

lemma recovered_keyed:
  assumes "keyed env d" and "recovered env now r d d1"
  shows "keyed env d1" "q \<in> set (jobs d) \<Longrightarrow> q \<noteq> r \<Longrightarrow> q \<in> set (jobs d1)"
proof -
  from assms(2) obtain r' ev t as where r': "recovered_row env now r r'"
    and d1: "d1 = d\<lparr>attempts := as, jobs := replace_row r r' (jobs d),
        events := replace_row ev (ev\<lparr>er_status := jr_status r', er_updatedAt := t\<rparr>) (events d)\<rparr>"
    and j: "job_of env d r ev"
    by (auto simp: recovered_def)
  show "keyed env d1"
    using assms(1) recovered_row_fields [OF r'] by (simp add: keyed_def d1 map_replace_row)
  from j have "r \<in> set (jobs d)" by (simp add: job_of_def)
  then show "q \<in> set (jobs d) \<Longrightarrow> q \<noteq> r \<Longrightarrow> q \<in> set (jobs d1)"
    by (simp add: d1 set_replace_row)
qed

lemma runs_sweep:
  assumes "no_faults env" and "keyed env d" and "set stale \<subseteq> set (jobs d)" and "distinct stale"
    and "\<forall>r \<in> set stale. jr_status r = DELIVERING \<and> jr_lockedAt r \<noteq> None"
    and "\<And>d'. swept env now stale d d' \<Longrightarrow> Q (Inr (k + length stale)) d'"
  shows "runs (forP stale (recoverJob env now) k) d Q"
  using assms(2-6)
proof (induction stale arbitrary: k d)
  case Nil
  have "swept env now [] d d" by (simp add: swept_def list_all2_refl)
  with Nil.prems show ?case by (auto intro!: runs_Ret)
next
  case (Cons r rs)
  from Cons.prems obtain ev where j: "job_of env d r ev" using keyed_job_of by fastforce
  have "runs (forP rs (recoverJob env now) (k + 1)) d1 Q" if d1: "recovered env now r d d1" for d1
  proof (rule Cons.IH)
    show "keyed env d1" "set rs \<subseteq> set (jobs d1)" using recovered_keyed [OF Cons.prems(1) d1] Cons.prems by auto
    fix d' assume "swept env now rs d1 d'"
    with recovered_swept [OF Cons.prems(1) d1] Cons.prems have "swept env now (r # rs) d d'" by simp
    with Cons.prems(5) show "Q (Inr (k + 1 + length rs)) d'" by simp
  qed (use Cons.prems in auto)
  with Cons.prems j show ?case
    by (auto intro!: runs_bind runs_recoverJob [OF assms(1) j])
qed

text \<open>
  Property C16. A sweep recovers expired leases and nothing else. It returns the number of jobs it
  recovered, which is the batch size or, if fewer, the number of expired leases. Each of them is
  released: FAILED if the budget was spent, else RETRYING and due after the policy's delay, with its
  attempt count unchanged; every other job is left as it was. No event of a recovered job has
  an attempt in progress any more, and nothing is sent.
\<close>

theorem sweep_recovers_expired:
  assumes "no_faults env" and "sane_env env" and "wf_db (e_fold env) (w_db w)" and "0 < b"
  shows "\<exists>now stale. let cutoff = js_date (of_int now - leaseTimeoutMs (cfg_worker (e_cfg env)));
      d = w_db w; d' = w_db (snd (run (recoverStaleJobs env (of_nat b)) w)) in
    fst (run (recoverStaleJobs env (of_nat b)) w) = Inr (length stale) \<and>
    (\<exists>t. now = e_clock env t) \<and> distinct stale \<and>
    set stale \<subseteq> {r \<in> set (jobs d). lease_expired cutoff r} \<and>
    length stale = min b (length (filter (lease_expired cutoff) (jobs d))) \<and>
    list_all2 (\<lambda>q q'. if q \<in> set stale then recovered_row env now q q' else q' = q) (jobs d) (jobs d') \<and>
    (\<forall>r \<in> set stale. \<forall>a \<in> set (attempts d'). \<not> in_flight env (jr_eventId r) a) \<and>
    wire d' = wire d"
proof -
  let ?d = "w_db w"
  let ?cut = "\<lambda>now. js_date (of_int now - leaseTimeoutMs (cfg_worker (e_cfg env)))"
  let ?P = "\<lambda>res d'. \<exists>now stale. res = Inr (length stale) \<and> (\<exists>t. now = e_clock env t) \<and> distinct stale \<and>
    set stale \<subseteq> {r \<in> set (jobs ?d). lease_expired (?cut now) r} \<and>
    length stale = min b (length (filter (lease_expired (?cut now)) (jobs ?d))) \<and>
    swept env now stale ?d d'"
  have step: "runs (forP (sql_take env (of_nat b) (sql_order (\<lambda>r. coalesce (jr_lockedAt r) 0)
      (filter (lease_expired (?cut (e_clock env s))) (e_scan_jobs env t (jobs ?d))))) (recoverJob env (e_clock env s)) 0) ?d ?P"
    for s t
  proof -
    let ?exp = "filter (lease_expired (?cut (e_clock env s))) (e_scan_jobs env t (jobs ?d))"
    let ?stale = "take b (sort_key (\<lambda>r. coalesce (jr_lockedAt r) 0) ?exp)"
    have scan: "mset (e_scan_jobs env t (jobs ?d)) = mset (jobs ?d)" using assms(2) by (simp add: sane_env_def)
    then have len: "length ?exp = length (filter (lease_expired (?cut (e_clock env s))) (jobs ?d))"
      by (metis mset_filter size_mset)
    have "e_limit env (of_nat b) (length ?exp) = min b (length ?exp)"
      using assms(2,4) unfolding sane_env_def by blast
    then have stale: "sql_take env (of_nat b) (sql_order (\<lambda>r. coalesce (jr_lockedAt r) 0) ?exp) = ?stale"
      by (simp add: sql_take_def sql_order_def) (simp add: take_all_iff min_def)
    have mem: "r \<in> set (jobs ?d) \<and> lease_expired (?cut (e_clock env s)) r" if "r \<in> set ?stale" for r
    proof -
      have "r \<in> set ?exp" using in_set_takeD [OF that] by simp
      then show ?thesis using sane_scan(2) [OF assms(2)] by simp
    qed
    have "distinct (map (\<lambda>r. e_fold env (jr_id r)) (jobs ?d))" using assms(3) by (simp add: wf_db_def)
    then have "distinct (jobs ?d)" by (simp only: distinct_map)
    then have "distinct (e_scan_jobs env t (jobs ?d))" using scan by (metis mset_eq_imp_distinct_iff)
    then have d: "distinct ?stale" by (simp add: distinct_take)
    have len': "length ?stale = min b (length (filter (lease_expired (?cut (e_clock env s))) (jobs ?d)))"
      using len by (simp add: min.commute)
    show ?thesis unfolding stale
    proof (rule runs_sweep [OF assms(1) wf_keyed [OF assms(3)] _ d])
      show "set ?stale \<subseteq> set (jobs ?d)" using mem by blast
      have "jr_status r = DELIVERING \<and> jr_lockedAt r \<noteq> None" if "lease_expired c r" for c r
        using that by (auto simp: lease_expired_def split: option.splits)
      with mem show "\<forall>r \<in> set ?stale. jr_status r = DELIVERING \<and> jr_lockedAt r \<noteq> None" by blast
      fix d' assume "swept env (e_clock env s) ?stale ?d d'"
      with mem d len' show "?P (Inr (0 + length ?stale)) d'"
        unfolding add_0 by (intro exI [of _ "e_clock env s"] exI [of _ ?stale]) blast
    qed
  qed
  have "runs (recoverStaleJobs env (of_nat b)) ?d ?P"
    unfolding recoverStaleJobs_def findStaleJobs_def Let_def
    by (rule runs_bind, rule runs_nowP, simp only: sum.case, rule runs_bind, rule runs_mapP,
        rule runs_stmt_known [OF assms(1)], unfold select_jobs_def, intro exI conjI, rule refl,
        simp only: sum.case, rule step)
  then have "?P (fst (run (recoverStaleJobs env (of_nat b)) w)) (w_db (snd (run (recoverStaleJobs env (of_nat b)) w)))"
    unfolding runs_def by (elim allE impE) (rule refl)
  then show ?thesis
    unfolding Let_def swept_def by (elim exE conjE) (intro exI conjI; assumption)
qed

theorem sweep_recovers_expired_witness:
  "\<exists>w now k. fst (run (recoverStaleJobs (demo_env 0 now (demo_reply 200)) (of_nat 10)) w) = Inr k \<and> 0 < k"
proof -
  obtain w :: world and r l where w: "wf_db binary (w_db w)" "r \<in> set (jobs (w_db w))" "jr_status r = DELIVERING"
    "jr_lockedAt r = Some l" by (rule demo_claimed)
  let ?now = "l + 60001" and ?b = "10 :: nat"
  let ?env = "demo_env 0 ?now (demo_reply 200)"
  have wf: "wf_db (e_fold ?env) (w_db w)" using w(1) by simp
  have "js_date (of_int ?now - leaseTimeoutMs (cfg_worker (e_cfg ?env))) = l + 1"
  proof -
    have "of_int ?now - leaseTimeoutMs (cfg_worker (e_cfg ?env)) = (of_int (l + 1) :: rat)"
      by (simp add: demo_env_def demo_cfg_def)
    then show ?thesis by (simp only: js_date_def js_trunc_of_int)
  qed
  then have "r \<in> set (filter (lease_expired (js_date (of_int ?now - leaseTimeoutMs (cfg_worker (e_cfg ?env))))) (jobs (w_db w)))"
    using w by (simp add: lease_expired_def)
  then have pos: "0 < length (filter (lease_expired (js_date (of_int ?now - leaseTimeoutMs (cfg_worker (e_cfg ?env))))) (jobs (w_db w)))"
    by (rule length_pos_if_in_set)
  have "0 < ?b" by simp
  from sweep_recovers_expired [OF demo_sane(2) demo_env_rules(1) wf this] pos show ?thesis
    unfolding Let_def demo_env_rules by (elim exE conjE) (intro exI conjI, assumption, simp)
qed

end
