(* ===== verification/Lease.thy ===== *)
theory Lease
  imports Recovery Sample
begin

text \<open>
  What a worker may still do to a job it has lost. The claim and the recovery sweep are conditional
  updates, but \<open>transition\<close>, through which a worker settles its attempt, updates the row by its id
  alone, and \<open>complete\<close> closes an attempt whatever its state. A worker that was suspended for
  longer than the lease therefore overwrites the state another worker has written since.
\<close>

lemma runs_onRetry:
  assumes q: "no_faults env" and j: "job_of env d r ev" and id: "jr_id job = jr_id r" "jr_eventId job = jr_eventId r"
    and Q: "\<And>t nx d'. moved r (unlock (r\<lparr>jr_status := RETRYING, jr_nextAttemptAt := nx\<rparr>)) ev RETRYING d d' \<Longrightarrow>
      Q (Inr (Retry_scheduled_outcome n nx)) d'"
  shows "runs (onRetry env job event n result) d Q"
proof -
  have allowed: "assertTransition DELIVERING RETRYING (Some e) = Inr ()" for e
    by (simp add: assertTransition_def)
  have retry: "runs (scheduleRetry env job nx) d Q'"
    if "\<And>d'. moved r (unlock (r\<lparr>jr_status := RETRYING, jr_nextAttemptAt := nx\<rparr>)) ev RETRYING d d' \<Longrightarrow> Q' (Inr ()) d'"
    for nx Q'
    unfolding scheduleRetry_def using that by (rule runs_transition [OF q j id]) simp
  show ?thesis
    unfolding onRetry_def Let_def allowed throwP_def sum.case
    by (auto intro!: runs_bind runs_nowP runs_Ret retry runs_metricP runs_publish Q)
qed

text \<open>
  A late worker reopens a finished job: whatever the state of the row, DELIVERED
  included, when a worker that once claimed it settles a retryable failure, the row becomes
  RETRYING, unlocked and due at the time the worker computed, and the event's status with it - so
  the next pass delivers the event again. The recovery sweep's own release is guarded: on a row
  that is not DELIVERING it changes nothing.
\<close>

theorem late_retry_reopens_delivered:
  assumes "no_faults env" and "env_ok ci env" and "wf_db ci (w_db w)"
    and "r \<in> set (jobs (w_db w))" and "jr_id job = jr_id r" and "jr_eventId job = jr_eventId r"
    and "jr_status r = DELIVERED"
  shows "(let d' = w_db (snd (run (onRetry env job event n result) w)) in
      (\<exists>r' \<in> set (jobs d'). jr_id r' = jr_id r \<and> jr_attemptCount r' = jr_attemptCount r \<and>
         jr_status r' = RETRYING \<and> jr_lockedAt r' = None \<and> due (jr_nextAttemptAt r') r') \<and>
      (\<forall>ev \<in> set (events d'). er_eventId ev = jr_eventId r \<longrightarrow> er_status ev = RETRYING)) \<and>
    w_db (snd (run (releaseStaleJob env job RETRYING t) w)) = w_db w"
proof -
  let ?d = "w_db w"
  have "wf_db (e_fold env) ?d" using assms(2,3) by (simp add: env_ok_def)
  from wf_job_of [OF this assms(4)] obtain ev where j: "job_of env ?d r ev" by blast
  then have ev: "ev \<in> set (events ?d)" "er_eventId ev = jr_eventId r"
    and one: "\<And>q. q \<in> set (events ?d) \<Longrightarrow> er_eventId q = jr_eventId r \<Longrightarrow> q = ev"
    by (auto simp: job_of_def event_of_def sql_eq_def)
  let ?Q = "\<lambda>_ d'. \<exists>nx. moved r (unlock (r\<lparr>jr_status := RETRYING, jr_nextAttemptAt := nx\<rparr>)) ev RETRYING ?d d'"
  have "runs (onRetry env job event n result) ?d ?Q"
    by (rule runs_onRetry [OF assms(1) j assms(5,6)]) blast
  then obtain nx where m: "moved r (unlock (r\<lparr>jr_status := RETRYING, jr_nextAttemptAt := nx\<rparr>)) ev RETRYING ?d
      (w_db (snd (run (onRetry env job event n result) w)))" unfolding runs_def by blast
  obtain d' where d': "d' = w_db (snd (run (onRetry env job event n result) w))" by blast
  from m obtain t1 t2 where jobs: "jobs d' = replace_row r
      ((unlock (r\<lparr>jr_status := RETRYING, jr_nextAttemptAt := nx\<rparr>))\<lparr>jr_updatedAt := t1\<rparr>) (jobs ?d)"
    and events: "events d' = replace_row ev (ev\<lparr>er_status := RETRYING, er_updatedAt := t2\<rparr>) (events ?d)"
    unfolding moved_def d' [symmetric] by auto
  let ?r' = "(unlock (r\<lparr>jr_status := RETRYING, jr_nextAttemptAt := nx\<rparr>))\<lparr>jr_updatedAt := t1\<rparr>"
  have "?r' \<in> set (jobs d')" unfolding jobs using assms(4) by (simp add: replace_row_def)
  moreover have "jr_id ?r' = jr_id r \<and> jr_attemptCount ?r' = jr_attemptCount r \<and>
      jr_status ?r' = RETRYING \<and> jr_lockedAt ?r' = None \<and> due (jr_nextAttemptAt ?r') ?r'"
    by (simp add: unlock_def due_def CLAIMABLE_STATUSES_def)
  moreover have "er_status q = RETRYING" if "q \<in> set (events d')" "er_eventId q = jr_eventId r" for q
  proof -
    from that(1) obtain q0 where q0: "q0 \<in> set (events ?d)"
      "q = (if q0 = ev then ev\<lparr>er_status := RETRYING, er_updatedAt := t2\<rparr> else q0)"
      unfolding events replace_row_def set_map by blast
    show ?thesis
    proof (cases "q0 = ev")
      case False
      with one [OF q0(1)] q0(2) that(2) show ?thesis by simp
    qed (use q0(2) in simp)
  qed
  ultimately have reopened: "(\<exists>r' \<in> set (jobs d'). jr_id r' = jr_id r \<and> jr_attemptCount r' = jr_attemptCount r \<and>
         jr_status r' = RETRYING \<and> jr_lockedAt r' = None \<and> due (jr_nextAttemptAt r') r') \<and>
      (\<forall>ev \<in> set (events d'). er_eventId ev = jr_eventId r \<longrightarrow> er_status ev = RETRYING)" by blast
  have "runs (releaseStaleJob env job RETRYING t) ?d (\<lambda>_ d'. d' = ?d)"
    unfolding releaseStaleJob_def
  proof (rule runs_bind, rule runs_stmt_known [OF assms(1)])
    fix k
    have "update_jobs env (same_lease env job) (release_row RETRYING t) k ?d = (Inr 0, ?d)"
      by (rule update_jobs_none [OF j, where g = "\<lambda>q. jr_status q = DELIVERING \<and> jr_lockedAt q \<noteq> None \<and> jr_lockedAt q = jr_lockedAt job"])
         (auto simp: same_lease_def assms(5,7))
    then show "\<exists>x d'. update_jobs env (same_lease env job) (release_row RETRYING t) k ?d = (Inr x, d') \<and>
        (case Inr x of Inl e \<Rightarrow> d' = ?d
         | Inr affected \<Rightarrow> runs (if affected \<noteq> 0 then bindP (updateEventStatus env (jr_eventId job) RETRYING) (\<lambda>_. Ret True)
             else Ret False) d' (\<lambda>_ d'. d' = ?d))"
      by (auto intro: runs_Ret)
  qed
  then have "w_db (snd (run (releaseStaleJob env job RETRYING t) w)) = ?d" unfolding runs_def by blast
  with reopened show ?thesis unfolding d' Let_def by blast
qed

theorem late_retry_reopens_delivered_witness:
  "\<forall>ev res. \<exists>(w :: world) r r'. jr_status r = DELIVERED \<and> r \<in> set (jobs (w_db w)) \<and> jr_status r' = RETRYING \<and>
     r' \<in> set (jobs (w_db (snd (run (onRetry (demo_env 0 9 (demo_reply 500)) r ev 1 res) w))))"
proof (intro allI)
  fix ev res
  let ?env = "demo_env 0 9 (demo_reply 500)"
  obtain w where w: "passes binary 3 ''evt-1'' demo_accepted [demo_reply 200] w"
    using demo_passes [OF demo_accepted(1-3)] by blast
  have "fate 3 0 PENDING [demo_reply 200] = (DELIVERED, 1)" by code_simp
  with passes_fate [OF w demo_accepted(1,2)] have wf: "wf_db binary (w_db w)" and at: "job_at ''evt-1'' (DELIVERED, 1) (w_db w)"
    by simp_all
  from at obtain r where r: "r \<in> set (jobs (w_db w))" "jr_status r = DELIVERED" by (auto simp: job_at_def sole_open_def)
  from late_retry_reopens_delivered [OF demo_sane(2,1) wf r(1) refl refl r(2), of 0 9 "demo_reply 500" ev 1 res]
  obtain r' where "r' \<in> set (jobs (w_db (snd (run (onRetry ?env r ev 1 res) w))))" "jr_status r' = RETRYING"
    unfolding Let_def by blast
  with r show "\<exists>(w :: world) r r'. jr_status r = DELIVERED \<and> r \<in> set (jobs (w_db w)) \<and> jr_status r' = RETRYING \<and>
     r' \<in> set (jobs (w_db (snd (run (onRetry ?env r ev 1 res) w))))" by blast
qed

text \<open>
  Closing an attempt is not conditional either: whatever an attempt's row says - that
  the sweep closed it after a crash included - \<open>complete\<close> overwrites its status, its error and its
  time of completion.
\<close>

theorem completion_overwrites_the_log:
  assumes "no_faults env" and "a \<in> set (attempts (w_db w))"
  shows "\<exists>ts. close_attempt c ts a \<in> set (attempts (w_db (snd (run (complete env (ar_id a) c) w)))) \<and>
    ar_status (close_attempt c ts a) = ac_status c \<and> ar_completedAt (close_attempt c ts a) = Some ts"
proof -
  let ?d = "w_db w"
  let ?Q = "\<lambda>_ d'. \<exists>ts. close_attempt c ts a \<in> set (attempts d')"
  have upd: "runs (bindP (stmtP env (update_attempts (\<lambda>r. sql_eq env (ar_id r) (ar_id a)) (close_attempt c ts)))
      (\<lambda>_. Ret ())) ?d ?Q" for ts
  proof (rule runs_bind, rule runs_stmt_known [OF assms(1)])
    fix t
    have "close_attempt c ts a \<in> set (map (\<lambda>r. if sql_eq env (ar_id r) (ar_id a) then close_attempt c ts r else r) (attempts ?d))"
      using assms(2) by (force simp: sql_eq_def)
    then obtain d' where d': "update_attempts (\<lambda>r. sql_eq env (ar_id r) (ar_id a)) (close_attempt c ts) t ?d =
        (Inr (length (filter (\<lambda>r. sql_eq env (ar_id r) (ar_id a)) (attempts ?d))), d')"
      "close_attempt c ts a \<in> set (attempts d')"
      by (simp add: update_attempts_def)
    then have "runs (Ret ()) d' ?Q" by (blast intro: runs_Ret)
    with d'(1) show "\<exists>x d'. update_attempts (\<lambda>r. sql_eq env (ar_id r) (ar_id a)) (close_attempt c ts) t ?d = (Inr x, d') \<and>
        (case Inr x of Inl e \<Rightarrow> ?Q (Inl e) d' | Inr x \<Rightarrow> runs (Ret ()) d' ?Q)" by auto
  qed
  have "runs (complete env (ar_id a) c) ?d ?Q"
    unfolding complete_def
    by (cases "ac_completedAt c") (auto intro!: runs_bind [of "nowP env"] runs_bind [of "Ret _"] runs_nowP runs_Ret upd)
  then obtain ts where "close_attempt c ts a \<in> set (attempts (w_db (snd (run (complete env (ar_id a) c) w))))"
    unfolding runs_def by blast
  then show ?thesis by (intro exI [of _ ts]) (simp add: close_attempt_def)
qed

theorem completion_overwrites_the_log_witness:
  "\<exists>(w :: world) a. ar_status a = SUCCESS \<and> a \<in> set (attempts (w_db w)) \<and>
     (\<exists>a' \<in> set (attempts (w_db (snd (run (complete (demo_env 0 9 (demo_reply 500)) (ar_id a)
        \<lparr>ac_status = AttemptStatus.FAILED, ac_httpStatus = None, ac_errorType = Some TIMEOUT,
         ac_errorMessage = None, ac_completedAt = None\<rparr>) w)))). ar_status a' = AttemptStatus.FAILED)"
proof -
  let ?c = "\<lparr>ac_status = AttemptStatus.FAILED, ac_httpStatus = None, ac_errorType = Some TIMEOUT,
         ac_errorMessage = None, ac_completedAt = None\<rparr>"
  let ?a = "\<lparr>ar_id = ''a'', ar_eventId = ''evt-1'', ar_attemptNumber = 1, ar_startedAt = 0, ar_completedAt = Some 1,
      ar_status = SUCCESS, ar_httpStatus = Some 200, ar_errorType = None, ar_errorMessage = None, ar_createdAt = 0\<rparr>"
  let ?w = "demo_world\<lparr>w_db := empty_db\<lparr>attempts := [?a]\<rparr>\<rparr>"
  have a: "?a \<in> set (attempts (w_db ?w))" by simp
  from completion_overwrites_the_log [where c = ?c and env = "demo_env 0 9 (demo_reply 500)", OF demo_sane(2) this]
  have "\<exists>a' \<in> set (attempts (w_db (snd (run (complete (demo_env 0 9 (demo_reply 500)) (ar_id ?a) ?c) ?w)))).
      ar_status a' = AttemptStatus.FAILED" by fastforce
  with a show ?thesis by (intro exI [of _ ?w] exI [of _ ?a] conjI) simp_all
qed

end
