(* ===== verification/Batch.thy ===== *)
theory Batch
  imports Operations
begin

text \<open>
  A pass over any number of jobs. The worker reads a batch of due ids and drains it: every job of
  the batch is claimed and given one attempt, in the order of the batch, and no attempt disturbs
  the others. \<open>batch\<close> is what the drain needs of the jobs still to come, \<open>attempted_all\<close> what it
  has done once they are through.
\<close>

section \<open>Draining a batch\<close>

primrec attempted_all :: "env \<Rightarrow> job_row list \<Rightarrow> db \<Rightarrow> db \<Rightarrow> bool" where
  "attempted_all env [] d d' \<longleftrightarrow> d' = d"
| "attempted_all env (r # rs) d d' \<longleftrightarrow>
     (\<exists>ev r1 reply d1. job_of env d r ev \<and> attempted env r ev r1 reply d d1 \<and> attempted_all env rs d1 d')"

definition waits :: "env \<Rightarrow> db \<Rightarrow> job_row \<Rightarrow> bool" where
  "waits env d r \<longleftrightarrow>
     (\<exists>ev. job_of env d r ev) \<and> unattempted env (jr_eventId r) (jr_attemptCount r + 1) d"

definition batch :: "env \<Rightarrow> job_row list \<Rightarrow> db \<Rightarrow> bool" where
  "batch env rs d \<longleftrightarrow>
     distinct (map (\<lambda>r. e_fold env (jr_id r)) rs) \<and> distinct (map (\<lambda>r. e_fold env (jr_eventId r)) rs) \<and>
     (\<forall>r \<in> set rs. (\<forall>t. due (e_clock env t) r) \<and> waits env d r)"

text \<open>What an attempt leaves alone.\<close>

lemma attempted_parts:
  assumes "attempted env r ev r1 reply d d'"
  obtains ev1 a x where
    "jobs d' = replace_row r r1 (jobs d)" "events d' = replace_row ev ev1 (events d)"
    "attempts d' = attempts d @ [a]" "wire d' = wire d @ [x]"
    "jr_id r1 = jr_id r" "jr_eventId r1 = jr_eventId r" "jr_attemptCount r1 = jr_attemptCount r + 1"
    "jr_status r1 = next_status env (jr_attemptCount r + 1) reply"
    "er_eventId ev1 = er_eventId ev" "er_status ev1 = jr_status r1"
    "jr_lockedAt r1 = None" "jr_lockedBy r1 = None"
    "ar_eventId a = jr_eventId r" "ar_attemptNumber a = jr_attemptCount r + 1" "closed_by a reply"
    "sent_as env ev (jr_attemptCount r + 1) reply x"
  using assms unfolding attempted_def event_le_def delivery_request_def by auto

lemma waits_other:
  assumes w: "waits env d q" and j: "job_of env d r ev" and a: "attempted env r ev r1 reply d d'"
    and other: "\<not> sql_eq env (jr_id q) (jr_id r)" "\<not> sql_eq env (jr_eventId q) (jr_eventId r)"
  shows "waits env d' q"
proof -
  from w obtain ev' where j': "job_of env d q ev'" and u: "unattempted env (jr_eventId q) (jr_attemptCount q + 1) d"
    by (auto simp: waits_def)
  from a show ?thesis
  proof (rule attempted_parts)
    fix ev1 c x
    assume d': "jobs d' = replace_row r r1 (jobs d)" "events d' = replace_row ev ev1 (events d)"
        "attempts d' = attempts d @ [c]"
      and same: "jr_id r1 = jr_id r" "er_eventId ev1 = er_eventId ev" "ar_eventId c = jr_eventId r"
    have r: "r \<in> set (jobs d)" "ev \<in> set (events d)" "er_eventId ev = jr_eventId r"
      using j by (simp_all add: job_of_def event_of_def)
    have sets: "set (jobs d') = insert r1 (set (jobs d) - {r})" "set (events d') = insert ev1 (set (events d) - {ev})"
      by (simp_all add: d' set_replace_row r)
    have neq: "q \<noteq> r" "ev' \<noteq> ev" "\<not> sql_eq env (jr_id r1) (jr_id q)" "\<not> sql_eq env (er_eventId ev1) (jr_eventId q)"
      using other j' same r by (auto simp: sql_eq_def job_of_def event_of_def)
    from j' neq have "job_of env d' q ev'" by (auto simp: job_of_def event_of_def sets)
    moreover have "unattempted env (jr_eventId q) (jr_attemptCount q + 1) d'"
      using u other(2) by (auto simp: unattempted_def d' same sql_eq_def)
    ultimately show ?thesis by (auto simp: waits_def)
  qed
qed

lemma batch_Cons:
  assumes "batch env (r # rs) d" and "job_of env d r ev" and "attempted env r ev r1 reply d d'"
  shows "batch env rs d'"
proof -
  have "waits env d' q" if q: "q \<in> set rs" for q
  proof (rule waits_other [OF _ assms(2,3)])
    show "waits env d q" using assms(1) q by (simp add: batch_def)
    show "\<not> sql_eq env (jr_id q) (jr_id r)" "\<not> sql_eq env (jr_eventId q) (jr_eventId r)"
      using assms(1) q by (auto simp: batch_def sql_eq_def) (metis image_eqI)+
  qed
  with assms(1) show ?thesis by (auto simp: batch_def)
qed

text \<open>The id of a new attempt is new when the ids to come are.\<close>

lemma ready_opens:
  assumes "no_faults env" and ev: "event_of env d e ev" and u: "unattempted env e n d"
  shows "opens_attempt (ready env) env e n d"
  unfolding opens_attempt_def runs_in_def
proof (intro allI impI)
  fix w assume w: "w_db w = d" and r: "ready env w"
  let ?a = "new_attempt env e n (e_clock env (w_tick w)) (Suc (w_tick w))"
  have ids: "\<forall>q \<in> set (attempts d). \<not> sql_eq env (ar_id q) (ar_id ?a)"
    using r w by (auto simp: ready_def new_ids_def attempt_ids_def)
  with u have "\<not> list_ex (\<lambda>r. (sql_eq env (ar_eventId r) e \<and> ar_attemptNumber r = n) \<or>
      sql_eq env (ar_id r) (ar_id ?a)) (attempts d)"
    by (auto simp: list_ex_iff unattempted_def)
  moreover have "\<not> fk_violated env e d"
    using ev by (auto simp: fk_violated_def list_ex_iff event_of_def sql_eq_def)
  ultimately have "fst (run (attempts_start env e n) w) = Inr ?a"
    "w_db (snd (run (attempts_start env e n) w)) = d\<lparr>attempts := attempts d @ [?a]\<rparr>"
    using assms(1) w
    by (simp_all add: attempts_start_def run_simps no_faults_def insert_attempt_row_def Let_def)
  moreover have "ready env (snd (run (attempts_start env e n) w))"
    using r ready.keeps_attempts_start by (simp add: keeps_def)
  ultimately show "(\<exists>a. fst (run (attempts_start env e n) w) = Inr a \<and> ar_eventId a = e \<and> ar_attemptNumber a = n \<and>
      (\<forall>q \<in> set (attempts d). \<not> sql_eq env (ar_id q) (ar_id a)) \<and>
      w_db (snd (run (attempts_start env e n) w)) = d\<lparr>attempts := attempts d @ [a]\<rparr>) \<and>
      ready env (snd (run (attempts_start env e n) w))"
    using ids by (simp del: new_attempt_fields(3) add: exI [of _ ?a])
qed

lemma ready_drain:
  assumes "no_faults env" "sane_env env" and "batch env rs d"
  shows "runs_in (ready env) (drainP env (map jr_id rs) (c, p)) d
    (\<lambda>x d'. x = Inr (c + length rs, p + length rs) \<and> attempted_all env rs d d')"
  using assms(3)
proof (induction rs arbitrary: d c p)
  case Nil
  show ?case by (simp add: runs_in_Ret)
next
  case (Cons r rs)
  then obtain ev where j: "job_of env d r ev" and u: "unattempted env (jr_eventId r) (jr_attemptCount r + 1) d"
    and due: "\<And>t. due (e_clock env t) r" by (auto simp: batch_def waits_def)
  have "runs_in (ready env) (drainP env (jr_id r # map jr_id rs) (c, p)) d
    (\<lambda>x d'. x = Inr (c + length (r # rs), p + length (r # rs)) \<and> attempted_all env (r # rs) d d')"
  proof (rule ready.runs_in_drain_step [OF assms(1,2) j due])
    fix d' :: db assume "events d' = events d" "attempts d' = attempts d"
    then have "event_of env d' (jr_eventId r) ev" "unattempted env (jr_eventId r) (jr_attemptCount r + 1) d'"
      using j u by (simp_all add: job_of_def event_of_def unattempted_def)
    then show "opens_attempt (ready env) env (jr_eventId r) (jr_attemptCount r + 1) d'"
      by (rule ready_opens [OF assms(1)])
  next
    fix d1 reply r1 assume a: "attempted env r ev r1 reply d d1"
    from Cons.IH [OF batch_Cons [OF Cons.prems j a], of "c + 1" "p + 1"]
    show "runs_in (ready env) (drainP env (map jr_id rs) (c + 1, p + 1)) d1
      (\<lambda>x d'. x = Inr (c + length (r # rs), p + length (r # rs)) \<and> attempted_all env (r # rs) d d')"
      by (rule runs_in_conseq) (use j a in auto)
  qed
  then show ?case by simp
qed

section \<open>What a drained batch leaves\<close>

text \<open>
  One more attempt on record for the job, closed as its answer demands, one more request on the wire,
  the job unlocked in the status the answer demands, its event showing it.
\<close>

definition given_attempt :: "env \<Rightarrow> job_row \<Rightarrow> db \<Rightarrow> bool" where
  "given_attempt env r d \<longleftrightarrow>
     (\<exists>r1 \<in> set (jobs d). \<exists>e1 \<in> set (events d). \<exists>a \<in> set (attempts d). \<exists>x \<in> set (wire d).
        jr_id r1 = jr_id r \<and> jr_eventId r1 = jr_eventId r \<and> jr_attemptCount r1 = jr_attemptCount r + 1 \<and>
        jr_status r1 = next_status env (jr_attemptCount r + 1) (wx_reply x) \<and>
        jr_lockedAt r1 = None \<and> jr_lockedBy r1 = None \<and>
        er_eventId e1 = jr_eventId r \<and> er_status e1 = jr_status r1 \<and>
        ar_eventId a = jr_eventId r \<and> ar_attemptNumber a = jr_attemptCount r + 1 \<and> closed_by a (wx_reply x) \<and>
        wr_eventId (wx_delivery x) = jr_eventId r \<and> wr_attemptNumber (wx_delivery x) = jr_attemptCount r + 1 \<and>
        (\<exists>t. wx_reply x = e_exchange env t (wx_request x)))"

lemma attempted_given:
  assumes "attempted env r ev r1 reply d d'" and j: "job_of env d r ev"
  shows "given_attempt env r d'"
  using assms(1)
proof (rule attempted_parts)
  fix ev1 a x
  assume d': "jobs d' = replace_row r r1 (jobs d)" "events d' = replace_row ev ev1 (events d)"
      "attempts d' = attempts d @ [a]" "wire d' = wire d @ [x]"
    and sent: "sent_as env ev (jr_attemptCount r + 1) reply x"
    and f: "jr_id r1 = jr_id r" "jr_eventId r1 = jr_eventId r" "jr_attemptCount r1 = jr_attemptCount r + 1"
      "jr_status r1 = next_status env (jr_attemptCount r + 1) reply" "jr_lockedAt r1 = None" "jr_lockedBy r1 = None"
      "er_eventId ev1 = er_eventId ev" "er_status ev1 = jr_status r1"
      "ar_eventId a = jr_eventId r" "ar_attemptNumber a = jr_attemptCount r + 1" "closed_by a reply"
  have old: "r \<in> set (jobs d)" "ev \<in> set (events d)" "er_eventId ev = jr_eventId r"
    using j by (simp_all add: job_of_def event_of_def)
  have new: "r1 \<in> set (jobs d')" "ev1 \<in> set (events d')" "a \<in> set (attempts d')" "x \<in> set (wire d')"
    by (simp_all add: d' set_replace_row old)
  show ?thesis
    unfolding given_attempt_def
    by (rule bexI [OF _ new(1)], rule bexI [OF _ new(2)], rule bexI [OF _ new(3)], rule bexI [OF _ new(4)])
       (use sent f old in \<open>simp add: sent_as_def delivery_request_def\<close>)
qed

lemma replace_row_other: "q \<in> set rows \<Longrightarrow> q \<noteq> r \<Longrightarrow> q \<in> set (replace_row r r1 rows)"
  by (auto simp: replace_row_def)

lemma attempted_keeps_given:
  assumes "attempted env q ev q1 reply d d'" and j: "job_of env d q ev" and g: "given_attempt env r d"
    and other: "\<not> sql_eq env (jr_id r) (jr_id q)" "\<not> sql_eq env (jr_eventId r) (jr_eventId q)"
  shows "given_attempt env r d'"
  using assms(1)
proof (rule attempted_parts)
  fix ev1 a x
  assume d': "jobs d' = replace_row q q1 (jobs d)" "events d' = replace_row ev ev1 (events d)"
      "attempts d' = attempts d @ [a]" "wire d' = wire d @ [x]"
  have "er_eventId ev = jr_eventId q" using j by (simp add: job_of_def event_of_def)
  with other have "r1 \<in> set (jobs d) \<Longrightarrow> jr_id r1 = jr_id r \<Longrightarrow> r1 \<in> set (jobs d')"
      "e1 \<in> set (events d) \<Longrightarrow> er_eventId e1 = jr_eventId r \<Longrightarrow> e1 \<in> set (events d')" for r1 e1
    by (auto simp: d' sql_eq_def intro!: replace_row_other)
  moreover have "a' \<in> set (attempts d) \<Longrightarrow> a' \<in> set (attempts d')" "x' \<in> set (wire d) \<Longrightarrow> x' \<in> set (wire d')" for a' x'
    by (simp_all add: d')
  ultimately show ?thesis using g unfolding given_attempt_def by blast
qed

lemma batch_keeps_given:
  assumes "batch env rs d" and "attempted_all env rs d d'" and "given_attempt env r d"
    and "\<forall>q \<in> set rs. \<not> sql_eq env (jr_id r) (jr_id q) \<and> \<not> sql_eq env (jr_eventId r) (jr_eventId q)"
  shows "given_attempt env r d'"
  using assms
proof (induction rs arbitrary: d)
  case (Cons q rs)
  then obtain ev q1 reply d1 where j: "job_of env d q ev" and a: "attempted env q ev q1 reply d d1"
    and rest: "attempted_all env rs d1 d'" by auto
  from batch_Cons [OF Cons.prems(1) j a] rest show ?case
    by (rule Cons.IH) (use attempted_keeps_given [OF a j Cons.prems(3)] Cons.prems(4) in auto)
qed simp

lemma batch_given:
  assumes "batch env rs d" and "attempted_all env rs d d'"
  shows "(\<forall>r \<in> set rs. given_attempt env r d') \<and> (\<forall>q \<in> set (jobs d) - set rs. q \<in> set (jobs d')) \<and>
    length (wire d') = length (wire d) + length rs \<and> length (attempts d') = length (attempts d) + length rs"
  using assms
proof (induction rs arbitrary: d)
  case (Cons r rs)
  then obtain ev r1 reply d1 where j: "job_of env d r ev" and a: "attempted env r ev r1 reply d d1"
    and rest: "attempted_all env rs d1 d'" by auto
  note b = batch_Cons [OF Cons.prems(1) j a]
  have others: "\<forall>q \<in> set rs. \<not> sql_eq env (jr_id r) (jr_id q) \<and> \<not> sql_eq env (jr_eventId r) (jr_eventId q)"
    using Cons.prems(1) by (auto simp: batch_def sql_eq_def image_iff)
  have "given_attempt env r d'"
    by (rule batch_keeps_given [OF b rest attempted_given [OF a j] others])
  moreover from a have "length (wire d1) = Suc (length (wire d))" "length (attempts d1) = Suc (length (attempts d))"
      "\<forall>q \<in> set (jobs d) - {r}. q \<in> set (jobs d1)"
    by (auto elim!: attempted_parts intro: replace_row_other)
  ultimately show ?case using Cons.IH [OF b rest] by auto
qed simp

section \<open>A pass delivers its batch\<close>

lemma wf_batch:
  assumes wf: "wf_db (e_fold env) d" and rs: "set rs \<subseteq> set (jobs d)" "distinct rs"
    and due: "\<forall>r \<in> set rs. \<forall>t. due (e_clock env t) r"
  shows "batch env rs d"
proof -
  have "distinct (map (\<lambda>r. e_fold env (jr_id r)) (jobs d))" using wf by (simp add: wf_db_def)
  then have "inj_on (\<lambda>r. e_fold env (jr_id r)) (set rs)"
    using rs(1) by (auto simp: distinct_map intro: inj_on_subset)
  moreover have "inj_on (\<lambda>r. e_fold env (jr_eventId r)) (set rs)"
    using wf_one_job [OF wf] rs(1) by (auto simp: inj_on_def)
  ultimately show ?thesis
    using rs due wf_job_of [OF wf] wf_unattempted [OF wf]
    by (auto simp: batch_def waits_def distinct_map)
qed

text \<open>No due time is crossed while the pass runs.\<close>

definition due_settled :: "env \<Rightarrow> db \<Rightarrow> bool" where
  "due_settled env d \<longleftrightarrow> (\<forall>q \<in> set (jobs d). \<forall>t. due (e_clock env t) q = due (e_clock env 0) q)"

definition due_jobs :: "env \<Rightarrow> db \<Rightarrow> job_row list" where
  "due_jobs env d = filter (due (e_clock env 0)) (jobs d)"

lemma due_settled_due:
  assumes "due_settled env d" and "q \<in> set (jobs d)"
  shows "due (e_clock env t) q \<longleftrightarrow> q \<in> set (due_jobs env d)"
proof -
  have "due (e_clock env t) q = due (e_clock env 0) q" using assms unfolding due_settled_def by blast
  with assms(2) show ?thesis by (simp only: due_jobs_def set_filter mem_Collect_eq simp_thms)
qed

lemma due_settled_rows:
  assumes "due_settled env d"
  shows "filter (due (e_clock env t)) (jobs d) = due_jobs env d"
  unfolding due_jobs_def
proof (rule filter_cong [OF refl])
  fix q assume "q \<in> set (jobs d)"
  with assms show "due (e_clock env t) q = due (e_clock env 0) q" unfolding due_settled_def by blast
qed

text \<open>The batch of a pass: the earliest due jobs, as many as the batch size admits.\<close>

definition batch_of :: "env \<Rightarrow> nat \<Rightarrow> db \<Rightarrow> job_row list \<Rightarrow> bool" where
  "batch_of env b d rs \<longleftrightarrow>
     distinct rs \<and> set rs \<subseteq> set (due_jobs env d) \<and> length rs = min b (length (due_jobs env d)) \<and>
     (\<forall>r \<in> set rs. \<forall>q \<in> set (due_jobs env d) - set rs. jr_nextAttemptAt r \<le> jr_nextAttemptAt q)"

lemma runs_findDue_batch_of:
  assumes env: "no_faults env" "sane_env env" and wf: "wf_db (e_fold env) d" and b: "limit = of_nat b" "0 < b"
    and still: "due_settled env d"
  shows "runs (findDueJobIds env limit) d (\<lambda>x d'. d' = d \<and> (\<exists>ids. x = Inr ids \<and> (\<exists>rs. ids = map jr_id rs \<and> batch_of env b d rs)))"
proof (rule runs_conseq [OF runs_findDue_batch [OF env wf b]], elim exE conjE)
  fix x d' rs t
  assume x: "x = Inr (map jr_id rs)" "d' = d" "distinct (map jr_id rs)"
    and len: "length rs = min b (length (filter (due (e_clock env t)) (jobs d)))"
    and rows: "\<forall>r \<in> set rs. r \<in> set (jobs d) \<and> jr_status r \<in> set CLAIMABLE_STATUSES \<and> jr_nextAttemptAt r \<le> e_clock env t"
    and first: "\<forall>r \<in> set rs. \<forall>q \<in> set (jobs d) - set rs. due (e_clock env t) q \<longrightarrow> jr_nextAttemptAt r \<le> jr_nextAttemptAt q"
  note due = due_settled_rows [OF still, of t]
  then have set: "set (due_jobs env d) = {q \<in> set (jobs d). due (e_clock env t) q}" by (metis set_filter)
  have "distinct rs" using x(3) by (simp only: distinct_map)
  moreover have "set rs \<subseteq> set (due_jobs env d)" using rows unfolding set due_def by blast
  moreover have "length rs = min b (length (due_jobs env d))" using len unfolding due .
  moreover have "\<forall>r \<in> set rs. \<forall>q \<in> set (due_jobs env d) - set rs. jr_nextAttemptAt r \<le> jr_nextAttemptAt q"
    using first unfolding set by blast
  ultimately have "batch_of env b d rs" unfolding batch_of_def by (intro conjI)
  with x show "d' = d \<and> (\<exists>ids. x = Inr ids \<and> (\<exists>rs. ids = map jr_id rs \<and> batch_of env b d rs))" by blast
qed

text \<open>What a pass with the batch \<open>rs\<close> has done.\<close>

definition batch_done :: "env \<Rightarrow> job_row list \<Rightarrow> db \<Rightarrow> db \<Rightarrow> bool" where
  "batch_done env rs d d' \<longleftrightarrow>
     (\<forall>r \<in> set rs. given_attempt env r d') \<and> (\<forall>q \<in> set (jobs d) - set rs. q \<in> set (jobs d')) \<and>
     length (wire d') = length (wire d) + length rs \<and> length (attempts d') = length (attempts d) + length rs"

lemma ready_drain_batch:
  assumes env: "no_faults env" "sane_env env" and wf: "wf_db (e_fold env) d"
    and still: "due_settled env d" and rs: "batch_of env b d rs"
  shows "runs_in (ready env) (drainP env (map jr_id rs) (0, 0)) d
    (\<lambda>x d'. x = Inr (length rs, length rs) \<and> batch_done env rs d d')"
proof -
  have rows: "set rs \<subseteq> set (jobs d)" "distinct rs"
    using rs unfolding batch_of_def due_jobs_def by auto
  moreover have "\<forall>r \<in> set rs. \<forall>t. due (e_clock env t) r"
    using rows(1) rs due_settled_due [OF still] unfolding batch_of_def by blast
  ultimately have batch: "batch env rs d" by (rule wf_batch [OF wf])
  have "batch_done env rs d d'" if "attempted_all env rs d d'" for d'
    unfolding batch_done_def by (rule batch_given [OF batch that])
  then show ?thesis
    by (intro runs_in_conseq [OF ready_drain [OF env batch]]) simp
qed

section \<open>Two accepted events\<close>

text \<open>A node that is up is ready under an environment whose ids are longer than any on record.\<close>

lemma demo_ready:
  assumes "up (demo_env 0 0 (demo_reply 200)) w"
  shows "\<exists>ids. ready (demo_env ids now reply) w"
proof -
  obtain ids where f: "fresh_uuids (demo_env ids now reply) (w_db w)" using demo_fresh by blast
  have "up (demo_env ids now reply) w" using assms by (simp add: up_def demo_env_def)
  moreover have "unique_ids (demo_env ids now reply)"
    by (auto simp: unique_ids_def sql_eq_def demo_env_def binary_def replicate_eq_replicate)
  moreover have "new_ids (demo_env ids now reply) w"
    using f by (auto simp: new_ids_def fresh_uuids_def attempt_ids_def)
  ultimately show ?thesis by (auto simp: ready_def)
qed

definition second_dto :: CreateEventDto where
  "second_dto = demo_dto\<lparr>dto_eventId := ''evt-2''\<rparr>"

text \<open>Two pending jobs, both due from the time of their acceptance.\<close>

lemma demo_two:
  "\<exists>w. wf_db binary (w_db w) \<and> up (demo_env 0 0 (demo_reply 200)) w \<and> length (jobs (w_db w)) = 2 \<and>
     (\<forall>q \<in> set (jobs (w_db w)). jr_status q = PENDING \<and> jr_attemptCount q = 0 \<and> jr_nextAttemptAt q = 1000) \<and>
     wire (w_db w) = []"
proof -
  obtain t where d: "w_db demo_accepted =
     empty_db\<lparr>events := [new_event (demo_env 0 1000 (demo_reply 200)) demo_dto t],
       jobs := [new_job (demo_env 0 1000 (demo_reply 200)) ''evt-1'' 1000 t]\<rparr>"
    using demo_accepted_db by blast
  obtain ids where ids: "\<And>now reply. fresh_uuids (demo_env ids now reply) (w_db demo_accepted)"
    using demo_fresh by blast
  let ?env = "demo_env ids 1000 (demo_reply 200)"
  let ?w = "snd (run (create ?env second_dto) demo_accepted)"
  have wf: "wf_db (e_fold ?env) (w_db demo_accepted)" using demo_accepted(1) by (simp add: demo_env_def)
  have new: "\<not> known_event ?env (dto_eventId second_dto) (w_db demo_accepted)"
    by (simp add: known_event_def d second_dto_def demo_dto_def new_event_def sql_eq_def demo_env_def binary_def)
  from runs_create_new [OF demo_sane(2) wf ids new]
  obtain u where w: "w_db ?w = (w_db demo_accepted)\<lparr>events := events (w_db demo_accepted) @ [new_event ?env second_dto u],
      jobs := jobs (w_db demo_accepted) @ [new_job ?env (dto_eventId second_dto) (e_clock ?env u) u]\<rparr>"
    unfolding runs_def by blast
  have "wf_db binary (w_db ?w)" by (rule wf_create [OF demo_sane(1) demo_accepted(1)])
  moreover have "up (demo_env 0 0 (demo_reply 200)) ?w"
    using up.keeps_create [of ?env second_dto] demo_accepted(3) by (simp add: keeps_def up_def demo_env_def)
  moreover have "e_clock ?env u = 1000" by (simp add: demo_env_def)
  ultimately show ?thesis
    by (intro exI [of _ ?w]) (simp add: w d new_job_def empty_db_def)
qed

text \<open>
  Property C9. A pass gives every job of its batch exactly one attempt. On a node that is up, with no
  lease held and no statement failing, the batch is as many of the due jobs as the batch size admits,
  those due first; after the pass each of them has one more attempt and one more request, and the
  status its receiver's answer demands; every other job is as it was.
\<close>

theorem pass_settles_batch:
  assumes env: "no_faults env" "sane_env env" and wf: "wf_db (e_fold env) (w_db w)" and r: "ready env w"
    and b: "batchSize (cfg_worker (e_cfg env)) = of_nat b" "0 < b"
    and idle: "\<forall>q \<in> set (jobs (w_db w)). jr_status q \<noteq> DELIVERING"
    and still: "due_settled env (w_db w)"
  shows "\<exists>rs. batch_of env b (w_db w) rs \<and> batch_done env rs (w_db w) (w_db (snd (run (tick env) w)))"
proof -
  let ?Q = "\<lambda>d'. \<exists>rs. batch_of env b (w_db w) rs \<and> batch_done env rs (w_db w) d'"
  have "runs_in (ready env) (drainP env ids (0, 0)) (w_db w) (\<lambda>x d'. \<exists>c p. x = Inr (c, p) \<and> ?Q d')"
    if "\<exists>rs. ids = map jr_id rs \<and> batch_of env b (w_db w) rs" for ids
  proof -
    from that obtain rs where ids: "ids = map jr_id rs" and rs: "batch_of env b (w_db w) rs" by blast
    show ?thesis
      unfolding ids by (rule runs_in_conseq [OF ready_drain_batch [OF env wf still rs]]) (use rs in blast)
  qed
  then have "runs_in (ready env) (tick env) (w_db w) (\<lambda>_ d'. ?Q d')"
    by (intro ready.runs_in_tick, intro ready.runs_in_runOnce [OF env idle runs_findDue_batch_of [OF env wf b still],
          where R = "\<lambda>_ _ d'. ?Q d'"])
  then show ?thesis using r by (simp add: runs_in_def)
qed

text \<open>Two events are accepted, and one pass delivers both.\<close>

theorem pass_settles_batch_witness:
  "\<exists>env w rs. length (jobs (w_db w)) = 2 \<and> set rs = set (jobs (w_db w)) \<and> length rs = 2 \<and>
     (\<forall>r \<in> set rs. jr_status r = PENDING \<and>
        (\<exists>r1 \<in> set (jobs (w_db (snd (run (tick env) w)))). jr_id r1 = jr_id r \<and> jr_status r1 = DELIVERED)) \<and>
     length (wire (w_db (snd (run (tick env) w)))) = 2"
proof -
  obtain w where wf: "wf_db binary (w_db w)" and up: "up (demo_env 0 0 (demo_reply 200)) w"
    and two: "length (jobs (w_db w)) = 2"
      "\<forall>q \<in> set (jobs (w_db w)). jr_status q = PENDING \<and> jr_attemptCount q = 0 \<and> jr_nextAttemptAt q = 1000"
      "wire (w_db w) = []"
    using demo_two by blast
  obtain ids where r: "ready (demo_env ids 1000 (demo_reply 200)) w" using demo_ready [OF up] by blast
  let ?env = "demo_env ids 1000 (demo_reply 200)"
  have env: "no_faults ?env" "sane_env ?env" "e_fold ?env = binary" "batchSize (cfg_worker (e_cfg ?env)) = of_nat 10"
    using demo_sane by (simp_all add: env_ok_def demo_env_def demo_cfg_def)
  have due: "\<forall>q \<in> set (jobs (w_db w)). due (e_clock ?env t) q" for t
    using two(2) by (simp add: due_def CLAIMABLE_STATUSES_def demo_env_def)
  then have all: "due_jobs ?env (w_db w) = jobs (w_db w)" unfolding due_jobs_def by (simp only: filter_id_conv)
  have "due_settled ?env (w_db w)" using due unfolding due_settled_def by blast
  moreover have "\<forall>q \<in> set (jobs (w_db w)). jr_status q \<noteq> DELIVERING" using two(2) by simp
  moreover have "wf_db (e_fold ?env) (w_db w)" using wf by (simp add: env(3))
  ultimately obtain rs where rs: "batch_of ?env 10 (w_db w) rs" "batch_done ?env rs (w_db w) (w_db (snd (run (tick ?env) w)))"
    using pass_settles_batch [OF env(1,2) _ r env(4)] by auto
  have len: "distinct rs" "length rs = 2" "set rs \<subseteq> set (jobs (w_db w))"
    using rs(1) two(1) by (simp_all add: batch_of_def all)
  have "set rs = set (jobs (w_db w))"
    using len two(1) by (metis card_length card_seteq distinct_card finite_set)
  moreover have "next_status ?env 1 (e_exchange ?env t x) = DELIVERED" for t x
    by (simp add: next_status_def demo_env_def demo_reply_def reply_ok_def ok_status_def)
  then have "\<exists>r1 \<in> set (jobs (w_db (snd (run (tick ?env) w)))). jr_id r1 = jr_id q \<and> jr_status r1 = DELIVERED"
    if "q \<in> set rs" for q
    using rs(2) that two(2) len(3) unfolding batch_done_def given_attempt_def by fastforce
  moreover have "length (wire (w_db (snd (run (tick ?env) w)))) = 2"
    using rs(2) two(3) len(2) by (simp add: batch_done_def)
  ultimately show ?thesis using two len by blast
qed

end
