(* ===== verification/Announcements.thy ===== *)
theory Announcements
  imports Sample
begin

text \<open>
  What the realtime channel may say. \<open>DeliveryService\<close> writes the database first and then emits, so
  that the dashboard never shows a state the database does not hold: with one worker, an announced
  status is that of the job and, once the attempt is settled, of the event, at the very moment of the
  emission. A request announces what it read or wrote before, so there only the event is certain.
\<close>

section \<open>The guarantee of a step\<close>

text \<open>
  Property C8. The database first, then the announcement: with one worker (slot 0, which may crash
  and be restarted at any point) and any number of requests, every action only adds to what a node
  has emitted; whatever it emits with a status is about an event that has a job; and if the worker
  emits it, the job has that status, and so has the event unless the status is DELIVERING, which is
  never mirrored.
\<close>

theorem announced_state_is_stored:
  assumes "pool_steps (one_worker ci m) (Map.empty, w0) (ps, w)" and "starts_empty w0"
    and "ps k = Some (Act f)" and "w' = snd (f w)"
  shows "\<exists>sent. emitted w' n = emitted w n @ sent \<and>
    (\<forall>(channel, ev) \<in> set sent. \<forall>s. re_status ev = Some s \<longrightarrow>
      (\<exists>r \<in> set (jobs (w_db w')). jr_eventId r = re_eventId ev \<and> (k = 0 \<longrightarrow> jr_status r = s)) \<and>
      (k = 0 \<and> s \<noteq> DELIVERING \<longrightarrow>
        (\<exists>e \<in> set (events (w_db w')). er_eventId e = re_eventId ev \<and> er_status e = s)))"
proof -
  have "solo_guarantee k w w'"
    using one.reachable_guarantee [OF assms(1) _ assms(3)] assms(2) single_empty
    by (simp add: starts_empty_def assms(4))
  then have "tells (if k = 0 then shown else (\<lambda>e _. queued e)) w w'"
    by (simp add: solo_guarantee_def split: if_splits)
  then obtain sent where "emitted w' n = emitted w n @ sent"
    and told: "\<forall>(channel, ev) \<in> set sent. told (if k = 0 then shown else (\<lambda>e _. queued e)) ev (w_db w')"
    unfolding tells_def by blast
  then show ?thesis
    by (intro exI [of _ sent] conjI)
       (fastforce simp: told_def shown_def in_status_def queued_def split: if_splits)+
qed

text \<open>
  With any number of workers an announcement may be overtaken, but it is always about an accepted
  event.
\<close>

lemma announced_event_is_queued:
  assumes "pool_steps (cluster ci) (Map.empty, w0) (ps, w)" and "starts_empty w0"
    and "ps k = Some (Act f)"
  shows "\<exists>sent. emitted (snd (f w)) n = emitted w n @ sent \<and>
    (\<forall>(channel, ev) \<in> set sent. re_status ev \<noteq> None \<longrightarrow>
      (\<exists>r \<in> set (jobs (w_db (snd (f w)))). jr_eventId r = re_eventId ev))"
proof -
  have "tells (\<lambda>e _. queued e) w (snd (f w))"
    using cl.reachable_guarantee [OF assms(1) _ assms(3)] assms(2) wf_empty
    by (simp add: starts_empty_def)
  then show ?thesis unfolding tells_def told_def queued_def by fastforce
qed

section \<open>A run that announces\<close>

text \<open>The programs, as what they do to a world without faults.\<close>

lemmas world_steps =
  run_simps mapP_def attemptP_def finallyP_def metricP_def workerP_def gatewayP_def throwP_def publish_def
  gateway_publish_def emitP_def emitWith_def bindS_def Let_def bump_def sql_eq_def fk_violated_def

lemmas create_steps =
  create_def ingest_def ingest_work_def events_insert_def insert_event_row_def insertJob_def
  insert_job_row_def new_event_def new_job_def

lemmas tick_steps =
  tick_def runOnce_def scheduleNextTick_def recoverStaleJobs_def findStaleJobs_def findDueJobIds_def
  select_jobs_def select_events_def lease_expired_def due_def sql_take_def sql_order_def first_row_def
  claim_def claim_row_def update_jobs_def processJob_def executeClaimedJob_def event_findOne_def

lemmas attempt_steps =
  attempt_delivery_def attempts_start_def insert_attempt_row_def new_attempt_def send_def exchangeP_def
  record_result_def

lemmas success_steps = onSuccess_def complete_def update_attempts_def close_attempt_def

lemmas mark_steps =
  assertTransition_def markDelivered_def transition_def updateEventStatus_def update_jobs_def update_events_def

lemma demo_fields:
  "e_node (demo_env i now answer) = 0" "e_clock (demo_env i now answer) t = now"
  "e_db_clock (demo_env i now answer) t = now" "e_fault (demo_env i now answer) = (\<lambda>_. None)"
  "e_uuid (demo_env i now answer) t k = replicate (i + 2 * t + k) (CHR ''x'')"
  "e_exchange (demo_env i now answer) t http = answer" "e_socket (demo_env i now answer) t = None"
  "e_fold (demo_env i now answer) s = s" "e_limit (demo_env i now answer) x k = min (nat \<lfloor>x\<rfloor>) k"
  "e_scan_events (demo_env i now answer) t es = es" "e_scan_jobs (demo_env i now answer) t js = js"
  "cfg_worker (e_cfg (demo_env i now answer)) =
     \<lparr>worker_enabled = True, worker_id = ''w1'', pollIntervalMs = 1000, batchSize = 10, leaseTimeoutMs = 60000\<rparr>"
  "db_driver (cfg_database (e_cfg (demo_env i now answer))) = sqlite"
  by (simp_all add: demo_env_def demo_cfg_def binary_def)

lemma new_node_fields:
  "n_gateway new_node = \<lparr>g_server = True, g_connections = 0, g_emitted = [], g_activity = [], g_stats = []\<rparr>"
  "n_worker new_node = \<lparr>wk_timer = None, wk_stopped = False, wk_ticking = False, wk_lastTickAt = None\<rparr>"
  by (simp_all add: new_node_def)

lemma answer_200:
  "wd_httpStatus (delivery_result 0 (demo_reply 200)) = Some 200"
  "classifyResult (delivery_result 0 (demo_reply 200)) = Delivered_2xx"
  by code_simp+

definition demo_tick :: "unit io" where
  "demo_tick = tick (demo_env 0 1000 (demo_reply 200))"

text \<open>The text of a message is of no interest here; the simplifier need not enter it.\<close>

lemma event_cong: "realtime_event kind e message = realtime_event kind e message"
  by (rule refl)

text \<open>One stretch of the run after the other: the request, the sweep and the claim, the attempt, its end.\<close>

lemma demo_announcements:
  "map (\<lambda>(channel, ev). re_status ev) (emitted (snd (run demo_tick demo_accepted)) 0) =
     [Some PENDING, Some PENDING, Some DELIVERING, Some DELIVERING, Some DELIVERED, Some DELIVERED] \<and>
   map (\<lambda>(channel, ev). re_status ev) (emitted demo_accepted 0) = [Some PENDING, Some PENDING]"
  apply (simp add: demo_accepted_def demo_tick_def demo_world_def empty_db_def create_steps world_steps
      demo_fields new_node_fields cong: event_cong)
  apply (simp add: tick_steps world_steps demo_fields new_node_fields cong: event_cong)
  apply (simp add: attempt_steps world_steps demo_fields new_node_fields answer_200 cong: event_cong)
  apply (simp add: settle_def answer_200)
  apply (simp add: success_steps world_steps demo_fields new_node_fields answer_200 cong: event_cong)
  apply (simp add: mark_steps world_steps demo_fields new_node_fields cong: event_cong)
  apply (simp add: emitted_def realtime_event_def)
  done

theorem announced_state_is_stored_witness:
  "\<exists>ps w f channel ev. pool_steps (one_worker binary 3) (Map.empty, demo_world) (ps, w) \<and> ps 0 = Some (Act f) \<and>
     (channel, ev) \<in> set (emitted (snd (f w)) 0) - set (emitted w 0) \<and> re_status ev = Some DELIVERED \<and>
     (\<exists>r \<in> set (jobs (w_db (snd (f w)))). jr_eventId r = re_eventId ev \<and> jr_status r = DELIVERED) \<and>
     (\<exists>e \<in> set (events (w_db (snd (f w)))). er_eventId e = re_eventId ev \<and> er_status e = DELIVERED)"
proof -
  let ?env = "demo_env 0 1000 (demo_reply 200)"
  let ?sys = "one_worker binary 3"
  let ?X = "\<lambda>w. \<exists>(channel, ev) \<in> set (emitted w 0). re_status ev = Some DELIVERED"
  let ?create = "mapP (\<lambda>_. ()) (create ?env demo_dto)"
  have "budget ?env = 3" by (simp add: budget_def demo_env_def demo_cfg_def)
  then have tick: "demo_tick \<in> ?sys 0" using demo_sane by (auto simp: one_worker_def worker_env_def demo_tick_def)
  have "?create \<in> ?sys 1" using demo_sane by (auto simp: one_worker_def intro: api_programs.create)
  then have "pool_steps ?sys (Map.empty, demo_world) (Map.empty, snd (run ?create demo_world))"
    by (rule pool_program) simp
  also have "snd (run ?create demo_world) = demo_accepted"
    by (simp add: demo_accepted_def run_mapP split: prod.split sum.split)
  finally have "pool_steps ?sys (Map.empty, demo_world) (Map.empty, demo_accepted)" .
  then have spawned: "pool_steps ?sys (Map.empty, demo_world) (Map.empty(0 \<mapsto> demo_tick), demo_accepted)"
    by (rule pool_steps.further) (intro pool_step.spawn tick, simp)
  have statuses: "?X w \<longleftrightarrow> Some DELIVERED \<in> set (map (\<lambda>(channel, ev). re_status ev) (emitted w 0))" for w
    by force
  have "\<not> ?X demo_accepted" and "?X (snd (run demo_tick demo_accepted))"
    unfolding statuses using demo_announcements by simp_all
  with pool_crossing [of "Map.empty(0 \<mapsto> demo_tick)" 0 demo_tick ?X demo_accepted ?sys] obtain f v where
    run: "pool_steps ?sys (Map.empty(0 \<mapsto> demo_tick), demo_accepted) (Map.empty(0 \<mapsto> demo_tick, 0 \<mapsto> Act f), v)"
    and v: "\<not> ?X v" "?X (snd (f v))" by auto
  let ?ps = "Map.empty(0 \<mapsto> demo_tick, 0 \<mapsto> Act f)"
  from pool_steps_trans [OF run spawned] have reach: "pool_steps ?sys (Map.empty, demo_world) (?ps, v)" .
  from v obtain channel ev where ev: "(channel, ev) \<in> set (emitted (snd (f v)) 0) - set (emitted v 0)"
    "re_status ev = Some DELIVERED" by blast
  from announced_state_is_stored [OF reach demo_starts, of 0 f "snd (f v)" 0] ev
  have "(\<exists>r \<in> set (jobs (w_db (snd (f v)))). jr_eventId r = re_eventId ev \<and> jr_status r = DELIVERED) \<and>
     (\<exists>e \<in> set (events (w_db (snd (f v)))). er_eventId e = re_eventId ev \<and> er_status e = DELIVERED)"
    by fastforce
  with reach ev show ?thesis by (intro exI [of _ ?ps] exI conjI) auto
qed

end
