(* ===== verification/ClientLib.thy ===== *)
theory ClientLib
  imports Events Dashboard Receiver
begin

text \<open>
  \<open>apps/client/lib\<close>: formatting (\<open>format.ts\<close>), the presentation of states (\<open>status.ts\<close>) and the
  history that seeds the activity feed (\<open>history.ts\<close>). The shapes the client receives are those
  the server sends, so the server's records are used. Characters outside ASCII are written as
  their UTF-8 bytes. What depends on the browser's locale is a parameter.
\<close>

section \<open>Formatting\<close>

text \<open>
  What the browser gives: the time value of a date string, NaN for no date, and its rendering as
  a time of day and as a date with time.
\<close>

record browser =
  br_time :: "string \<Rightarrow> jsnum"
  br_clock :: "string \<Rightarrow> string"
  br_dateTime :: "string \<Rightarrow> string"

definition dash :: string where
  "dash = [CHR 0xE2, CHR 0x80, CHR 0x94]"

definition middle_dot :: string where
  "middle_dot = '' '' @ [CHR 0xC2, CHR 0xB7] @ '' ''"

text \<open>\<open>null\<close>, \<open>undefined\<close> and the empty string are falsy.\<close>

definition truthy :: "string option \<Rightarrow> bool" where
  "truthy s \<longleftrightarrow> s \<noteq> None \<and> s \<noteq> Some []"

definition formatClock :: "browser \<Rightarrow> string option \<Rightarrow> string" where
  "formatClock br value = (if truthy value then br_clock br (the value) else dash)"

definition formatDateTime :: "browser \<Rightarrow> string option \<Rightarrow> string" where
  "formatDateTime br value = (if truthy value then br_dateTime br (the value) else dash)"

text \<open>\<open>x.toFixed(k)\<close>.\<close>

definition to_fixed :: "nat \<Rightarrow> rat \<Rightarrow> string" where
  "to_fixed k x =
     (let n = nat \<lfloor>\<bar>x\<bar> * 10 ^ k + 1 / 2\<rfloor>
      in (if x < 0 then ''-'' else []) @ show_nat (n div 10 ^ k) @
         (if k = 0 then [] else ''.'' @ pad0 k (show_nat (n mod 10 ^ k))))"

definition formatDuration :: "rat option \<Rightarrow> string" where
  "formatDuration duration =
     (case duration of
        None \<Rightarrow> dash
      | Some ms \<Rightarrow>
          if ms < 1000 then show_int (js_round ms) @ '' ms''
          else if ms < 60000 then to_fixed 1 (ms / 1000) @ '' s''
          else show_int (js_round (ms / 60000)) @ '' min'')"

definition secondsUntil :: "browser \<Rightarrow> string option \<Rightarrow> int \<Rightarrow> jsnum option" where
  "secondsUntil br target now =
     (if \<not> truthy target then None
      else case br_time br (the target) of
        Fin t \<Rightarrow> Some (Fin (of_int (max 0 (js_round ((t - of_int now) / 1000)))))
      | x \<Rightarrow> Some x)"

text \<open>\<open>seconds % 60\<close> takes the sign of \<open>seconds\<close>; a countdown is never infinite.\<close>

definition formatCountdown :: "jsnum option \<Rightarrow> string" where
  "formatCountdown countdown =
     (case countdown of
        None \<Rightarrow> dash
      | Some (Fin seconds) \<Rightarrow>
          if seconds = 0 then ''due now''
          else
            (let minutes = \<lfloor>seconds / 60\<rfloor>; rest = seconds - 60 * of_int (js_trunc (seconds / 60))
             in if 0 < minutes then ''in '' @ show_int minutes @ ''m '' @ pad0 2 (show_num rest) @ ''s''
                else ''in '' @ show_num rest @ ''s'')
      | Some _ \<Rightarrow> ''in NaNs'')"

fun js_join :: "string \<Rightarrow> string list \<Rightarrow> string" where
  "js_join sep [] = []"
| "js_join sep [s] = s"
| "js_join sep (s # ss) = s @ sep @ js_join sep ss"

definition titleCase :: "string \<Rightarrow> string" where
  "titleCase value =
     js_join '' '' (map (\<lambda>part. take 1 part @ to_lower (drop 1 part)) (js_split (CHR ''_'') value))"

section \<open>Presentation of states\<close>

record StatusPresentation =
  sp_label :: string
  sp_icon :: string
  sp_color :: string
  sp_tint :: string
  sp_border :: string
  sp_description :: string

fun STATUS_PRESENTATION :: "DeliveryStatus \<Rightarrow> StatusPresentation" where
  "STATUS_PRESENTATION PENDING =
     \<lparr>sp_label = ''Pending'', sp_icon = [CHR 0xE2, CHR 0x97, CHR 0xB7], sp_color = ''var(--text-secondary)'',
      sp_tint = ''color-mix(in srgb, var(--text-secondary) 10%, transparent)'',
      sp_border = ''color-mix(in srgb, var(--text-secondary) 35%, transparent)'',
      sp_description = ''Queued in the database, waiting for the worker to claim it.''\<rparr>"
| "STATUS_PRESENTATION DELIVERING =
     \<lparr>sp_label = ''Delivering'', sp_icon = [CHR 0xE2, CHR 0x97, CHR 0x86], sp_color = ''var(--series-1)'',
      sp_tint = ''color-mix(in srgb, var(--series-1) 12%, transparent)'',
      sp_border = ''color-mix(in srgb, var(--series-1) 40%, transparent)'',
      sp_description = ''A worker holds the lease and the HTTP request is in flight.''\<rparr>"
| "STATUS_PRESENTATION RETRYING =
     \<lparr>sp_label = ''Retrying'', sp_icon = [CHR 0xE2, CHR 0x86, CHR 0xBB], sp_color = ''var(--status-warning)'',
      sp_tint = ''color-mix(in srgb, var(--status-warning) 16%, transparent)'',
      sp_border = ''color-mix(in srgb, var(--status-warning) 45%, transparent)'',
      sp_description = ''A retryable failure was recorded and the next attempt is scheduled.''\<rparr>"
| "STATUS_PRESENTATION DELIVERED =
     \<lparr>sp_label = ''Delivered'', sp_icon = [CHR 0xE2, CHR 0x9C, CHR 0x93], sp_color = ''var(--status-good)'',
      sp_tint = ''color-mix(in srgb, var(--status-good) 12%, transparent)'',
      sp_border = ''color-mix(in srgb, var(--status-good) 40%, transparent)'',
      sp_description = ''The receiver answered 2xx. Terminal state.''\<rparr>"
| "STATUS_PRESENTATION DeliveryStatus.FAILED =
     \<lparr>sp_label = ''Failed'', sp_icon = [CHR 0xE2, CHR 0x9C, CHR 0x95], sp_color = ''var(--status-critical)'',
      sp_tint = ''color-mix(in srgb, var(--status-critical) 12%, transparent)'',
      sp_border = ''color-mix(in srgb, var(--status-critical) 40%, transparent)'',
      sp_description = ''Permanently failed, or the retry budget was spent. Terminal state.''\<rparr>"

record StatusRole =
  role_color :: string
  role_label :: string

definition httpStatusRole :: "int \<Rightarrow> StatusRole" where
  "httpStatusRole code =
     (if 200 \<le> code \<and> code < 300 then \<lparr>role_color = ''var(--status-good)'', role_label = ''Success''\<rparr>
      else if code = 408 \<or> code = 429 \<or> 500 \<le> code
      then \<lparr>role_color = ''var(--status-warning)'', role_label = ''Retryable''\<rparr>
      else \<lparr>role_color = ''var(--status-critical)'', role_label = ''Permanent''\<rparr>)"

text \<open>
  The dashboard classifies as the engine does: the role the client gives an HTTP status
  is the classification the retry policy acts on, for every status.
\<close>

theorem status_role_is_the_policy:
  "role_label (httpStatusRole code) =
     (case classifyHttpStatus code of
        Delivered_2xx \<Rightarrow> ''Success'' | Failure RETRYABLE \<Rightarrow> ''Retryable'' | Failure PERMANENT \<Rightarrow> ''Permanent'') \<and>
   role_color (httpStatusRole code) =
     (case classifyHttpStatus code of
        Delivered_2xx \<Rightarrow> sp_color (STATUS_PRESENTATION DELIVERED)
      | Failure RETRYABLE \<Rightarrow> sp_color (STATUS_PRESENTATION RETRYING)
      | Failure PERMANENT \<Rightarrow> sp_color (STATUS_PRESENTATION DeliveryStatus.FAILED))"
  by (simp add: httpStatusRole_def classifyHttpStatus_def RETRYABLE_CLIENT_STATUSES_def)

section \<open>History\<close>

text \<open>An entry of the feed: an event, and whether it was reconstructed from REST.\<close>

record FeedEntry = RealtimeEvent +
  fe_historical :: bool

fun STATUS_TO_TYPE :: "DeliveryStatus \<Rightarrow> RealtimeEventType" where
  "STATUS_TO_TYPE PENDING = EVENT_ACCEPTED"
| "STATUS_TO_TYPE DELIVERING = DELIVERY_STARTED"
| "STATUS_TO_TYPE RETRYING = DELIVERY_RETRY_SCHEDULED"
| "STATUS_TO_TYPE DELIVERED = DELIVERY_SUCCEEDED"
| "STATUS_TO_TYPE DeliveryStatus.FAILED = DELIVERY_FAILED"

text \<open>\<open>${error.httpStatus ?? error.errorType}\<close>.\<close>

definition error_label :: "int option \<Rightarrow> DeliveryErrorType option \<Rightarrow> string" where
  "error_label httpStatus errorType =
     (case httpStatus of Some s \<Rightarrow> show_int s | None \<Rightarrow> show_or_null error_type_name errorType)"

definition describe :: "EventSummary \<Rightarrow> string" where
  "describe event =
     (let count = show_int (es_attemptCount event);
          error = (case es_lastError event of
                     None \<Rightarrow> []
                   | Some e \<Rightarrow> '' (last response '' @ error_label (le_httpStatus e) (le_errorType e) @ '')'')
      in case es_status event of
           PENDING \<Rightarrow> ''accepted, waiting for the first delivery attempt''
         | DELIVERING \<Rightarrow> ''delivery attempt #'' @ count @ '' in flight''
         | RETRYING \<Rightarrow>
             ''retrying after '' @ count @ '' of '' @ show_num (es_maxAttempts event) @ '' attempts'' @ error
         | DELIVERED \<Rightarrow> ''delivered on attempt #'' @ count
         | DeliveryStatus.FAILED \<Rightarrow>
             if es_maxAttempts event \<le> of_int (es_attemptCount event)
             then ''failed after '' @ count @ '' attempts, retry limit reached'' @ error
             else ''failed permanently, no retry scheduled'' @ error)"

definition history_entry :: "EventSummary \<Rightarrow> FeedEntry" where
  "history_entry event =
     RealtimeEvent.extend
       ((realtime_event (STATUS_TO_TYPE (es_status event)) (es_eventId event) (describe event))
        \<lparr>re_eventType := Some (es_type event), re_status := Some (es_status event),
         re_attemptNumber := Some (Fin (of_int (es_attemptCount event))),
         re_maxAttempts := Some (es_maxAttempts event),
         re_nextAttemptAt := Some (es_nextAttemptAt event),
         re_httpStatus := Some (case es_lastError event of None \<Rightarrow> None | Some e \<Rightarrow> le_httpStatus e),
         re_errorMessage := Some (case es_lastError event of None \<Rightarrow> None | Some e \<Rightarrow> le_message e),
         re_emittedAt := Some (es_updatedAt event)\<rparr>)
       \<lparr>fe_historical = True\<rparr>"

definition historyFromEvents :: "EventSummary list \<Rightarrow> nat \<Rightarrow> FeedEntry list" where
  "historyFromEvents es limit = map history_entry (take limit es)"

lemma history_entry_fields [simp]:
  "fe_historical (history_entry e)" "re_eventId (history_entry e) = es_eventId e"
  "re_status (history_entry e) = Some (es_status e)"
  by (simp_all add: history_entry_def RealtimeEvent.defs realtime_event_def)

lemma historyFromEvents_facts:
  "length (historyFromEvents es n) \<le> n" "x \<in> set (historyFromEvents es n) \<Longrightarrow> fe_historical x"
  by (auto simp: historyFromEvents_def)

end
