(* ===== verification/ClientState.thy ===== *)
theory ClientState
  imports ClientLib
begin

text \<open>
  \<open>apps/client/hooks\<close>: the dashboard's state and its transitions (\<open>useEngineState.ts\<close>), and the state
  of one event's page (\<open>useEventDetail.ts\<close>). A refresh is three reads that start together and
  settle together, in a step of its own: others may start and settle in between, in any order. The
  theorems: the feed is bounded and its live part precedes the history, a change that was announced
  is always read back, a snapshot replaces whatever was painted optimistically, and what the races
  between refreshes may do.
\<close>

section \<open>The dashboard\<close>

datatype ConnectionState = connecting | live | offline

record Snapshot =
  sn_stats :: DashboardStats
  sn_events :: "EventSummary list"
  sn_receiver :: "ReceiverConfig \<times> ReceiverStats"

text \<open>
  The hook's state, with the refreshes in flight in the order they were started, and a ghost
  \<open>en_unread\<close>: something was announced since the last refresh was started.
\<close>

record engine =
  en_stats :: "DashboardStats option"
  en_events :: "EventSummary list"
  en_feed :: "FeedEntry list"
  en_receiver :: "(ReceiverConfig \<times> ReceiverStats) option"
  en_connection :: ConnectionState
  en_error :: "string option"
  en_loading :: bool
  en_timer :: bool
  en_inflight :: "nat list"
  en_started :: nat
  en_unread :: bool

definition MAX_FEED_ENTRIES :: nat where
  "MAX_FEED_ENTRIES = 120"

text \<open>\<open>refresh\<close> up to its reads.\<close>

definition refresh_start :: "engine \<Rightarrow> engine" where
  "refresh_start s =
     s\<lparr>en_inflight := en_inflight s @ [en_started s], en_started := Suc (en_started s), en_unread := False\<rparr>"

definition refresh_done :: "Snapshot \<Rightarrow> engine \<Rightarrow> engine" where
  "refresh_done next s =
     s\<lparr>en_stats := Some (sn_stats next), en_events := sn_events next,
       en_feed := (if en_feed s = [] then historyFromEvents (sn_events next) 15 else en_feed s),
       en_receiver := Some (sn_receiver next), en_error := None, en_loading := False\<rparr>"

definition refresh_failed :: "string \<Rightarrow> engine \<Rightarrow> engine" where
  "refresh_failed message s = s\<lparr>en_error := Some message, en_loading := False\<rparr>"

text \<open>The hook as it mounts: the first refresh is under way.\<close>

definition mounted :: engine where
  "mounted =
     refresh_start
       \<lparr>en_stats = None, en_events = [], en_feed = [], en_receiver = None, en_connection = connecting,
        en_error = None, en_loading = True, en_timer = False, en_inflight = [], en_started = 0,
        en_unread = False\<rparr>"

text \<open>\<open>null\<close> and 0, \<open>null\<close> and the empty string are falsy.\<close>

definition reports_error :: "RealtimeEvent \<Rightarrow> bool" where
  "reports_error event \<longleftrightarrow>
     (case re_httpStatus event of Some (Some s) \<Rightarrow> s \<noteq> 0 | _ \<Rightarrow> False) \<or>
     (case re_errorMessage event of Some (Some m) \<Rightarrow> m \<noteq> [] | _ \<Rightarrow> False)"

text \<open>
  \<open>event.attemptNumber ?? row.attemptCount\<close>; an event with a status carries a whole number, and
  JSON turns every other one into \<open>null\<close>.
\<close>

definition patched_count :: "RealtimeEvent \<Rightarrow> EventSummary \<Rightarrow> int" where
  "patched_count event row =
     (case re_attemptNumber event of Some (Fin n) \<Rightarrow> \<lfloor>n\<rfloor> | _ \<Rightarrow> es_attemptCount row)"

definition patch_row :: "RealtimeEvent \<Rightarrow> DeliveryStatus \<Rightarrow> EventSummary \<Rightarrow> EventSummary" where
  "patch_row event status row =
     row\<lparr>es_status := status,
         es_attemptCount := patched_count event row,
         es_nextAttemptAt := coalesce (re_nextAttemptAt event) (es_nextAttemptAt row),
         es_lastError :=
           (if re_type event = DELIVERY_SUCCEEDED then None
            else if reports_error event then
              Some \<lparr>le_httpStatus = coalesce (re_httpStatus event) None,
                    le_errorType = coalesce (re_errorType event) None,
                    le_message = coalesce (re_errorMessage event) None\<rparr>
            else es_lastError row)\<rparr>"

text \<open>\<open>findIndex\<close>, then the copy with one row replaced.\<close>

fun replace_first :: "('a \<Rightarrow> bool) \<Rightarrow> ('a \<Rightarrow> 'a) \<Rightarrow> 'a list \<Rightarrow> 'a list" where
  "replace_first P f [] = []"
| "replace_first P f (x # xs) = (if P x then f x # xs else x # replace_first P f xs)"

definition applyOptimisticPatch :: "RealtimeEvent \<Rightarrow> EventSummary list \<Rightarrow> EventSummary list" where
  "applyOptimisticPatch event rows =
     (case re_status event of
        None \<Rightarrow> rows
      | Some status \<Rightarrow>
          if re_eventId event = ''-'' then rows
          else replace_first (\<lambda>row. es_eventId row = re_eventId event) (patch_row event status) rows)"

definition live_entry :: "RealtimeEvent \<Rightarrow> FeedEntry" where
  "live_entry event = RealtimeEvent.extend event \<lparr>fe_historical = False\<rparr>"

definition on_activity :: "RealtimeEvent \<Rightarrow> engine \<Rightarrow> engine" where
  "on_activity event s =
     s\<lparr>en_feed := take MAX_FEED_ENTRIES (live_entry event # en_feed s),
       en_events := applyOptimisticPatch event (en_events s),
       en_timer := True, en_unread := True\<rparr>"

inductive engine_step :: "engine \<Rightarrow> engine \<Rightarrow> bool" where
  connect: "engine_step s (refresh_start (s\<lparr>en_connection := live\<rparr>))"
| disconnect: "engine_step s (s\<lparr>en_connection := offline\<rparr>)"
| connect_error: "engine_step s (s\<lparr>en_connection := offline\<rparr>)"
| activity: "engine_step s (on_activity event s)"
| stats: "engine_step s (s\<lparr>en_stats := Some next\<rparr>)"
| timer: "en_timer s \<Longrightarrow> engine_step s (refresh_start (s\<lparr>en_timer := False\<rparr>))"
| refresh: "engine_step s (refresh_start s)"
| read: "k \<in> set (en_inflight s) \<Longrightarrow>
    engine_step s (refresh_done next (s\<lparr>en_inflight := remove1 k (en_inflight s)\<rparr>))"
| failed: "k \<in> set (en_inflight s) \<Longrightarrow>
    engine_step s (refresh_failed message (s\<lparr>en_inflight := remove1 k (en_inflight s)\<rparr>))"
| setReceiver: "engine_step s (s\<lparr>en_receiver := Some r\<rparr>)"

inductive engine_steps :: "engine \<Rightarrow> engine \<Rightarrow> bool" where
  start: "engine_steps s s"
| further: "engine_steps s s' \<Longrightarrow> engine_step s' s'' \<Longrightarrow> engine_steps s s''"

lemma engine_invariant:
  assumes "engine_steps s s'" and "P s" and "\<And>u v. engine_step u v \<Longrightarrow> P u \<Longrightarrow> P v"
  shows "P s'"
  using assms by (induction rule: engine_steps.induct) auto

section \<open>The feed\<close>

text \<open>Live entries first, then history.\<close>

definition feed_ok :: "FeedEntry list \<Rightarrow> bool" where
  "feed_ok f \<longleftrightarrow> length f \<le> MAX_FEED_ENTRIES \<and>
     (\<exists>new old. f = new @ old \<and> (\<forall>x \<in> set new. \<not> fe_historical x) \<and> (\<forall>x \<in> set old. fe_historical x) \<and>
        length old \<le> 15)"

lemma feed_ok_history: "feed_ok (historyFromEvents es 15)"
  unfolding feed_ok_def
  by (intro conjI exI [of _ "[]"] exI [of _ "historyFromEvents es 15"])
     (use historyFromEvents_facts(1) [of es 15] in \<open>auto simp: MAX_FEED_ENTRIES_def dest: historyFromEvents_facts(2)\<close>)

lemma feed_ok_activity:
  assumes "feed_ok f"
  shows "feed_ok (take MAX_FEED_ENTRIES (live_entry event # f))"
proof -
  from assms obtain new old where f: "f = new @ old" "\<forall>x \<in> set new. \<not> fe_historical x"
    "\<forall>x \<in> set old. fe_historical x" "length old \<le> 15" by (auto simp: feed_ok_def)
  let ?new = "live_entry event # new"
  have "take MAX_FEED_ENTRIES (live_entry event # f) =
      take MAX_FEED_ENTRIES ?new @ take (MAX_FEED_ENTRIES - length ?new) old"
    using take_append [of MAX_FEED_ENTRIES ?new old] by (simp add: f(1))
  moreover have "\<forall>x \<in> set (take MAX_FEED_ENTRIES ?new). \<not> fe_historical x"
    using f(2) by (auto simp: live_entry_def RealtimeEvent.defs dest!: in_set_takeD)
  moreover have "\<forall>x \<in> set (take (MAX_FEED_ENTRIES - length ?new) old). fe_historical x"
    using f(3) by (auto dest!: in_set_takeD)
  moreover have "length (take (MAX_FEED_ENTRIES - length ?new) old) \<le> 15" using f(4) by simp
  moreover have "length (take MAX_FEED_ENTRIES (live_entry event # f)) \<le> MAX_FEED_ENTRIES" by simp
  ultimately show ?thesis unfolding feed_ok_def by blast
qed

lemma feed_ok_step: "engine_step s s' \<Longrightarrow> feed_ok (en_feed s) \<Longrightarrow> feed_ok (en_feed s')"
  by (induction rule: engine_step.induct)
     (simp_all add: refresh_start_def refresh_done_def refresh_failed_def on_activity_def feed_ok_activity
        feed_ok_history)

text \<open>
  The activity feed is bounded and ordered: in every state of the dashboard it has at
  most 120 entries, the live ones newest first and all before the at most 15 reconstructed ones, so
  live entries are never displaced by history.
\<close>

theorem feed_is_bounded_and_split:
  assumes "engine_steps mounted s"
  shows "length (en_feed s) \<le> 120 \<and>
    (\<exists>new old. en_feed s = new @ old \<and> (\<forall>x \<in> set new. \<not> fe_historical x) \<and>
       (\<forall>x \<in> set old. fe_historical x) \<and> length old \<le> 15)"
proof -
  have "feed_ok (en_feed mounted)" by (simp add: feed_ok_def mounted_def refresh_start_def)
  with assms have "feed_ok (en_feed s)" by (rule engine_invariant [where P = "\<lambda>s. feed_ok (en_feed s)"]) (rule feed_ok_step)
  then show ?thesis by (simp add: feed_ok_def MAX_FEED_ENTRIES_def)
qed

theorem feed_is_bounded_and_split_witness:
  "engine_steps mounted (on_activity (realtime_event DELIVERY_STARTED ''evt-1'' []) mounted) \<and> length (en_feed (on_activity (realtime_event DELIVERY_STARTED ''evt-1'' []) mounted)) \<le> 120"
proof
  show s: "engine_steps mounted (on_activity (realtime_event DELIVERY_STARTED ''evt-1'' []) mounted)"
    by (rule engine_steps.further [OF engine_steps.start engine_step.activity])
  show "length (en_feed (on_activity (realtime_event DELIVERY_STARTED ''evt-1'' []) mounted)) \<le> 120" using feed_is_bounded_and_split [OF s] by blast
qed

section \<open>Reconciliation\<close>

definition reconciles :: "engine \<Rightarrow> bool" where
  "reconciles s \<longleftrightarrow> (en_unread s \<longrightarrow> en_timer s) \<and> (en_loading s \<longrightarrow> en_inflight s \<noteq> [])"

lemma reconciles_step: "engine_step s s' \<Longrightarrow> reconciles s \<Longrightarrow> reconciles s'"
  by (induction rule: engine_step.induct)
     (auto simp: reconciles_def refresh_start_def refresh_done_def refresh_failed_def on_activity_def)

text \<open>
  Property C30. What is announced is read back: in every state of the dashboard, if an activity
  arrived after the last refresh was started, the reconciliation timer is armed - and its firing
  starts a refresh; and while the dashboard shows that it is loading, a refresh is in flight.
\<close>

theorem announced_change_is_read_back:
  assumes "engine_steps mounted s"
  shows "(en_unread s \<longrightarrow> en_timer s \<and>
      (\<exists>s'. engine_step s s' \<and> \<not> en_unread s' \<and> en_inflight s' = en_inflight s @ [en_started s])) \<and>
    (en_loading s \<longrightarrow> en_inflight s \<noteq> [])"
proof -
  have "reconciles mounted" by (simp add: reconciles_def mounted_def refresh_start_def)
  with assms have r: "reconciles s" by (rule engine_invariant) (rule reconciles_step)
  moreover have "\<exists>s'. engine_step s s' \<and> \<not> en_unread s' \<and> en_inflight s' = en_inflight s @ [en_started s]"
    if "en_timer s"
    using engine_step.timer [OF that] by (intro exI) (erule conjI, simp add: refresh_start_def)
  ultimately show ?thesis by (auto simp: reconciles_def)
qed

theorem announced_change_is_read_back_witness:
  "engine_steps mounted (on_activity (realtime_event DELIVERY_STARTED ''evt-1'' []) mounted) \<and> en_timer (on_activity (realtime_event DELIVERY_STARTED ''evt-1'' []) mounted)"
proof
  show s: "engine_steps mounted (on_activity (realtime_event DELIVERY_STARTED ''evt-1'' []) mounted)"
    by (rule engine_steps.further [OF engine_steps.start engine_step.activity])
  have "en_unread (on_activity (realtime_event DELIVERY_STARTED ''evt-1'' []) mounted)" by (simp add: on_activity_def)
  with announced_change_is_read_back [OF s] show "en_timer (on_activity (realtime_event DELIVERY_STARTED ''evt-1'' []) mounted)" by blast
qed

section \<open>Painting\<close>

lemma replace_first_map:
  assumes "\<And>x. P x \<Longrightarrow> g (f x) = g x"
  shows "map g (replace_first P f xs) = map g xs"
  using assms by (induction xs) auto

lemma replace_first_distinct:
  assumes "distinct (map g xs)" and "\<And>x. P x \<longleftrightarrow> g x = k"
  shows "replace_first P f xs = map (\<lambda>x. if g x = k then f x else x) xs"
  using assms(1)
proof (induction xs)
  case (Cons x xs)
  show ?case
  proof (cases "g x = k")
    case True
    with Cons.prems have "k \<notin> g ` set xs" by simp
    then have "\<forall>y \<in> set xs. g y \<noteq> k" by blast
    then have "map (\<lambda>x. if g x = k then f x else x) xs = xs" by (intro map_idI) simp
    with True show ?thesis by (simp add: assms(2))
  next
    case False
    with Cons show ?thesis by (simp add: assms(2))
  qed
qed simp

text \<open>
  The optimistic patch touches one row: an activity with a status rewrites, in the row
  of its event and in no other, the status, the attempt count, the next attempt and the last error;
  ids, types and the order of the rows stay, and an activity without a status - the receiver's -
  changes nothing.
\<close>

theorem optimistic_patch_frame:
  assumes "distinct (map es_eventId rows)"
  shows "applyOptimisticPatch event rows =
      (if re_eventId event = ''-'' then rows
       else case re_status event of
         None \<Rightarrow> rows
       | Some status \<Rightarrow> map (\<lambda>row. if es_eventId row = re_eventId event then patch_row event status row else row) rows) \<and>
    map es_eventId (applyOptimisticPatch event rows) = map es_eventId rows \<and>
    map es_type (applyOptimisticPatch event rows) = map es_type rows \<and>
    map es_maxAttempts (applyOptimisticPatch event rows) = map es_maxAttempts rows \<and>
    map es_updatedAt (applyOptimisticPatch event rows) = map es_updatedAt rows"
  using replace_first_distinct [OF assms, of "\<lambda>row. es_eventId row = re_eventId event" "re_eventId event"]
  by (auto simp: applyOptimisticPatch_def patch_row_def intro!: replace_first_map split: option.split)

theorem optimistic_patch_frame_witness:
  "applyOptimisticPatch (realtime_event RECEIVER_DELIVERY_RECEIVED ''evt-1'' []) [] = []"
  using optimistic_patch_frame [of "[]" "realtime_event RECEIVER_DELIVERY_RECEIVED ''evt-1'' []"]
  by (simp add: realtime_event_def)

text \<open>
  REST is authoritative: when a refresh settles, the statistics, the rows and the
  receiver are those of its snapshot, whatever was painted before, and a feed that has entries is
  left alone. But it is the refresh that settles last that counts, not the one that was started
  last: of two refreshes in flight the older snapshot may overwrite the newer one, and nothing
  remains that would read again.
\<close>

theorem refresh_is_authoritative_but_unordered:
  fixes newer older :: Snapshot
  shows
  "(let s' = refresh_done next s in
      en_stats s' = Some (sn_stats next) \<and> en_events s' = sn_events next \<and>
      en_receiver s' = Some (sn_receiver next) \<and> en_error s' = None \<and>
      en_feed s' = (if en_feed s = [] then historyFromEvents (sn_events next) 15 else en_feed s)) \<and>
   (\<exists>s. engine_steps mounted s \<and> en_started s = 2 \<and> en_inflight s = [0, 1] \<and>
      (\<exists>s'. engine_step s (refresh_done newer (s\<lparr>en_inflight := [0]\<rparr>)) \<and>
            engine_step (refresh_done newer (s\<lparr>en_inflight := [0]\<rparr>)) s' \<and>
            en_events s' = sn_events older \<and> en_inflight s' = [] \<and> \<not> en_timer s' \<and> \<not> en_unread s'))"
proof
  show "let s' = refresh_done next s in
      en_stats s' = Some (sn_stats next) \<and> en_events s' = sn_events next \<and>
      en_receiver s' = Some (sn_receiver next) \<and> en_error s' = None \<and>
      en_feed s' = (if en_feed s = [] then historyFromEvents (sn_events next) 15 else en_feed s)"
    by (simp add: refresh_done_def Let_def)
  let ?s = "refresh_start (mounted\<lparr>en_connection := live\<rparr>)"
  have s: "engine_steps mounted ?s" by (rule engine_steps.further [OF engine_steps.start engine_step.connect])
  have inflight: "en_inflight ?s = [0, 1]" "en_started ?s = 2" "\<not> en_timer ?s" "\<not> en_unread ?s"
    by (simp_all add: mounted_def refresh_start_def)
  let ?s1 = "refresh_done newer (?s\<lparr>en_inflight := [0]\<rparr>)"
  let ?s2 = "refresh_done older (?s1\<lparr>en_inflight := []\<rparr>)"
  have "engine_step ?s (refresh_done newer (?s\<lparr>en_inflight := remove1 1 (en_inflight ?s)\<rparr>))"
    by (rule engine_step.read) (simp add: inflight)
  then have one: "engine_step ?s ?s1" by (simp add: inflight)
  have "engine_step ?s1 (refresh_done older (?s1\<lparr>en_inflight := remove1 0 (en_inflight ?s1)\<rparr>))"
    by (rule engine_step.read) (simp add: refresh_done_def)
  then have two: "engine_step ?s1 ?s2" by (simp add: refresh_done_def)
  show "\<exists>s. engine_steps mounted s \<and> en_started s = 2 \<and> en_inflight s = [0, 1] \<and>
      (\<exists>s'. engine_step s (refresh_done newer (s\<lparr>en_inflight := [0]\<rparr>)) \<and>
            engine_step (refresh_done newer (s\<lparr>en_inflight := [0]\<rparr>)) s' \<and>
            en_events s' = sn_events older \<and> en_inflight s' = [] \<and> \<not> en_timer s' \<and> \<not> en_unread s')"
    using s inflight one two
    by (intro exI [of _ ?s] exI [of _ ?s2] conjI) (simp_all add: refresh_done_def)
qed

section \<open>The page of one event\<close>

record detail_state =
  dt_event :: "EventDetail option"
  dt_timeline :: "RealtimeEvent list"
  dt_loading :: bool
  dt_error :: "string option"
  dt_timer :: bool
  dt_inflight :: nat

text \<open>The hook as it mounts, its first read under way.\<close>

definition detail_mounted :: detail_state where
  "detail_mounted =
     \<lparr>dt_event = None, dt_timeline = [], dt_loading = True, dt_error = None, dt_timer = False, dt_inflight = 1\<rparr>"

definition detail_activity :: "string \<Rightarrow> RealtimeEvent \<Rightarrow> detail_state \<Rightarrow> detail_state" where
  "detail_activity eventId incoming s =
     (if re_eventId incoming \<noteq> eventId then s
      else s\<lparr>dt_timeline := dt_timeline s @ [incoming], dt_timer := True\<rparr>)"

definition detail_read :: "EventDetail \<Rightarrow> detail_state \<Rightarrow> detail_state" where
  "detail_read event s = s\<lparr>dt_event := Some event, dt_error := None, dt_loading := False\<rparr>"

definition detail_failed :: "string \<Rightarrow> detail_state \<Rightarrow> detail_state" where
  "detail_failed message s = s\<lparr>dt_error := Some message, dt_loading := False\<rparr>"

inductive detail_steps :: "string \<Rightarrow> (string \<Rightarrow> EventDetail \<Rightarrow> bool) \<Rightarrow> detail_state \<Rightarrow> bool" for eventId api where
  mount: "detail_steps eventId api detail_mounted"
| connect: "detail_steps eventId api s \<Longrightarrow> detail_steps eventId api (s\<lparr>dt_inflight := Suc (dt_inflight s)\<rparr>)"
| activity: "detail_steps eventId api s \<Longrightarrow> detail_steps eventId api (detail_activity eventId incoming s)"
| timer: "detail_steps eventId api s \<Longrightarrow> dt_timer s \<Longrightarrow>
    detail_steps eventId api (s\<lparr>dt_timer := False, dt_inflight := Suc (dt_inflight s)\<rparr>)"
| read: "detail_steps eventId api s \<Longrightarrow> 0 < dt_inflight s \<Longrightarrow> api eventId event \<Longrightarrow>
    detail_steps eventId api (detail_read event (s\<lparr>dt_inflight := dt_inflight s - 1\<rparr>))"
| failed: "detail_steps eventId api s \<Longrightarrow> 0 < dt_inflight s \<Longrightarrow>
    detail_steps eventId api (detail_failed message (s\<lparr>dt_inflight := dt_inflight s - 1\<rparr>))"

text \<open>
  The page of an event shows that event only: whatever arrives on the socket, the
  timeline holds activities of its event alone; the event it shows is one the API returned for its
  id; and it stops loading only with an event or an error to show.
\<close>

theorem detail_page_shows_its_event:
  assumes "detail_steps eventId api s"
  shows "(\<forall>e \<in> set (dt_timeline s). re_eventId e = eventId) \<and>
    (case dt_event s of None \<Rightarrow> True | Some event \<Rightarrow> api eventId event) \<and>
    (\<not> dt_loading s \<longrightarrow> dt_event s \<noteq> None \<or> dt_error s \<noteq> None)"
  using assms
  by (induction rule: detail_steps.induct)
     (auto simp: detail_mounted_def detail_activity_def detail_read_def detail_failed_def)

theorem detail_page_shows_its_event_witness:
  "\<exists>s. detail_steps ''evt-1'' (\<lambda>_ _. False) s \<and> dt_timeline s \<noteq> [] \<and>
     (\<forall>e \<in> set (dt_timeline s). re_eventId e = ''evt-1'')"
proof -
  let ?e = "realtime_event DELIVERY_STARTED ''evt-1'' []"
  let ?s = "detail_activity ''evt-1'' ?e detail_mounted"
  have s: "detail_steps ''evt-1'' (\<lambda>_ _. False) ?s" by (rule detail_steps.activity [OF detail_steps.mount])
  have "dt_timeline ?s \<noteq> []" by (simp add: detail_activity_def realtime_event_def)
  with s detail_page_shows_its_event [OF s] show ?thesis by blast
qed

end
