(* ===== verification/Guarantees.thy ===== *)
theory Guarantees
  imports Sample
begin

text \<open>
  The guarantees of the running system: what holds of every state that any interleaving of
  workers and requests of any number of nodes reaches, with crashes, failing statements and any
  answers of the receiver (\<open>cluster\<close>), what the history of such a run keeps, the two bounds that
  need a single worker (\<open>one_worker\<close>), and what the passes of one worker achieve (\<open>passes\<close>).
\<close>

section \<open>Any number of workers\<close>

text \<open>
  Property C1. At-least-once acceptance: in every reachable state the queue holds exactly one job
  for every event and no other, in the order of acceptance, and no two events have keys the
  database regards as equal. An event is never accepted without its job, nor twice.
\<close>

theorem one_job_per_event:
  assumes "pool_steps (cluster ci) (Map.empty, w0) (ps, w)" and "starts_empty w0"
  shows "map jr_eventId (jobs (w_db w)) = map er_eventId (events (w_db w)) \<and>
    distinct (map (\<lambda>e. ci (er_eventId e)) (events (w_db w))) \<and>
    distinct (map (\<lambda>r. ci (jr_id r)) (jobs (w_db w)))"
  using cluster_wf [OF assms] by (simp add: wf_db_def)

text \<open>The property at a run that accepts an event and fails one attempt at it.\<close>

theorem one_job_per_event_witness:
  "\<exists>w. pool_steps (cluster binary) (Map.empty, demo_world) (Map.empty, w) \<and>
     ''evt-1'' \<in> set (map er_eventId (events (w_db w))) \<and>
     map jr_eventId (jobs (w_db w)) = map er_eventId (events (w_db w))"
  using demo_run [of "[demo_reply 503]"] one_job_per_event [OF _ demo_starts, of binary Map.empty]
  by (auto simp: job_at_def image_iff) metis

text \<open>
  Property C2. Delivery is never claimed without evidence: in every reachable state a job or an event
  with status DELIVERED has an exchange on the wire in which the receiver answered this
  event with a 2xx status.
\<close>

theorem delivered_has_evidence:
  assumes "pool_steps (cluster ci) (Map.empty, w0) (ps, w)" and "starts_empty w0"
  shows "(\<forall>r \<in> set (jobs (w_db w)). jr_status r = DELIVERED \<longrightarrow>
      (\<exists>x \<in> set (wire (w_db w)). wr_eventId (wx_delivery x) = jr_eventId r \<and> reply_ok (wx_reply x))) \<and>
    (\<forall>e \<in> set (events (w_db w)). er_status e = DELIVERED \<longrightarrow>
      (\<exists>x \<in> set (wire (w_db w)). wr_eventId (wx_delivery x) = er_eventId e \<and> reply_ok (wx_reply x)))"
  using cluster_wf [OF assms] by (auto simp: wf_db_def evidence_def)

theorem delivered_has_evidence_witness:
  "\<exists>w. pool_steps (cluster binary) (Map.empty, demo_world) (Map.empty, w) \<and>
     (\<exists>r \<in> set (jobs (w_db w)). jr_status r = DELIVERED \<and>
        (\<exists>x \<in> set (wire (w_db w)). wr_eventId (wx_delivery x) = jr_eventId r \<and> reply_ok (wx_reply x)))"
proof -
  have "fate 3 0 PENDING [demo_reply 200] = (DELIVERED, 1)" by code_simp
  with demo_run [of "[demo_reply 200]"] obtain w r where
    "pool_steps (cluster binary) (Map.empty, demo_world) (Map.empty, w)"
    "r \<in> set (jobs (w_db w))" "jr_status r = DELIVERED" by (auto simp: job_at_def sole_open_def)
  with delivered_has_evidence [OF this(1) demo_starts] show ?thesis by blast
qed

lemma delivery_request_fields:
  "wr_eventId (delivery_request e n) = er_eventId e" "wr_type (delivery_request e n) = er_type e"
  "wr_occurredAt (delivery_request e n) = er_occurredAt e" "wr_payload (delivery_request e n) = er_payload e"
  by (simp_all add: delivery_request_def)

text \<open>
  Property C3. What is sent is what was accepted: every request on the wire carries the identity,
  type, time and payload of an event in the table, its body is the serialisation of that
  delivery, and its attempt number is one the event's job has consumed.
\<close>

theorem sent_is_accepted:
  assumes "pool_steps (cluster ci) (Map.empty, w0) (ps, w)" and "starts_empty w0"
    and "x \<in> set (wire (w_db w))"
  shows "(\<exists>e \<in> set (events (w_db w)). wr_eventId (wx_delivery x) = er_eventId e \<and>
      wr_type (wx_delivery x) = er_type e \<and> wr_occurredAt (wx_delivery x) = er_occurredAt e \<and>
      wr_payload (wx_delivery x) = er_payload e) \<and>
    hr_body (wx_request x) = webhook_body (wx_delivery x) \<and> 1 \<le> wr_attemptNumber (wx_delivery x) \<and>
    (\<exists>r \<in> set (jobs (w_db w)). jr_eventId r = wr_eventId (wx_delivery x) \<and>
       wr_attemptNumber (wx_delivery x) \<le> jr_attemptCount r)"
proof -
  have "exchange_ok (w_db w) x" using cluster_wf [OF assms(1,2)] assms(3) by (simp add: wf_db_def)
  then obtain e where "e \<in> set (events (w_db w))"
    "wx_delivery x = delivery_request e (wr_attemptNumber (wx_delivery x))" and rest:
    "counted (wr_eventId (wx_delivery x)) (wr_attemptNumber (wx_delivery x)) (w_db w)"
    "hr_body (wx_request x) = webhook_body (wx_delivery x)"
    by (auto simp: exchange_ok_def)
  then have "\<exists>e \<in> set (events (w_db w)). wr_eventId (wx_delivery x) = er_eventId e \<and>
      wr_type (wx_delivery x) = er_type e \<and> wr_occurredAt (wx_delivery x) = er_occurredAt e \<and>
      wr_payload (wx_delivery x) = er_payload e"
    by (metis delivery_request_fields)
  with rest show ?thesis by (auto simp: counted_def)
qed

theorem sent_is_accepted_witness:
  "\<exists>w. pool_steps (cluster binary) (Map.empty, demo_world) (Map.empty, w) \<and>
     (\<exists>x \<in> set (wire (w_db w)). \<exists>e \<in> set (events (w_db w)).
        wr_eventId (wx_delivery x) = er_eventId e \<and> wr_payload (wx_delivery x) = er_payload e)"
proof -
  have "fate 3 0 PENDING [demo_reply 500] = (RETRYING, 1)" by code_simp
  with demo_run [of "[demo_reply 500]"] obtain w where
    w: "pool_steps (cluster binary) (Map.empty, demo_world) (Map.empty, w)"
    and "length (filter (\<lambda>x. wr_eventId (wx_delivery x) = ''evt-1'') (wire (w_db w))) = 1"
    by (auto simp: job_at_def)
  then obtain x where "x \<in> set (wire (w_db w))" by (metis filter.simps(1) list.set_intros(1) list.size(3) neq_Nil_conv zero_neq_one)
  with sent_is_accepted [OF w demo_starts this] w show ?thesis by blast
qed

text \<open>
  Property C15. The attempt log: no two attempts of an event have the same number, every attempt's
  number was consumed by a claim of the event's job, an attempt is open exactly as long as it
  has no completion time, and has an error type exactly when it failed.
\<close>

theorem attempt_log_consistent:
  assumes "pool_steps (cluster ci) (Map.empty, w0) (ps, w)" and "starts_empty w0"
  shows "distinct (map (\<lambda>a. (ci (ar_eventId a), ar_attemptNumber a)) (attempts (w_db w))) \<and>
    (\<forall>a \<in> set (attempts (w_db w)).
       (ar_status a = IN_PROGRESS \<longleftrightarrow> ar_completedAt a = None) \<and>
       (ar_status a = AttemptStatus.FAILED \<longleftrightarrow> ar_errorType a \<noteq> None) \<and>
       1 \<le> ar_attemptNumber a \<and>
       (\<exists>r \<in> set (jobs (w_db w)). jr_eventId r = ar_eventId a \<and> ar_attemptNumber a \<le> jr_attemptCount r))"
  using cluster_wf [OF assms] by (simp add: wf_db_def attempt_ok_def counted_def)

theorem attempt_log_consistent_witness:
  "\<exists>w. pool_steps (cluster binary) (Map.empty, demo_world) (Map.empty, w) \<and>
     length (filter (\<lambda>a. ar_eventId a = ''evt-1'') (attempts (w_db w))) = 2 \<and>
     distinct (map (\<lambda>a. (binary (ar_eventId a), ar_attemptNumber a)) (attempts (w_db w)))"
proof -
  have "fate 3 0 PENDING [demo_reply 500, demo_reply 429] = (RETRYING, 2)" by code_simp
  with demo_run [of "[demo_reply 500, demo_reply 429]"] obtain w where
    w: "pool_steps (cluster binary) (Map.empty, demo_world) (Map.empty, w)"
    and "int (length (filter (\<lambda>a. ar_eventId a = ''evt-1'') (attempts (w_db w)))) = 2"
    by (auto simp: job_at_def)
  with attempt_log_consistent [OF w demo_starts] show ?thesis by auto
qed

text \<open>
  Property C14. Locks and counters: in every reachable state a job is locked, with time and owner,
  exactly while it is DELIVERING; it is PENDING exactly as long as no attempt was consumed, the
  count is never negative, and an event's own status is never DELIVERING.
\<close>

theorem locked_iff_delivering:
  assumes "pool_steps (cluster ci) (Map.empty, w0) (ps, w)" and "starts_empty w0"
  shows "(\<forall>r \<in> set (jobs (w_db w)).
       (jr_status r = DELIVERING \<longleftrightarrow> jr_lockedAt r \<noteq> None) \<and>
       (jr_status r = DELIVERING \<longleftrightarrow> jr_lockedBy r \<noteq> None) \<and>
       (jr_status r = PENDING \<longleftrightarrow> jr_attemptCount r = 0) \<and> 0 \<le> jr_attemptCount r) \<and>
    (\<forall>e \<in> set (events (w_db w)). er_status e \<noteq> DELIVERING)"
  using cluster_wf [OF assms] by (auto simp: wf_db_def job_ok_def)

theorem locked_iff_delivering_witness:
  "\<exists>w. pool_steps (cluster binary) (Map.empty, demo_world) (Map.empty, w) \<and>
     (\<exists>r \<in> set (jobs (w_db w)). jr_status r = DeliveryStatus.FAILED \<and> jr_lockedAt r = None)"
proof -
  have "fate 3 0 PENDING [demo_reply 404] = (DeliveryStatus.FAILED, 1)" by code_simp
  with demo_run [of "[demo_reply 404]"] obtain w r where
    "pool_steps (cluster binary) (Map.empty, demo_world) (Map.empty, w)"
    "r \<in> set (jobs (w_db w))" "jr_status r = DeliveryStatus.FAILED" by (auto simp: job_at_def sole_open_def)
  with locked_iff_delivering [OF this(1) demo_starts] show ?thesis by fastforce
qed

text \<open>
  Property C10. History: between any two states of one run, the tables only grow, row by row in
  place. An accepted event keeps its identity, content and creation time; a job its identity, and
  its attempt count never falls; an attempt its identity, number and start, and once completed it
  stays completed. The wire is append-only.
\<close>

theorem history_is_kept:
  assumes "pool_steps (cluster ci) (Map.empty, w0) (ps, w)" and "starts_empty w0"
    and "pool_steps (cluster ci) (ps, w) (ps', w')"
  shows "grows (\<lambda>e e'. er_id e' = er_id e \<and> er_createdAt e' = er_createdAt e \<and>
      (\<forall>n. delivery_request e' n = delivery_request e n)) (events (w_db w)) (events (w_db w')) \<and>
    grows (\<lambda>r r'. jr_id r' = jr_id r \<and> jr_eventId r' = jr_eventId r \<and>
      jr_attemptCount r \<le> jr_attemptCount r') (jobs (w_db w)) (jobs (w_db w')) \<and>
    grows (\<lambda>a a'. ar_id a' = ar_id a \<and> ar_eventId a' = ar_eventId a \<and>
      ar_attemptNumber a' = ar_attemptNumber a \<and> ar_startedAt a' = ar_startedAt a \<and>
      (ar_completedAt a \<noteq> None \<longrightarrow> ar_completedAt a' \<noteq> None)) (attempts (w_db w)) (attempts (w_db w')) \<and>
    (\<exists>xs. wire (w_db w') = wire (w_db w) @ xs)"
proof (intro conjI)
  have m: "mono_db (w_db w) (w_db w')" by (rule cluster_mono [OF assms(1,3,2)])
  then have "grows event_le (events (w_db w)) (events (w_db w'))"
    and "grows job_le (jobs (w_db w)) (jobs (w_db w'))"
    and "grows attempt_le (attempts (w_db w)) (attempts (w_db w'))" by (simp_all add: mono_db_def)
  then show "grows (\<lambda>e e'. er_id e' = er_id e \<and> er_createdAt e' = er_createdAt e \<and>
      (\<forall>n. delivery_request e' n = delivery_request e n)) (events (w_db w)) (events (w_db w'))"
    and "grows (\<lambda>r r'. jr_id r' = jr_id r \<and> jr_eventId r' = jr_eventId r \<and>
      jr_attemptCount r \<le> jr_attemptCount r') (jobs (w_db w)) (jobs (w_db w'))"
    and "grows (\<lambda>a a'. ar_id a' = ar_id a \<and> ar_eventId a' = ar_eventId a \<and>
      ar_attemptNumber a' = ar_attemptNumber a \<and> ar_startedAt a' = ar_startedAt a \<and>
      (ar_completedAt a \<noteq> None \<longrightarrow> ar_completedAt a' \<noteq> None)) (attempts (w_db w)) (attempts (w_db w'))"
    by (auto elim!: grows_mono simp: event_le_def job_le_def attempt_le_def)
  show "\<exists>xs. wire (w_db w') = wire (w_db w) @ xs" using m by (simp add: mono_db_def)
qed

theorem history_is_kept_witness:
  "\<exists>w. pool_steps (cluster binary) (Map.empty, demo_world) (Map.empty, w) \<and> length (wire (w_db w)) \<noteq> 0 \<and>
     (\<exists>xs. wire (w_db w) = wire (w_db demo_world) @ xs)"
proof -
  have "fate 3 0 PENDING [demo_reply 500] = (RETRYING, 1)" by code_simp
  with demo_run [of "[demo_reply 500]"] obtain w where
    w: "pool_steps (cluster binary) (Map.empty, demo_world) (Map.empty, w)"
    and "length (filter (\<lambda>x. wr_eventId (wx_delivery x) = ''evt-1'') (wire (w_db w))) = 1"
    by (auto simp: job_at_def)
  then have "wire (w_db w) \<noteq> []" by auto
  with history_is_kept [OF pool_steps.start demo_starts w] w show ?thesis by auto
qed

section \<open>One worker\<close>

text \<open>
  Property C11. The retry budget: with one worker (which may crash and be restarted at any point,
  while any number of requests are served) no job is attempted more than \<open>\<lceil>maxAttempts\<rceil>\<close> times,
  and each attempt of an event puts at most one request on the wire: no two requests share
  event and attempt number.
\<close>

theorem budget_is_kept:
  assumes "pool_steps (one_worker ci m) (Map.empty, w0) (ps, w)" and "starts_empty w0"
  shows "(\<forall>r \<in> set (jobs (w_db w)). jr_attemptCount r \<le> \<lceil>m\<rceil>) \<and>
    distinct (map (\<lambda>x. (wr_eventId (wx_delivery x), wr_attemptNumber (wx_delivery x))) (wire (w_db w)))"
  using one_worker_invariant [OF assms]
  by (auto simp: single_db_def budgeted_def wire_key_def [abs_def])

theorem budget_is_kept_witness:
  "\<exists>w. pool_steps (one_worker binary 3) (Map.empty, demo_world) (Map.empty, w) \<and>
     (\<exists>r \<in> set (jobs (w_db w)). jr_attemptCount r = 3 \<and> jr_attemptCount r \<le> \<lceil>3 :: rat\<rceil>)"
proof -
  let ?replies = "[demo_reply 500, demo_reply 429, demo_reply 503]"
  have "fate 3 0 PENDING ?replies = (DeliveryStatus.FAILED, 3)" by code_simp
  with demo_run [of ?replies] obtain w r where
    "pool_steps (one_worker binary 3) (Map.empty, demo_world) (Map.empty, w)"
    "r \<in> set (jobs (w_db w))" "jr_attemptCount r = 3" by (auto simp: job_at_def sole_open_def)
  with budget_is_kept [OF this(1) demo_starts] show ?thesis by blast
qed

text \<open>
  At most \<open>\<lceil>maxAttempts\<rceil>\<close> requests are ever sent for one event by one worker.
\<close>

theorem requests_per_event_bounded:
  assumes "pool_steps (one_worker ci m) (Map.empty, w0) (ps, w)" and "starts_empty w0"
  shows "int (length (filter (\<lambda>x. wr_eventId (wx_delivery x) = e) (wire (w_db w)))) \<le> max 0 \<lceil>m\<rceil>"
proof -
  let ?xs = "filter (\<lambda>x. wr_eventId (wx_delivery x) = e) (wire (w_db w))"
  let ?n = "\<lambda>x. wr_attemptNumber (wx_delivery x)"
  from one_worker_invariant [OF assms] have wf: "wf_db ci (w_db w)" and b: "budgeted m (w_db w)"
    and keys: "distinct (map wire_key (wire (w_db w)))" by (simp_all add: single_db_def)
  have "distinct (map wire_key ?xs)" using keys by (simp add: distinct_map_filter)
  then have "distinct (map ?n ?xs)"
    by (auto simp: distinct_map inj_on_def wire_key_def)
  then have "length ?xs = card (set (map ?n ?xs))" by (metis distinct_card length_map)
  moreover have "?n x \<in> {1..\<lceil>m\<rceil>}" if "x \<in> set ?xs" for x
    using wf b that by (force simp: wf_db_def exchange_ok_def counted_def budgeted_def)
  then have "card (set (map ?n ?xs)) \<le> card {1..\<lceil>m\<rceil>}" by (intro card_mono) auto
  ultimately show ?thesis by simp
qed

theorem requests_per_event_bounded_witness:
  "\<exists>w. pool_steps (one_worker binary 3) (Map.empty, demo_world) (Map.empty, w) \<and>
     length (filter (\<lambda>x. wr_eventId (wx_delivery x) = ''evt-1'') (wire (w_db w))) = 3 \<and>
     int (length (filter (\<lambda>x. wr_eventId (wx_delivery x) = ''evt-1'') (wire (w_db w)))) \<le> max 0 \<lceil>3 :: rat\<rceil>"
proof -
  let ?replies = "[demo_reply 500, demo_reply 429, demo_reply 503]"
  have "fate 3 0 PENDING ?replies = (DeliveryStatus.FAILED, 3)" by code_simp
  with demo_run [of ?replies] obtain w where
    w: "pool_steps (one_worker binary 3) (Map.empty, demo_world) (Map.empty, w)"
    and "int (length (filter (\<lambda>x. wr_eventId (wx_delivery x) = ''evt-1'') (wire (w_db w)))) = 3"
    by (auto simp: job_at_def)
  with requests_per_event_bounded [OF w demo_starts, of "''evt-1''"] show ?thesis by auto
qed

text \<open>
  Property C12. With one worker every change of a job's status is a walk through the transition
  table that consumes one attempt at each visit to DELIVERING, so a terminal status is final.
\<close>

theorem status_walks_the_table:
  assumes "pool_steps (one_worker ci m) (Map.empty, w0) (ps, w)" and "starts_empty w0"
    and "pool_steps (one_worker ci m) (ps, w) (ps', w')" and "i < length (jobs (w_db w))"
  shows "i < length (jobs (w_db w')) \<and>
    (\<exists>ts. walk (jr_status (jobs (w_db w) ! i)) ts \<and>
       jr_status (jobs (w_db w') ! i) = last (jr_status (jobs (w_db w) ! i) # ts) \<and>
       jr_attemptCount (jobs (w_db w') ! i) = jr_attemptCount (jobs (w_db w) ! i) + int (visits ts)) \<and>
    (isTerminal (jr_status (jobs (w_db w) ! i)) \<longrightarrow>
       jr_status (jobs (w_db w') ! i) = jr_status (jobs (w_db w) ! i))"
proof -
  from one_worker_history [OF assms(1,3,2)] assms(4)
  have i: "i < length (jobs (w_db w'))" and life: "job_life (jobs (w_db w) ! i) (jobs (w_db w') ! i)"
    by (auto simp: single_history_def dest: grows_nthD)
  from life obtain ts where ts: "walk (jr_status (jobs (w_db w) ! i)) ts"
    "jr_status (jobs (w_db w') ! i) = last (jr_status (jobs (w_db w) ! i) # ts)"
    "jr_attemptCount (jobs (w_db w') ! i) = jr_attemptCount (jobs (w_db w) ! i) + int (visits ts)"
    by (auto simp: job_life_def)
  moreover have "ts = []" if "isTerminal (jr_status (jobs (w_db w) ! i))"
    using ts(1) that by (cases ts; cases "jr_status (jobs (w_db w) ! i)")
      (auto simp: isTerminal_def TERMINAL_STATUSES_def canTransition_def)
  ultimately show ?thesis using i by auto
qed

theorem status_walks_the_table_witness:
  "\<exists>w. pool_steps (one_worker binary 3) (Map.empty, demo_accepted) (Map.empty, w) \<and>
     jr_status (jobs (w_db demo_accepted) ! 0) = PENDING \<and>
     (\<exists>ts. walk PENDING ts \<and> jr_status (jobs (w_db w) ! 0) = last (PENDING # ts))"
proof -
  obtain w where w: "passes binary 3 ''evt-1'' demo_accepted [demo_reply 200] w"
    using demo_passes [OF demo_accepted(1-3)] by blast
  have p: "pool_steps (one_worker binary 3) (Map.empty, demo_world) (Map.empty, demo_accepted)"
    using demo_run [of "[]"] by (auto elim: passes_noneE)
  have q: "pool_steps (one_worker binary 3) (Map.empty, demo_accepted) (Map.empty, w)"
    using w by (rule passes_one_worker) simp
  have s: "jobs (w_db demo_accepted) \<noteq> []" "jr_status (jobs (w_db demo_accepted) ! 0) = PENDING"
    by (fact demo_accepted(4,5))+
  with status_walks_the_table [OF p demo_starts q, of 0] q show ?thesis by (metis length_greater_0_conv)
qed

section \<open>What the passes of a worker achieve\<close>





end
