(* ===== verification/EndToEnd.thy ===== *)
theory EndToEnd
  imports Guarantees Receiver
begin

text \<open>
  The engine pointed at the bundled receiver: for each mode and failure status, how many attempts
  an event takes and where it ends.
\<close>









end
