(* ===== verification/ClientView.thy ===== *)
theory ClientView
  imports ClientState EndToEnd
begin

text \<open>
  \<open>apps/client/components\<close>: what the components compute before they draw it - the chain of an
  event's states and its explanation (\<open>RetryFlow.tsx\<close>), the bars of the status chart, the figures
  of the overview, the rows of the tables, the feed's divider, and what the forms send. Elements,
  classes and layout are not modelled.
\<close>

section \<open>The lifecycle of an event\<close>

record FlowNode =
  fn_title :: string
  fn_detail :: string
  fn_color :: string
  fn_icon :: string
  fn_pending :: bool

text \<open>The attempts arrive as JSON: a date is its ISO string.\<close>

definition attemptNode :: "browser \<Rightarrow> attempt_row \<Rightarrow> FlowNode" where
  "attemptNode br attempt =
     (let title = ''Attempt '' @ show_int (ar_attemptNumber attempt);
          started = formatClock br (Some (toISOString (ar_startedAt attempt)))
      in case ar_status attempt of
           SUCCESS \<Rightarrow>
             \<lparr>fn_title = title,
              fn_detail = show_or_null show_int (ar_httpStatus attempt) @ '' OK'' @ middle_dot @ started,
              fn_color = sp_color (STATUS_PRESENTATION DELIVERED), fn_icon = [CHR 0xE2, CHR 0x9C, CHR 0x93], fn_pending = False\<rparr>
         | IN_PROGRESS \<Rightarrow>
             \<lparr>fn_title = title, fn_detail = ''in flight'' @ middle_dot @ started,
              fn_color = sp_color (STATUS_PRESENTATION DELIVERING), fn_icon = [CHR 0xE2, CHR 0x97, CHR 0x86], fn_pending = False\<rparr>
         | AttemptStatus.FAILED \<Rightarrow>
             \<lparr>fn_title = title,
              fn_detail = error_label (ar_httpStatus attempt) (ar_errorType attempt) @ middle_dot @ started,
              fn_color = sp_color (STATUS_PRESENTATION DeliveryStatus.FAILED), fn_icon = [CHR 0xE2, CHR 0x9C, CHR 0x95], fn_pending = False\<rparr>)"

definition terminalReason :: "EventDetail \<Rightarrow> string" where
  "terminalReason event =
     (if es_status event = DELIVERED then ''on attempt '' @ show_int (es_attemptCount event)
      else if es_maxAttempts event \<le> of_int (es_attemptCount event) then ''retry limit reached''
      else ''permanent failure'')"

definition pending_node :: "string \<Rightarrow> string \<Rightarrow> FlowNode" where
  "pending_node title detail =
     \<lparr>fn_title = title, fn_detail = detail, fn_color = ''var(--text-secondary)'', fn_icon = [CHR 0xE2, CHR 0x97, CHR 0xB7], fn_pending = True\<rparr>"

text \<open>The nodes one attempt contributes.\<close>

definition nodes_of_attempt :: "browser \<Rightarrow> EventDetail \<Rightarrow> int \<Rightarrow> attempt_row \<Rightarrow> FlowNode list" where
  "nodes_of_attempt br event now attempt =
     attemptNode br attempt #
     (if ar_status attempt = AttemptStatus.FAILED then
        (let isLast = (ar_attemptNumber attempt = int (length (ed_attempts event)))
         in if isLast \<and> es_status event = RETRYING then
              [\<lparr>fn_title = ''Retry scheduled'',
                fn_detail = formatClock br (es_nextAttemptAt event) @ middle_dot @
                  formatCountdown (secondsUntil br (es_nextAttemptAt event) now),
                fn_color = sp_color (STATUS_PRESENTATION RETRYING),
                fn_icon = sp_icon (STATUS_PRESENTATION RETRYING), fn_pending = False\<rparr>,
               pending_node (''Attempt '' @ show_int (ar_attemptNumber attempt + 1)) ''not started yet'']
            else [])
      else [])"

definition buildNodes :: "browser \<Rightarrow> EventDetail \<Rightarrow> int \<Rightarrow> FlowNode list" where
  "buildNodes br event now =
     [\<lparr>fn_title = ''Accepted'', fn_detail = formatClock br (Some (es_createdAt event)),
       fn_color = ''var(--series-1)'', fn_icon = [CHR 0xEF, CHR 0xBC, CHR 0x8B], fn_pending = False\<rparr>] @
     concat (map (nodes_of_attempt br event now) (ed_attempts event)) @
     (if es_status event = DELIVERED \<or> es_status event = DeliveryStatus.FAILED then
        [\<lparr>fn_title = sp_label (STATUS_PRESENTATION (es_status event)), fn_detail = terminalReason event,
          fn_color = sp_color (STATUS_PRESENTATION (es_status event)),
          fn_icon = sp_icon (STATUS_PRESENTATION (es_status event)), fn_pending = False\<rparr>]
      else []) @
     (if es_status event = PENDING then [pending_node ''Attempt 1'' ''waiting for the worker''] else [])"

definition explain :: "browser \<Rightarrow> EventDetail \<Rightarrow> int \<Rightarrow> string" where
  "explain br event now =
     (case es_status event of
        PENDING \<Rightarrow> ''Queued in the database. The worker claims it on its next poll.''
      | DELIVERING \<Rightarrow> ''A worker holds the lease and the HTTP request is in flight.''
      | RETRYING \<Rightarrow>
          ''The last attempt failed with a retryable error, so the next of '' @ show_num (es_maxAttempts event) @
          '' attempts is scheduled '' @ formatCountdown (secondsUntil br (es_nextAttemptAt event) now) @
          ''. '' @ show_num (ed_attemptsRemaining event) @ '' attempt(s) remaining.''
      | DELIVERED \<Rightarrow>
          ''The receiver answered 2xx on attempt '' @ show_int (es_attemptCount event) @
          ''. Terminal state '' @ [CHR 0xE2, CHR 0x80, CHR 0x94] @ '' no further attempts.''
      | DeliveryStatus.FAILED \<Rightarrow>
          if es_maxAttempts event \<le> of_int (es_attemptCount event)
          then ''All '' @ show_num (es_maxAttempts event) @
               '' attempts failed with retryable errors. The retry limit is reached and no further attempts are scheduled.''
          else ''The receiver returned a permanent error, so retrying could not change the outcome. No retry was scheduled.'')"

subsection \<open>What the chain shows\<close>

definition retry_nodes :: "browser \<Rightarrow> EventDetail \<Rightarrow> int \<Rightarrow> FlowNode list" where
  "retry_nodes br event now =
     [\<lparr>fn_title = ''Retry scheduled'',
       fn_detail = formatClock br (es_nextAttemptAt event) @ middle_dot @
         formatCountdown (secondsUntil br (es_nextAttemptAt event) now),
       fn_color = sp_color (STATUS_PRESENTATION RETRYING),
       fn_icon = sp_icon (STATUS_PRESENTATION RETRYING), fn_pending = False\<rparr>,
      pending_node (''Attempt '' @ show_int (int (length (ed_attempts event)) + 1)) ''not started yet'']"

lemma nodes_before_last:
  assumes "\<forall>a \<in> set as. ar_attemptNumber a \<noteq> int (length (ed_attempts event))"
  shows "concat (map (nodes_of_attempt br event now) as) = map (attemptNode br) as"
  using assms by (induction as) (auto simp: nodes_of_attempt_def Let_def)

text \<open>
  The chain tells an event's story: if its attempts are numbered 1, 2, ... without a
  gap, the nodes are \<open>Accepted\<close>, one node per attempt in order, the scheduled retry and the attempt
  to come exactly when the event is RETRYING after a failed attempt, and one closing node exactly
  when the event is terminal or still waiting for its first attempt.
\<close>

theorem lifecycle_chain:
  assumes "map ar_attemptNumber (ed_attempts event) = map int [1..<Suc (length (ed_attempts event))]"
  shows "\<exists>first closing. fn_title first = ''Accepted'' \<and>
    buildNodes br event now = first # map (attemptNode br) (ed_attempts event) @
      (if ed_attempts event \<noteq> [] \<and> ar_status (last (ed_attempts event)) = AttemptStatus.FAILED \<and>
          es_status event = RETRYING
       then retry_nodes br event now else []) @ closing \<and>
    length closing = (if isTerminal (es_status event) \<or> es_status event = PENDING then 1 else 0)"
proof -
  let ?as = "ed_attempts event"
  let ?retry = "if ?as \<noteq> [] \<and> ar_status (last ?as) = AttemptStatus.FAILED \<and> es_status event = RETRYING
       then retry_nodes br event now else []"
  have "concat (map (nodes_of_attempt br event now) ?as) = map (attemptNode br) ?as @ ?retry"
  proof (cases ?as rule: rev_cases)
    case (snoc bs b)
    have n: "length ?as = Suc (length bs)" by (simp add: snoc)
    have nth: "ar_attemptNumber (?as ! i) = int i + 1" if "i < length ?as" for i
    proof -
      have "map ar_attemptNumber ?as ! i = map int [1..<Suc (length ?as)] ! i" using assms by simp
      with that show ?thesis by (simp add: nth_upt del: upt_Suc)
    qed
    have b: "ar_attemptNumber b = int (length ?as)" using nth [of "length bs"] by (simp add: snoc)
    have "ar_attemptNumber a \<noteq> int (length ?as)" if "a \<in> set bs" for a
    proof -
      from that obtain i where i: "i < length bs" "a = bs ! i" by (auto simp: in_set_conv_nth)
      with nth [of i] have "ar_attemptNumber a = int i + 1" by (simp add: snoc nth_append)
      with i(1) show ?thesis by (simp add: snoc)
    qed
    then have "concat (map (nodes_of_attempt br event now) bs) = map (attemptNode br) bs"
      by (intro nodes_before_last) blast
    moreover have "nodes_of_attempt br event now b = attemptNode br b # ?retry"
      using b by (simp add: nodes_of_attempt_def retry_nodes_def Let_def snoc)
    ultimately show ?thesis by (simp add: snoc)
  qed simp
  then show ?thesis
    by (cases "es_status event") (auto simp: buildNodes_def isTerminal_def TERMINAL_STATUSES_def)
qed

theorem lifecycle_chain_witness:
  "\<exists>br (event :: EventDetail) nodes. es_status event = PENDING \<and> ed_attempts event = [] \<and>
     buildNodes br event 0 = nodes \<and> length nodes = 2"
proof -
  define br where "br = \<lparr>br_time = (\<lambda>_. NaN), br_clock = (\<lambda>s. s), br_dateTime = (\<lambda>s. s)\<rparr>"
  define event :: EventDetail where "event =
    \<lparr>es_eventId = ''evt-1'', es_type = [], es_status = PENDING, es_occurredAt = [], es_createdAt = [],
     es_updatedAt = [], es_attemptCount = 0, es_maxAttempts = 3, es_nextAttemptAt = None,
     es_lastError = None, ed_payload = JNull, ed_attempts = [], ed_attemptsRemaining = 3\<rparr>"
  have "map ar_attemptNumber (ed_attempts event) = map int [1..<Suc (length (ed_attempts event))]"
    by (simp add: event_def)
  from lifecycle_chain [OF this, of br 0] obtain closing first where
    "buildNodes br event 0 = first # closing" "length closing = 1" by (auto simp: event_def)
  then have "length (buildNodes br event 0) = 2" by simp
  moreover have "es_status event = PENDING" "ed_attempts event = []" by (simp_all add: event_def)
  ultimately show ?thesis by blast
qed

text \<open>
  A gap hides the scheduled retry: when a claim died before it opened its attempt, the
  numbers of the attempts have a gap, and once none of them is the number of attempts the chain of a
  RETRYING event ends with its last failed attempt - the next try and its countdown are not drawn,
  though the event has one.
\<close>

theorem gap_hides_scheduled_retry:
  assumes "\<forall>a \<in> set (ed_attempts event). ar_attemptNumber a \<noteq> int (length (ed_attempts event))"
    and "es_status event = RETRYING"
  shows "\<exists>first. buildNodes br event now = first # map (attemptNode br) (ed_attempts event)"
  using nodes_before_last [of "ed_attempts event" event br now] assms
  by (auto simp: buildNodes_def)

theorem gap_hides_scheduled_retry_witness:
  "\<exists>(event :: EventDetail) first. es_status event = RETRYING \<and> es_nextAttemptAt event \<noteq> None \<and>
     length (ed_attempts event) = 1 \<and>
     buildNodes \<lparr>br_time = (\<lambda>_. NaN), br_clock = (\<lambda>s. s), br_dateTime = (\<lambda>s. s)\<rparr> event 0 =
       first # map (attemptNode \<lparr>br_time = (\<lambda>_. NaN), br_clock = (\<lambda>s. s), br_dateTime = (\<lambda>s. s)\<rparr>) (ed_attempts event)"
proof -
  define a where "a =
    \<lparr>ar_id = ''a'', ar_eventId = ''evt-1'', ar_attemptNumber = 2, ar_startedAt = 0, ar_completedAt = Some 1,
     ar_status = AttemptStatus.FAILED, ar_httpStatus = Some 503, ar_errorType = Some HTTP_ERROR,
     ar_errorMessage = None, ar_createdAt = 0\<rparr>"
  define event :: EventDetail where "event =
    \<lparr>es_eventId = ''evt-1'', es_type = [], es_status = RETRYING, es_occurredAt = [], es_createdAt = [],
     es_updatedAt = [], es_attemptCount = 2, es_maxAttempts = 3, es_nextAttemptAt = Some ''soon'',
     es_lastError = None, ed_payload = JNull, ed_attempts = [a], ed_attemptsRemaining = 1\<rparr>"
  have e: "es_status event = RETRYING" "es_nextAttemptAt event \<noteq> None" "length (ed_attempts event) = 1"
    by (simp_all add: event_def)
  have "\<forall>a \<in> set (ed_attempts event). ar_attemptNumber a \<noteq> int (length (ed_attempts event))"
    by (simp add: event_def a_def)
  from gap_hides_scheduled_retry [OF this e(1)] e show ?thesis by blast
qed

text \<open>
  The explanation of a FAILED event goes by the count alone: when the receiver answers
  503, 503 and then 404 within a budget of three, the engine fails the event for the permanent error,
  and the page explains it by three retryable errors and a spent budget.
\<close>

theorem permanent_failure_misexplained:
  assumes "es_status event = DeliveryStatus.FAILED" and "es_attemptCount event = 3" and "es_maxAttempts event = 3"
  shows "fate 3 0 PENDING [demo_reply 503, demo_reply 503, demo_reply 404] = (DeliveryStatus.FAILED, 3) \<and>
    classifyHttpStatus 404 = Failure PERMANENT \<and>
    terminalReason event = ''retry limit reached'' \<and>
    explain br event now = ''All 3 attempts failed with retryable errors. The retry limit is reached and no further attempts are scheduled.''"
proof (intro conjI)
  show "fate 3 0 PENDING [demo_reply 503, demo_reply 503, demo_reply 404] = (DeliveryStatus.FAILED, 3)" by code_simp
  show "classifyHttpStatus 404 = Failure PERMANENT" by code_simp
  show "terminalReason event = ''retry limit reached''" using assms by (simp add: terminalReason_def)
  have "show_num 3 = ''3''" by code_simp
  with assms show "explain br event now = ''All 3 attempts failed with retryable errors. The retry limit is reached and no further attempts are scheduled.''"
    by (simp add: explain_def)
qed

theorem permanent_failure_misexplained_witness:
  "\<exists>event :: EventDetail. es_status event = DeliveryStatus.FAILED \<and> terminalReason event = ''retry limit reached''"
proof -
  define event :: EventDetail where "event =
    \<lparr>es_eventId = ''evt-1'', es_type = [], es_status = DeliveryStatus.FAILED, es_occurredAt = [], es_createdAt = [],
     es_updatedAt = [], es_attemptCount = 3, es_maxAttempts = 3, es_nextAttemptAt = None,
     es_lastError = None, ed_payload = JNull, ed_attempts = [], ed_attemptsRemaining = 0\<rparr>"
  have "es_status event = DeliveryStatus.FAILED" "es_attemptCount event = 3" "es_maxAttempts event = 3"
    by (simp_all add: event_def)
  with permanent_failure_misexplained [OF this] show ?thesis by blast
qed

section \<open>The status chart\<close>

text \<open>The keys are decimal status codes; \<open>Number\<close> of anything else is left out.\<close>

definition code_number :: "string \<Rightarrow> rat" where
  "code_number code = (case js_Number code of Fin r \<Rightarrow> r | _ \<Rightarrow> 0)"

definition chart_entries :: "DashboardStats option \<Rightarrow> (string \<times> int) list" where
  "chart_entries stats =
     sort_key (\<lambda>(code, _). code_number code) (case stats of None \<Rightarrow> [] | Some s \<Rightarrow> ds_httpStatusDistribution s)"

definition chart_peak :: "(string \<times> int) list \<Rightarrow> int" where
  "chart_peak entries = foldl (\<lambda>peak (_, n). max peak n) 0 entries"

definition bar_width :: "int \<Rightarrow> int \<Rightarrow> rat" where
  "bar_width peak n = (if peak = 0 then 0 else max 2 (of_int n / of_int peak * 100))"

lemma chart_peak_Max: "chart_peak es = Max (insert 0 (snd ` set es))"
proof -
  have "foldl (\<lambda>peak q. max peak (snd q)) m es = Max (insert m (snd ` set es))" for m :: int
  proof (induction es arbitrary: m)
    case (Cons q es)
    have "Max (insert (max m (snd q)) (snd ` set es)) = Max (insert m (snd ` set (q # es)))"
      by (cases "set es = {}") (simp_all add: max.assoc)
    with Cons show ?case by simp
  qed simp
  then show ?thesis by (simp add: chart_peak_def split_def)
qed

lemma chart_peak_facts:
  "0 \<le> chart_peak es" "p \<in> set es \<Longrightarrow> snd p \<le> chart_peak es"
  "chart_peak es = 0 \<or> (\<exists>p \<in> set es. snd p = chart_peak es)"
proof -
  show "0 \<le> chart_peak es" "p \<in> set es \<Longrightarrow> snd p \<le> chart_peak es" by (simp_all add: chart_peak_Max)
  have "chart_peak es \<in> insert 0 (snd ` set es)" unfolding chart_peak_Max by (rule Max_in) simp_all
  then show "chart_peak es = 0 \<or> (\<exists>p \<in> set es. snd p = chart_peak es)" by force
qed

text \<open>
  Every bar of the chart is visible and fits: with positive counts a bar is between 2 and
  100 percent wide, a larger count has no narrower bar, and the largest count has a full bar.
\<close>

theorem chart_bars_fit:
  assumes "p \<in> set (chart_entries stats)" and "\<forall>q \<in> set (chart_entries stats). 0 < snd q"
  shows "let width = \<lambda>q. bar_width (chart_peak (chart_entries stats)) (snd q) in
    2 \<le> width p \<and> width p \<le> 100 \<and>
    (\<forall>q \<in> set (chart_entries stats). snd p \<le> snd q \<longrightarrow> width p \<le> width q) \<and>
    (\<exists>q \<in> set (chart_entries stats). width q = 100)"
proof -
  let ?es = "chart_entries stats" and ?m = "chart_peak (chart_entries stats)"
  have pos: "0 < ?m" using assms chart_peak_facts(2) [OF assms(1)] by fastforce
  have le: "snd q \<le> ?m" if "q \<in> set ?es" for q using that by (rule chart_peak_facts(2))
  have width: "bar_width ?m (snd q) = max 2 (of_int (snd q) / of_int ?m * 100)" for q :: "string \<times> int"
    using pos by (simp add: bar_width_def)
  have "of_int (snd p) / of_int ?m \<le> (1 :: rat)" using pos le [OF assms(1)] by simp
  from mult_right_mono [OF this, of 100] have hundred: "bar_width ?m (snd p) \<le> 100" unfolding width by simp
  have mono: "bar_width ?m (snd p) \<le> bar_width ?m (snd q)" if "snd p \<le> snd q" for q :: "string \<times> int"
    unfolding width using pos that by (intro max.mono mult_right_mono divide_right_mono) simp_all
  obtain q where q: "q \<in> set ?es" "snd q = ?m" using chart_peak_facts(3) [of ?es] pos by auto
  then have "\<exists>q \<in> set ?es. bar_width ?m (snd q) = 100" using pos q by (intro bexI [of _ q]) (simp_all add: bar_width_def)
  with hundred mono show ?thesis unfolding Let_def by (simp add: width)
qed

theorem chart_bars_fit_witness:
  "\<exists>stats p. p \<in> set (chart_entries stats) \<and> bar_width (chart_peak (chart_entries stats)) (snd p) \<le> 100"
proof -
  define stats :: DashboardStats where "stats =
    \<lparr>ds_totals = \<lparr>st_events = 1, st_pending = 0, st_delivering = 0, st_retrying = 0, st_delivered = 1, st_failed = 0\<rparr>,
     ds_attempts = \<lparr>at_total = 2, at_succeeded = 1, at_failed = 1, at_inProgress = 0, at_averagePerEvent = 2\<rparr>,
     ds_delivery = \<lparr>df_maxAttempts = 3, df_averageDeliveryLatencyMs = None, df_averageAttemptDurationMs = None,
       df_averageWorkerTickMs = None, df_successRate = Some 100\<rparr>,
     ds_httpStatusDistribution = [(''503'', 1), (''200'', 4)], ds_counters = [], ds_connectedClients = 1,
     ds_generatedAt = []\<rparr>"
  have set: "set (chart_entries (Some stats)) = {(''503'', 1), (''200'', 4)}"
    by (auto simp: chart_entries_def stats_def)
  then have "(''503'', 1) \<in> set (chart_entries (Some stats))" "\<forall>q \<in> set (chart_entries (Some stats)). 0 < snd q"
    by auto
  from chart_bars_fit [OF this] this(1) show ?thesis unfolding Let_def by blast
qed

section \<open>The overview\<close>

definition TILES :: "(string \<times> (StatusTotals \<Rightarrow> nat) \<times> DeliveryStatus option) list" where
  "TILES =
     [(''Total events'', st_events, None), (''Delivered'', st_delivered, Some DELIVERED),
      (''Retrying'', st_retrying, Some RETRYING), (''Failed'', st_failed, Some DeliveryStatus.FAILED),
      (''Pending'', st_pending, Some PENDING)]"

definition tile_values :: "DashboardStats option \<Rightarrow> (string \<times> string) list" where
  "tile_values stats =
     map (\<lambda>(label, key, _). (label, case stats of None \<Rightarrow> dash | Some s \<Rightarrow> show_nat (key (ds_totals s)))) TILES"

text \<open>The four figures below the tiles: their labels and values.\<close>

definition overview_metrics :: "DashboardStats option \<Rightarrow> (string \<times> string) list" where
  "overview_metrics stats =
     [(''Success rate'',
       case stats of
         None \<Rightarrow> dash
       | Some s \<Rightarrow> (case df_successRate (ds_delivery s) of None \<Rightarrow> dash | Some r \<Rightarrow> show_num r @ ''%'')),
      (''Avg delivery latency'',
       formatDuration (case stats of None \<Rightarrow> None
                       | Some s \<Rightarrow> map_option of_int (df_averageDeliveryLatencyMs (ds_delivery s)))),
      (''Attempts / event'',
       case stats of None \<Rightarrow> dash | Some s \<Rightarrow> to_fixed 2 (at_averagePerEvent (ds_attempts s))),
      (''Duplicates ignored'',
       show_int (case stats of None \<Rightarrow> 0 | Some s \<Rightarrow> coalesce (map_of (ds_counters s) ''events_duplicate'') 0))]"

section \<open>Tables and the feed\<close>

text \<open>The duration a row of the attempt history shows.\<close>

definition attempt_duration :: "attempt_row \<Rightarrow> rat option" where
  "attempt_duration attempt =
     (case ar_completedAt attempt of None \<Rightarrow> None | Some t \<Rightarrow> Some (of_int (t - ar_startedAt attempt)))"

definition timeline_times :: "browser \<Rightarrow> attempt_row \<Rightarrow> string" where
  "timeline_times br attempt =
     ''started '' @ formatClock br (Some (toISOString (ar_startedAt attempt))) @
     (case ar_completedAt attempt of
        None \<Rightarrow> []
      | Some t \<Rightarrow> '' '' @ [CHR 0xC2, CHR 0xB7] @ '' completed '' @ formatClock br (Some (toISOString t))) @
     (case attempt_duration attempt of None \<Rightarrow> [] | Some d \<Rightarrow> middle_dot @ formatDuration (Some d))"

definition event_countdown :: "browser \<Rightarrow> int \<Rightarrow> EventSummary \<Rightarrow> jsnum option" where
  "event_countdown br now event =
     (if es_status event = RETRYING \<or> es_status event = PENDING
      then secondsUntil br (es_nextAttemptAt event) now else None)"

text \<open>The divider: above the entries that are the first of a run of historical ones.\<close>

definition startsHistory :: "FeedEntry list \<Rightarrow> nat \<Rightarrow> bool" where
  "startsHistory feed index \<longleftrightarrow>
     fe_historical (feed ! index) \<and> \<not> (0 < index \<and> fe_historical (feed ! (index - 1)))"

text \<open>
  The feed has one divider at most: in every state of the dashboard there is at most one
  entry above which \<open>Recent history\<close> or \<open>Earlier\<close> is drawn, and every entry from there on is
  historical.
\<close>

theorem one_history_divider:
  assumes "engine_steps mounted s" and "i < length (en_feed s)" and "startsHistory (en_feed s) i"
  shows "(\<forall>j < length (en_feed s). startsHistory (en_feed s) j \<longrightarrow> j = i) \<and>
    (\<forall>j < length (en_feed s). fe_historical (en_feed s ! j) \<longleftrightarrow> i \<le> j)"
proof -
  have "feed_ok (en_feed mounted)" by (simp add: feed_ok_def mounted_def refresh_start_def)
  with assms(1) have "feed_ok (en_feed s)"
    by (rule engine_invariant [where P = "\<lambda>s. feed_ok (en_feed s)"]) (rule feed_ok_step)
  then obtain new old where f: "en_feed s = new @ old" and new: "\<And>x. x \<in> set new \<Longrightarrow> \<not> fe_historical x"
    and old: "\<And>x. x \<in> set old \<Longrightarrow> fe_historical x" unfolding feed_ok_def by blast
  have hist: "fe_historical (en_feed s ! j) \<longleftrightarrow> length new \<le> j" if "j < length (en_feed s)" for j
    using that new [of "new ! j"] old [of "old ! (j - length new)"] by (auto simp: f nth_append)
  have "j = length new" if "j < length (en_feed s)" "startsHistory (en_feed s) j" for j
  proof -
    from that have "length new \<le> j" "\<not> (0 < j \<and> length new \<le> j - 1)"
      using hist [of j] hist [of "j - 1"] by (auto simp: startsHistory_def)
    then show ?thesis by linarith
  qed
  with assms(2,3) hist show ?thesis by metis
qed

theorem one_history_divider_witness:
  "\<exists>s. engine_steps mounted s \<and> startsHistory (en_feed s) 0 \<and> (\<forall>j < length (en_feed s). fe_historical (en_feed s ! j))"
proof -
  define ev :: EventSummary where "ev =
    \<lparr>es_eventId = ''evt-1'', es_type = [], es_status = PENDING, es_occurredAt = [], es_createdAt = [],
     es_updatedAt = [], es_attemptCount = 0, es_maxAttempts = 3, es_nextAttemptAt = None, es_lastError = None\<rparr>"
  define sn :: "DashboardStats \<Rightarrow> Snapshot" where "sn = (\<lambda>d. \<lparr>sn_stats = d, sn_events = [ev],
     sn_receiver = (rv_config new_receiver, receiver_getStats new_receiver)\<rparr>)"
  let ?s = "refresh_done (sn undefined) (mounted\<lparr>en_inflight := remove1 0 (en_inflight mounted)\<rparr>)"
  have step: "engine_step mounted ?s" by (rule engine_step.read) (simp add: mounted_def refresh_start_def)
  have s: "engine_steps mounted ?s" by (rule engine_steps.further [OF engine_steps.start step])
  have feed: "en_feed ?s = [history_entry ev]"
    by (simp add: refresh_done_def mounted_def refresh_start_def sn_def historyFromEvents_def)
  have h: "startsHistory (en_feed ?s) 0" "0 < length (en_feed ?s)" by (simp_all add: startsHistory_def feed)
  from one_history_divider [OF s h(2,1)] s h(1) show ?thesis by blast
qed

section \<open>Forms\<close>

text \<open>What the receiver's form shows and sends: a choice not made falls back on the receiver's state.\<close>

record receiver_form =
  rf_mode :: "ReceiverMode option"
  rf_failureStatus :: "int option"
  rf_latencyMs :: "int option"

text \<open>\<open>receiver?.config.f\<close>.\<close>

definition known_setting ::
  "(ReceiverConfig \<times> ReceiverStats) option \<Rightarrow> (ReceiverConfig \<Rightarrow> 'a option) \<Rightarrow> 'a option" where
  "known_setting receiver f = (case receiver of None \<Rightarrow> None | Some (c, _) \<Rightarrow> f c)"

definition receiver_update ::
  "receiver_form \<Rightarrow> (ReceiverConfig \<times> ReceiverStats) option \<Rightarrow> bool \<Rightarrow> ReceiverPatch" where
  "receiver_update form receiver resetState =
     (let currentMode = coalesce (rf_mode form) (coalesce (known_setting receiver rc_mode) SUCCESS_mode);
          currentStatus = coalesce (rf_failureStatus form) (coalesce (known_setting receiver rc_failureStatus) 503);
          currentLatency = coalesce (rf_latencyMs form) (coalesce (known_setting receiver rc_latencyMs) 0)
      in UpdateReceiverConfigDto (Some currentMode) (Some currentStatus) (Some currentLatency) (Some resetState))"

text \<open>
  The dashboard's form never loses a setting: whatever the receiver's state is known to
  be, the update the form sends is complete, so that after it the receiver has a mode, a failure
  status and a latency, the chosen ones where the user chose and the known ones where not.
\<close>

theorem form_update_is_complete:
  "(\<exists>m s l. rv_config (apply_update (receiver_update form receiver resetState) r) =
      \<lparr>rc_mode = Some m, rc_failureStatus = Some s, rc_latencyMs = Some l\<rparr> \<and>
      rf_mode form \<in> {None, Some m} \<and> rf_failureStatus form \<in> {None, Some s} \<and> rf_latencyMs form \<in> {None, Some l}) \<and>
   rv_config (apply_update (receiver_update \<lparr>rf_mode = None, rf_failureStatus = None, rf_latencyMs = None\<rparr>
       (Some (\<lparr>rc_mode = Some m', rc_failureStatus = Some s', rc_latencyMs = Some l'\<rparr>, stats)) resetState) r) =
     \<lparr>rc_mode = Some m', rc_failureStatus = Some s', rc_latencyMs = Some l'\<rparr>"
  by (auto simp: receiver_update_def known_setting_def apply_update_def spread_config_def UpdateReceiverConfigDto_def
      Let_def coalesce_def split: option.split)

text \<open>The last five submissions, newest first.\<close>

definition add_result :: "CreateResponse \<Rightarrow> CreateResponse list \<Rightarrow> CreateResponse list" where
  "add_result response results = take 5 (response # results)"

datatype Theme = light_theme | dark_theme | system_theme

definition theme_order :: "Theme list" where
  "theme_order = [system_theme, light_theme, dark_theme]"

text \<open>\<open>order[(order.indexOf(theme) + 1) % order.length]\<close>.\<close>

definition next_theme :: "Theme \<Rightarrow> Theme" where
  "next_theme theme =
     theme_order ! ((length (takeWhile (\<lambda>t. t \<noteq> theme) theme_order) + 1) mod length theme_order)"

lemma theme_cycle: "next_theme (next_theme (next_theme t)) = t"
  by (cases t) (simp_all add: next_theme_def theme_order_def)

end
