(* ===== verification/Api.thy ===== *)
theory Api
  imports ClientView
begin

text \<open>
  Both ends of the HTTP interface: what the server's DTOs accept (\<open>create-event.dto.ts\<close>,
  \<open>list-events.query.dto.ts\<close>), and how the client calls it (\<open>apps/client/lib/api.ts\<close>). \<open>fetch\<close> is a
  parameter. The decorators of class-validator are read as their documentation states them.
\<close>

section \<open>What the server accepts\<close>

text \<open>\<open>/^[A-Za-z0-9._:-]+$/\<close>.\<close>

definition id_char :: "char \<Rightarrow> bool" where
  "id_char c \<longleftrightarrow>
     (let n = (of_char c :: nat) in
      (65 \<le> n \<and> n \<le> 90) \<or> (97 \<le> n \<and> n \<le> 122) \<or> (48 \<le> n \<and> n \<le> 57) \<or>
      c = CHR ''.'' \<or> c = CHR ''_'' \<or> c = CHR '':'' \<or> c = CHR ''-'')"

definition valid_event_id :: "string \<Rightarrow> bool" where
  "valid_event_id s \<longleftrightarrow> s \<noteq> [] \<and> length s \<le> 128 \<and> list_all id_char s"

definition valid_create :: "CreateEventDto \<Rightarrow> bool" where
  "valid_create dto \<longleftrightarrow>
     valid_event_id (dto_eventId dto) \<and> dto_type dto \<noteq> [] \<and> length (dto_type dto) \<le> 128 \<and>
     (case dto_payload dto of Some (JObj _) \<Rightarrow> True | _ \<Rightarrow> False)"

text \<open>The query of \<open>GET /events\<close>, its defaults filled in; \<open>search\<close> is any string.\<close>

definition list_query :: "DeliveryStatus option \<Rightarrow> string option \<Rightarrow> nat option \<Rightarrow> nat option \<Rightarrow> ListEventsOptions" where
  "list_query status search limit offset =
     \<lparr>lo_status = status, lo_search = search, lo_limit = coalesce limit 50, lo_offset = coalesce offset 0\<rparr>"

definition valid_list_query :: "ListEventsOptions \<Rightarrow> bool" where
  "valid_list_query q \<longleftrightarrow> 1 \<le> lo_limit q \<and> lo_limit q \<le> 200"

section \<open>The client's calls\<close>

definition unreserved :: "char \<Rightarrow> bool" where
  "unreserved c \<longleftrightarrow>
     (let n = (of_char c :: nat) in
      (65 \<le> n \<and> n \<le> 90) \<or> (97 \<le> n \<and> n \<le> 122) \<or> (48 \<le> n \<and> n \<le> 57) \<or>
      n \<in> {45, 95, 46, 33, 126, 42, 39, 40, 41})"

definition hex_digit :: "nat \<Rightarrow> char" where
  "hex_digit d = ''0123456789ABCDEF'' ! d"

text \<open>\<open>%XX\<close> of each byte of the UTF-8 form; a character of the model is a code point below 256.\<close>

definition percent :: "nat \<Rightarrow> string" where
  "percent b = [CHR 0x25, hex_digit (b div 16), hex_digit (b mod 16)]"

definition encode_char :: "char \<Rightarrow> string" where
  "encode_char c =
     (let n = (of_char c :: nat) in
      if unreserved c then [c]
      else if n < 128 then percent n
      else percent (192 + n div 64) @ percent (128 + n mod 64))"

definition encodeURIComponent :: "string \<Rightarrow> string" where
  "encodeURIComponent s = concat (map encode_char s)"

record fetch_init =
  fi_method :: string
  fi_body :: "string option"
  fi_cache :: string
  fi_contentType :: string

record fetch_response =
  fr_ok :: bool
  fr_status :: int
  fr_statusText :: string
  fr_text :: "string + string"
  fr_json :: "string + json"

definition API_URL :: "(string \<rightharpoonup> string) \<Rightarrow> string" where
  "API_URL processEnv = coalesce (processEnv ''NEXT_PUBLIC_API_URL'') ''http://localhost:3001''"

text \<open>\<open>call\<close>: the left value is the message of what it throws.\<close>

definition call ::
  "(string \<rightharpoonup> string) \<Rightarrow> (string \<Rightarrow> fetch_init \<Rightarrow> string + fetch_response) \<Rightarrow> string \<Rightarrow> string \<Rightarrow> string option \<Rightarrow>
   string + json" where
  "call processEnv fetch path verb body =
     sum_bind (fetch (API_URL processEnv @ path)
        \<lparr>fi_method = verb, fi_body = body, fi_cache = ''no-store'', fi_contentType = ''application/json''\<rparr>)
       (\<lambda>response.
        if \<not> fr_ok response then
          (let detail = (case fr_text response of Inl _ \<Rightarrow> [] | Inr t \<Rightarrow> t)
           in Inl (show_int (fr_status response) @ '' '' @ fr_statusText response @
                (if detail \<noteq> [] then '': '' @ detail else [])))
        else fr_json response)"

definition stats_path :: string where "stats_path = ''/dashboard/stats''"

definition events_path :: "int \<Rightarrow> string" where
  "events_path limit = ''/events?limit='' @ show_int limit"

definition event_path :: "string \<Rightarrow> string" where
  "event_path eventId = ''/events/'' @ encodeURIComponent eventId"

section \<open>Ids in paths\<close>

text \<open>What the server's router makes of a path segment.\<close>

definition hex_value :: "char \<Rightarrow> nat" where
  "hex_value c = (let n = (of_char c :: nat) in if n \<le> 57 then n - 48 else n - 55)"

fun decode_segment :: "string \<Rightarrow> string" where
  "decode_segment (c # d # e # s) =
     (if c = CHR 0x25 then char_of (16 * hex_value d + hex_value e) # decode_segment s
      else c # decode_segment (d # e # s))"
| "decode_segment s = s"

lemma decode_plain: "c \<noteq> CHR 0x25 \<Longrightarrow> decode_segment (c # s) = c # decode_segment s"
  by (cases s rule: decode_segment.cases) auto

lemma id_char_cases: "id_char c \<Longrightarrow> c \<noteq> CHR 0x25 \<and> (unreserved c \<or> c = CHR '':'')"
  by (auto simp: id_char_def unreserved_def Let_def)

lemma encode_colon: "encode_char (CHR '':'') = [CHR 0x25, CHR ''3'', CHR ''A'']"
  by code_simp

lemma decode_colon: "decode_segment (CHR 0x25 # CHR ''3'' # CHR ''A'' # s) = CHR '':'' # decode_segment s"
proof -
  have "char_of (16 * hex_value (CHR ''3'') + hex_value (CHR ''A'')) = CHR '':''" by code_simp
  then show ?thesis by simp
qed

lemma id_in_path:
  assumes "valid_event_id s"
  shows "decode_segment (encodeURIComponent s) = s" and "set (encodeURIComponent s) \<inter> {CHR ''/'', CHR ''?'', CHR ''#''} = {}"
    and "encodeURIComponent s \<noteq> []"
proof -
  have id: "\<forall>c \<in> set s. id_char c" using assms by (simp add: valid_event_id_def list_all_iff)
  have enc: "encode_char c = (if c = CHR '':'' then [CHR 0x25, CHR ''3'', CHR ''A''] else [c])" if "id_char c" for c
  proof (cases "c = CHR '':''")
    case True
    then show ?thesis by (simp add: encode_colon)
  next
    case False
    with id_char_cases [OF that] show ?thesis by (simp add: encode_char_def)
  qed
  show "decode_segment (encodeURIComponent s) = s"
    using id
  proof (induction s)
    case (Cons c s)
    then show ?case
      using id_char_cases [of c] by (simp add: encodeURIComponent_def enc decode_plain decode_colon del: decode_segment.simps)
  qed (simp add: encodeURIComponent_def)
  show "set (encodeURIComponent s) \<inter> {CHR ''/'', CHR ''?'', CHR ''#''} = {}"
    using id by (auto simp: encodeURIComponent_def enc id_char_def split: if_splits)
  show "encodeURIComponent s \<noteq> []"
    using id assms enc [of "hd s"] by (cases s) (auto simp: encodeURIComponent_def valid_event_id_def)
qed

text \<open>
  An event's id survives its URL: for every id the server accepts, the path the client
  asks for is one segment below \<open>/events/\<close> - no slash, query or fragment in it - and decodes to the id.
\<close>

theorem event_path_roundtrip:
  assumes "valid_event_id s"
  shows "decode_segment (encodeURIComponent s) = s \<and>
    set (encodeURIComponent s) \<inter> {CHR ''/'', CHR ''?'', CHR ''#''} = {} \<and>
    event_path s = ''/events/'' @ encodeURIComponent s \<and> encodeURIComponent s \<noteq> []"
  using id_in_path [OF assms] by (simp add: event_path_def)

theorem event_path_roundtrip_witness:
  "valid_event_id ''order:42'' \<and> encodeURIComponent ''order:42'' = [CHR ''o'', CHR ''r'', CHR ''d'', CHR ''e'', CHR ''r'', CHR 0x25] @ ''3A42'' \<and>
   decode_segment (encodeURIComponent ''order:42'') = ''order:42''"
proof -
  have v: "valid_event_id ''order:42''" by code_simp
  have "encodeURIComponent ''order:42'' = [CHR ''o'', CHR ''r'', CHR ''d'', CHR ''e'', CHR ''r'', CHR 0x25] @ ''3A42''"
    by code_simp
  with event_path_roundtrip [OF v] v show ?thesis by blast
qed

text \<open>
  Some ids the server accepts are not the client's to show: \<open>-\<close> is the sentinel of events
  without an id, so its row is never painted; \<open>.\<close> and \<open>..\<close> are unchanged by encoding, and a URL's dot
  segments are resolved away, so the page of such an event asks for another path.
\<close>

theorem accepted_ids_out_of_reach:
  "valid_event_id ''-'' \<and> valid_event_id ''.'' \<and> valid_event_id ''..'' \<and>
   applyOptimisticPatch (event\<lparr>re_eventId := ''-''\<rparr>) rows = rows \<and>
   event_path ''..'' = ''/events/..'' \<and> event_path ''.'' = ''/events/.''"
proof (intro conjI)
  show "valid_event_id ''-''" "valid_event_id ''.''" "valid_event_id ''..''"
    "event_path ''..'' = ''/events/..''" "event_path ''.'' = ''/events/.''" by code_simp+
  show "applyOptimisticPatch (event\<lparr>re_eventId := ''-''\<rparr>) rows = rows"
    by (simp add: applyOptimisticPatch_def split: option.split)
qed

text \<open>
  A call fails loudly: \<open>call\<close> returns a value only from a response that was ok and whose
  body is JSON; otherwise it throws what \<open>fetch\<close> threw, or a message that starts with the status.
\<close>

theorem call_returns_only_ok:
  "(case call processEnv fetch path verb body of
      Inr v \<Rightarrow> \<exists>r. fetch (API_URL processEnv @ path)
          \<lparr>fi_method = verb, fi_body = body, fi_cache = ''no-store'', fi_contentType = ''application/json''\<rparr> = Inr r \<and>
          fr_ok r \<and> fr_json r = Inr v
    | Inl e \<Rightarrow> \<exists>res. fetch (API_URL processEnv @ path)
          \<lparr>fi_method = verb, fi_body = body, fi_cache = ''no-store'', fi_contentType = ''application/json''\<rparr> = res \<and>
          (case res of
             Inl e' \<Rightarrow> e = e'
           | Inr r \<Rightarrow> if fr_ok r then fr_json r = Inl e
                     else take (length (show_int (fr_status r))) e = show_int (fr_status r)))"
  by (auto simp: call_def sum_bind_def Let_def split: sum.split)

end
