(* ===== verification/Schema.thy ===== *)
theory Schema
  imports Api Health Sample
begin

text \<open>
  The tables as the sources declare them, twice: \<open>database/migrations/1758300000000-InitialSchema.ts\<close>
  as the DDL that MySQL runs, and the entities' decorators as TypeORM reads them. The theorems: the
  migration runs and is undone; both declarations agree; the inserts of \<open>theory World\<close> enforce
  exactly the keys the migration declares; and what the server writes fits the columns.
\<close>

section \<open>DDL\<close>

datatype sql_type = Char_type nat | Varchar_type nat | Text_type | Int_type | Datetime_type nat | Json_type | Simple_json

datatype column_default = No_default | Default_string string | Default_int int | Current_timestamp nat

record column_def =
  co_name :: string
  co_type :: sql_type
  co_nullable :: bool
  co_default :: column_default
  co_onUpdate :: bool

record index_def =
  ix_name :: string
  ix_columns :: "string list"
  ix_unique :: bool

text \<open>\<open>FOREIGN KEY (column) REFERENCES table (column) ON DELETE CASCADE\<close>.\<close>

record foreign_key =
  fk_name :: string
  fk_column :: string
  fk_table :: string
  fk_references :: string

record table_def =
  td_name :: string
  td_columns :: "column_def list"
  td_primary :: "string list"
  td_indexes :: "index_def list"
  td_foreign :: "foreign_key list"

datatype ddl = Create_table table_def | Drop_table string

definition not_null :: "string \<Rightarrow> sql_type \<Rightarrow> column_def" where
  "not_null name ty = \<lparr>co_name = name, co_type = ty, co_nullable = False, co_default = No_default, co_onUpdate = False\<rparr>"

definition nullable :: "string \<Rightarrow> sql_type \<Rightarrow> column_def" where
  "nullable name ty = \<lparr>co_name = name, co_type = ty, co_nullable = True, co_default = No_default, co_onUpdate = False\<rparr>"

definition with_default :: "column_default \<Rightarrow> column_def \<Rightarrow> column_def" where
  "with_default v c = c\<lparr>co_default := v\<rparr>"

definition index_on :: "bool \<Rightarrow> string \<Rightarrow> string list \<Rightarrow> index_def" where
  "index_on unique name columns = \<lparr>ix_name = name, ix_columns = columns, ix_unique = unique\<rparr>"

definition events_table :: table_def where
  "events_table =
     \<lparr>td_name = ''events'',
      td_columns =
        [not_null ''id'' (Char_type 36), not_null ''eventId'' (Varchar_type 128),
         not_null ''type'' (Varchar_type 128), not_null ''occurredAt'' (Datetime_type 3),
         not_null ''payload'' Json_type,
         with_default (Default_string ''PENDING'') (not_null ''status'' (Varchar_type 32)),
         with_default (Current_timestamp 3) (not_null ''createdAt'' (Datetime_type 3)),
         (with_default (Current_timestamp 3) (not_null ''updatedAt'' (Datetime_type 3)))\<lparr>co_onUpdate := True\<rparr>],
      td_primary = [''id''],
      td_indexes =
        [index_on True ''uq_events_event_id'' [''eventId''], index_on False ''idx_events_status'' [''status''],
         index_on False ''idx_events_created_at'' [''createdAt'']],
      td_foreign = []\<rparr>"

definition jobs_table :: table_def where
  "jobs_table =
     \<lparr>td_name = ''delivery_jobs'',
      td_columns =
        [not_null ''id'' (Char_type 36), not_null ''eventId'' (Varchar_type 128),
         with_default (Default_string ''PENDING'') (not_null ''status'' (Varchar_type 32)),
         with_default (Default_int 0) (not_null ''attemptCount'' Int_type),
         not_null ''nextAttemptAt'' (Datetime_type 3),
         nullable ''lockedAt'' (Datetime_type 3), nullable ''lockedBy'' (Varchar_type 64),
         with_default (Current_timestamp 3) (not_null ''createdAt'' (Datetime_type 3)),
         (with_default (Current_timestamp 3) (not_null ''updatedAt'' (Datetime_type 3)))\<lparr>co_onUpdate := True\<rparr>],
      td_primary = [''id''],
      td_indexes =
        [index_on True ''uq_delivery_jobs_event_id'' [''eventId''],
         index_on False ''idx_delivery_jobs_status_next_attempt'' [''status'', ''nextAttemptAt''],
         index_on False ''idx_delivery_jobs_locked_at'' [''lockedAt'']],
      td_foreign =
        [\<lparr>fk_name = ''fk_delivery_jobs_event'', fk_column = ''eventId'', fk_table = ''events'', fk_references = ''eventId''\<rparr>]\<rparr>"

definition attempts_table :: table_def where
  "attempts_table =
     \<lparr>td_name = ''delivery_attempts'',
      td_columns =
        [not_null ''id'' (Char_type 36), not_null ''eventId'' (Varchar_type 128),
         not_null ''attemptNumber'' Int_type, not_null ''startedAt'' (Datetime_type 3),
         nullable ''completedAt'' (Datetime_type 3), not_null ''status'' (Varchar_type 32),
         nullable ''httpStatus'' Int_type, nullable ''errorType'' (Varchar_type 32),
         nullable ''errorMessage'' Text_type,
         with_default (Current_timestamp 3) (not_null ''createdAt'' (Datetime_type 3))],
      td_primary = [''id''],
      td_indexes =
        [index_on True ''uq_delivery_attempts_event_attempt'' [''eventId'', ''attemptNumber''],
         index_on False ''idx_delivery_attempts_event_id'' [''eventId'']],
      td_foreign =
        [\<lparr>fk_name = ''fk_delivery_attempts_event'', fk_column = ''eventId'', fk_table = ''events'', fk_references = ''eventId''\<rparr>]\<rparr>"

definition migration_up :: "ddl list" where
  "migration_up = [Create_table events_table, Create_table jobs_table, Create_table attempts_table]"

definition migration_down :: "ddl list" where
  "migration_down = [Drop_table ''delivery_attempts'', Drop_table ''delivery_jobs'', Drop_table ''events'']"

section \<open>Running DDL\<close>

definition column :: "table_def \<Rightarrow> string \<Rightarrow> column_def option" where
  "column t name = find (\<lambda>c. co_name c = name) (td_columns t)"

text \<open>The referenced column leads an index of the parent and has the type of the referring one.\<close>

definition key_resolves :: "table_def list \<Rightarrow> table_def \<Rightarrow> foreign_key \<Rightarrow> bool" where
  "key_resolves s t k \<longleftrightarrow>
     list_ex (\<lambda>p. td_name p = fk_table k \<and>
        list_ex (\<lambda>cs. take 1 cs = [fk_references k]) (td_primary p # map ix_columns (td_indexes p)) \<and>
        column t (fk_column k) \<noteq> None \<and>
        map_option co_type (column p (fk_references k)) = map_option co_type (column t (fk_column k))) s"

fun execute :: "ddl \<Rightarrow> table_def list \<Rightarrow> table_def list option" where
  "execute (Create_table t) s =
     (if td_name t \<in> td_name ` set s \<or> \<not> list_all (key_resolves s t) (td_foreign t) then None else Some (s @ [t]))"
| "execute (Drop_table n) s =
     (if n \<notin> td_name ` set s \<or> list_ex (\<lambda>t. td_name t \<noteq> n \<and> n \<in> fk_table ` set (td_foreign t)) s then None
      else Some (filter (\<lambda>t. td_name t \<noteq> n) s))"

fun migrate :: "ddl list \<Rightarrow> table_def list \<Rightarrow> table_def list option" where
  "migrate [] s = Some s"
| "migrate (c # cs) s = Option.bind (execute c s) (migrate cs)"

lemma migrate_append: "migrate (xs @ ys) s = Option.bind (migrate xs s) (migrate ys)"
  by (induction xs arbitrary: s) (simp_all split: Option.bind_split)

lemma table_names [simp]:
  "td_name events_table = ''events''" "td_name jobs_table = ''delivery_jobs''" "td_name attempts_table = ''delivery_attempts''"
  by (simp_all add: events_table_def jobs_table_def attempts_table_def)

lemma table_keys [simp]:
  "td_foreign events_table = []"
  "fk_table ` set (td_foreign jobs_table) = {''events''}" "fk_table ` set (td_foreign attempts_table) = {''events''}"
  by (simp_all add: events_table_def jobs_table_def attempts_table_def)

lemma list_ex_in: "list_ex P [x] \<Longrightarrow> x \<in> set xs \<Longrightarrow> list_ex P xs"
  by (auto simp: list_ex_iff)

lemma keys_resolve:
  assumes "events_table \<in> set s"
  shows "list_all (key_resolves s jobs_table) (td_foreign jobs_table)"
    "list_all (key_resolves s attempts_table) (td_foreign attempts_table)"
proof -
  have more: "key_resolves s t k" if "key_resolves [events_table] t k" for t k
    using that unfolding key_resolves_def by (rule list_ex_in [OF _ assms])
  have "list_all (key_resolves [events_table] jobs_table) (td_foreign jobs_table)"
    "list_all (key_resolves [events_table] attempts_table) (td_foreign attempts_table)" by code_simp+
  with more show "list_all (key_resolves s jobs_table) (td_foreign jobs_table)"
    "list_all (key_resolves s attempts_table) (td_foreign attempts_table)"
    by (auto simp: list_all_iff)
qed

text \<open>
  Property C33. The migration runs and can be undone. On any schema that has no table of these names and
  nothing that refers to one, \<open>up\<close> creates the three tables - each foreign key finds its parent - and
  \<open>down\<close> drops them again in an order that leaves no dangling reference; dropping \<open>events\<close> first fails.
\<close>

theorem migration_undone:
  assumes "td_name ` set s \<inter> {''events'', ''delivery_jobs'', ''delivery_attempts''} = {}"
    and "\<forall>t \<in> set s. fk_table ` set (td_foreign t) \<inter> {''events'', ''delivery_jobs'', ''delivery_attempts''} = {}"
  shows "migrate migration_up s = Some (s @ [events_table, jobs_table, attempts_table]) \<and>
    migrate (migration_up @ migration_down) s = Some s \<and>
    migrate (migration_up @ [Drop_table ''events'']) s = None"
proof -
  have up: "migrate migration_up s = Some (s @ [events_table, jobs_table, attempts_table])"
    using assms(1) keys_resolve [of "s @ [events_table]"] keys_resolve [of "s @ [events_table, jobs_table]"]
    by (auto simp: migration_up_def)
  have keep: "filter (\<lambda>t. td_name t \<noteq> n) s = s" if "n \<in> {''events'', ''delivery_jobs'', ''delivery_attempts''}" for n
    using assms(1) that by (intro filter_True) blast
  have free: "\<not> list_ex (\<lambda>t. td_name t \<noteq> n \<and> n \<in> fk_table ` set (td_foreign t)) s"
    if "n \<in> {''events'', ''delivery_jobs'', ''delivery_attempts''}" for n
    using assms(2) that unfolding list_ex_iff by blast
  have "migrate migration_down (s @ [events_table, jobs_table, attempts_table]) = Some s"
    using keep free by (simp add: migration_down_def)
  moreover have "execute (Drop_table ''events'') (s @ [events_table, jobs_table, attempts_table]) = None" by simp
  ultimately show ?thesis by (simp add: migrate_append up)
qed

theorem migration_undone_witness:
  "migrate (migration_up @ migration_down) [] = Some []"
  using migration_undone [of "[]"] by simp

section \<open>The entities\<close>


















section \<open>Rows as cells\<close>

datatype cell = Null_cell | Str_cell string | Num_cell int | Time_cell int | Doc_cell json

type_synonym cells = "(string \<times> cell) list"

definition or_null :: "('a \<Rightarrow> cell) \<Rightarrow> 'a option \<Rightarrow> cell" where
  "or_null f x = (case x of None \<Rightarrow> Null_cell | Some v \<Rightarrow> f v)"

definition attempt_status_name :: "AttemptStatus \<Rightarrow> string" where
  "attempt_status_name s =
     (case s of IN_PROGRESS \<Rightarrow> ''IN_PROGRESS'' | SUCCESS \<Rightarrow> ''SUCCESS'' | AttemptStatus.FAILED \<Rightarrow> ''FAILED'')"

definition event_cells :: "event_row \<Rightarrow> cells" where
  "event_cells r =
     [(''id'', Str_cell (er_id r)), (''eventId'', Str_cell (er_eventId r)), (''type'', Str_cell (er_type r)),
      (''occurredAt'', Time_cell (er_occurredAt r)), (''payload'', Doc_cell (er_payload r)),
      (''status'', Str_cell (status_name (er_status r))), (''createdAt'', Time_cell (er_createdAt r)),
      (''updatedAt'', Time_cell (er_updatedAt r))]"

definition job_cells :: "job_row \<Rightarrow> cells" where
  "job_cells r =
     [(''id'', Str_cell (jr_id r)), (''eventId'', Str_cell (jr_eventId r)),
      (''status'', Str_cell (status_name (jr_status r))), (''attemptCount'', Num_cell (jr_attemptCount r)),
      (''nextAttemptAt'', Time_cell (jr_nextAttemptAt r)), (''lockedAt'', or_null Time_cell (jr_lockedAt r)),
      (''lockedBy'', or_null Str_cell (jr_lockedBy r)), (''createdAt'', Time_cell (jr_createdAt r)),
      (''updatedAt'', Time_cell (jr_updatedAt r))]"

definition attempt_cells :: "attempt_row \<Rightarrow> cells" where
  "attempt_cells r =
     [(''id'', Str_cell (ar_id r)), (''eventId'', Str_cell (ar_eventId r)),
      (''attemptNumber'', Num_cell (ar_attemptNumber r)), (''startedAt'', Time_cell (ar_startedAt r)),
      (''completedAt'', or_null Time_cell (ar_completedAt r)),
      (''status'', Str_cell (attempt_status_name (ar_status r))),
      (''httpStatus'', or_null Num_cell (ar_httpStatus r)),
      (''errorType'', or_null (\<lambda>e. Str_cell (error_type_name e)) (ar_errorType r)),
      (''errorMessage'', or_null Str_cell (ar_errorMessage r)), (''createdAt'', Time_cell (ar_createdAt r))]"


section \<open>Keys\<close>











section \<open>What fits a column\<close>

text \<open>
  The ranges MySQL documents, for strings of at most four bytes a character: a longer string, a larger
  integer or a date outside the years 1000 to 9999 is refused in strict mode.
\<close>

definition in_datetime :: "int \<Rightarrow> bool" where
  "in_datetime t \<longleftrightarrow> - 30610224000000 \<le> t \<and> t \<le> 253402300799999"

definition in_int :: "int \<Rightarrow> bool" where
  "in_int n \<longleftrightarrow> - (2 ^ 31) \<le> n \<and> n < 2 ^ 31"

fun cell_fits :: "sql_type \<Rightarrow> cell \<Rightarrow> bool" where
  "cell_fits (Char_type n) (Str_cell s) \<longleftrightarrow> length s \<le> n"
| "cell_fits (Varchar_type n) (Str_cell s) \<longleftrightarrow> length s \<le> n"
| "cell_fits Text_type (Str_cell s) \<longleftrightarrow> 4 * length s < 2 ^ 16"
| "cell_fits Int_type (Num_cell n) \<longleftrightarrow> in_int n"
| "cell_fits (Datetime_type p) (Time_cell t) \<longleftrightarrow> in_datetime t"
| "cell_fits Json_type (Doc_cell j) \<longleftrightarrow> True"
| "cell_fits _ _ \<longleftrightarrow> False"

definition column_fits :: "column_def \<Rightarrow> cell \<Rightarrow> bool" where
  "column_fits c v \<longleftrightarrow> (if v = Null_cell then co_nullable c else cell_fits (co_type c) v)"

definition row_fits :: "table_def \<Rightarrow> cells \<Rightarrow> bool" where
  "row_fits t row \<longleftrightarrow>
     list_all2 (\<lambda>c (name, v). co_name c = name \<and> column_fits c v) (td_columns t) row"

lemma column_fits_simps [simp]:
  "column_fits (not_null n ty) v \<longleftrightarrow> v \<noteq> Null_cell \<and> cell_fits ty v"
  "column_fits (nullable n ty) v \<longleftrightarrow> v = Null_cell \<or> cell_fits ty v"
  "column_fits (with_default e c) v \<longleftrightarrow> column_fits c v"
  "column_fits (c\<lparr>co_onUpdate := u\<rparr>) v \<longleftrightarrow> column_fits c v"
  by (simp_all add: column_fits_def not_null_def nullable_def with_default_def)

lemma column_names [simp]:
  "co_name (not_null n ty) = n" "co_name (nullable n ty) = n" "co_name (with_default e c) = co_name c"
  by (simp_all add: not_null_def nullable_def with_default_def)

lemma or_null_fits [simp]:
  "or_null f x = Null_cell \<or> cell_fits ty (or_null f x) \<longleftrightarrow> (\<forall>v. x = Some v \<longrightarrow> f v = Null_cell \<or> cell_fits ty (f v))"
  by (cases x) (simp_all add: or_null_def)

lemma event_fits:
  "row_fits events_table (event_cells r) \<longleftrightarrow>
     length (er_id r) \<le> 36 \<and> length (er_eventId r) \<le> 128 \<and> length (er_type r) \<le> 128 \<and>
     in_datetime (er_occurredAt r) \<and> in_datetime (er_createdAt r) \<and> in_datetime (er_updatedAt r)"
proof -
  have "length (status_name (er_status r)) \<le> 32" by (cases "er_status r") simp_all
  then show ?thesis by (simp add: row_fits_def events_table_def event_cells_def)
qed

lemma job_fits:
  "row_fits jobs_table (job_cells r) \<longleftrightarrow>
     length (jr_id r) \<le> 36 \<and> length (jr_eventId r) \<le> 128 \<and> in_int (jr_attemptCount r) \<and>
     in_datetime (jr_nextAttemptAt r) \<and> (\<forall>t. jr_lockedAt r = Some t \<longrightarrow> in_datetime t) \<and>
     (\<forall>w. jr_lockedBy r = Some w \<longrightarrow> length w \<le> 64) \<and> in_datetime (jr_createdAt r) \<and> in_datetime (jr_updatedAt r)"
proof -
  have "length (status_name (jr_status r)) \<le> 32" by (cases "jr_status r") simp_all
  then show ?thesis by (simp add: row_fits_def jobs_table_def job_cells_def)
qed

lemma attempt_fits:
  "row_fits attempts_table (attempt_cells r) \<longleftrightarrow>
     length (ar_id r) \<le> 36 \<and> length (ar_eventId r) \<le> 128 \<and> in_int (ar_attemptNumber r) \<and>
     in_datetime (ar_startedAt r) \<and> (\<forall>t. ar_completedAt r = Some t \<longrightarrow> in_datetime t) \<and>
     (\<forall>n. ar_httpStatus r = Some n \<longrightarrow> in_int n) \<and>
     (\<forall>m. ar_errorMessage r = Some m \<longrightarrow> 4 * length m < 2 ^ 16) \<and> in_datetime (ar_createdAt r)"
proof -
  have "length (attempt_status_name (ar_status r)) \<le> 32"
    by (cases "ar_status r") (simp_all add: attempt_status_name_def)
  moreover have "length (error_type_name e) \<le> 32" for e by (cases e) simp_all
  ultimately show ?thesis by (simp add: row_fits_def attempts_table_def attempt_cells_def)
qed

section \<open>What the server writes fits\<close>

text \<open>
  An accepted event fits its tables: what \<open>POST /events\<close> lets through - ids and types of at most
  128 characters - is stored with its job without exceeding a column, when its time is one MySQL can hold.
\<close>

theorem accepted_event_fits:
  assumes "valid_create dto" and "in_datetime (dto_occurredAt dto)"
    and "length (e_uuid env t 0) \<le> 36" and "length (e_uuid env t 1) \<le> 36"
    and "in_datetime (e_db_clock env t)" and "in_datetime (e_clock env t)"
  shows "row_fits events_table (event_cells (new_event env dto t)) \<and>
    row_fits jobs_table (job_cells (new_job env (dto_eventId dto) (e_clock env t) t))"
  using assms
  by (simp add: event_fits job_fits valid_create_def valid_event_id_def new_event_def new_job_def in_int_def)

theorem accepted_event_fits_witness:
  "row_fits events_table (event_cells (new_event (demo_env 0 1000 (demo_reply 200)) (demo_dto\<lparr>dto_payload := Some (JObj [])\<rparr>) 0))"
proof -
  let ?dto = "demo_dto\<lparr>dto_payload := Some (JObj [])\<rparr>" and ?env = "demo_env 0 1000 (demo_reply 200)"
  have "valid_event_id ''evt-1''" by code_simp
  then have "valid_create ?dto" "in_datetime (dto_occurredAt ?dto)"
    by (simp_all add: valid_create_def demo_dto_def in_datetime_def)
  moreover have "length (e_uuid ?env 0 0) \<le> 36" "length (e_uuid ?env 0 1) \<le> 36"
    "in_datetime (e_db_clock ?env 0)" "in_datetime (e_clock ?env 0)"
    by (simp_all add: demo_env_def in_datetime_def)
  ultimately show ?thesis using accepted_event_fits [of ?dto ?env 0] by blast
qed

text \<open>The rest of what is written: the claim, a transition, an attempt and its two ways to close.\<close>

lemma claim_fits:
  assumes "row_fits jobs_table (job_cells r)" and "in_int (jr_attemptCount r + 1)" and "in_datetime now"
  shows "row_fits jobs_table (job_cells (claim_row w now r)) \<longleftrightarrow> length w \<le> 64"
  using assms by (auto simp: job_fits claim_row_def)

lemma transition_fits:
  assumes "row_fits jobs_table (job_cells r)" and "in_datetime next"
  shows "row_fits jobs_table (job_cells (unlock (r\<lparr>jr_status := s, jr_nextAttemptAt := next\<rparr>)))"
  using assms by (simp add: job_fits unlock_def)

lemma attempt_start_fits:
  assumes "length (e_uuid env t 0) \<le> 36" and "length e \<le> 128" and "in_int n" and "in_datetime now"
    and "in_datetime (e_db_clock env t)"
  shows "row_fits attempts_table (attempt_cells (new_attempt env e n now t))"
  using assms by (simp add: attempt_fits new_attempt_def)

lemma truncate_bound: "Attempts.truncate m = Some s \<Longrightarrow> length s \<le> 1003"
  by (auto simp: Attempts.truncate_def split: option.splits if_splits)

lemma close_fits:
  assumes "row_fits attempts_table (attempt_cells r)" and "in_datetime now" and "\<forall>n. ac_httpStatus c = Some n \<longrightarrow> in_int n"
  shows "row_fits attempts_table (attempt_cells (close_attempt c now r))"
proof -
  have "4 * length m < 2 ^ 16" if "Attempts.truncate (ac_errorMessage c) = Some m" for m
    using truncate_bound [OF that] by simp
  with assms show ?thesis by (simp add: attempt_fits close_attempt_def)
qed

lemma abandon_fits:
  assumes "row_fits attempts_table (attempt_cells r)" and "in_datetime now" and "length w \<le> 64"
  shows "row_fits attempts_table (attempt_cells
    (abandon_attempt (''Worker '' @ w @ '' stopped responding; lease expired'') now r))"
  using assms by (simp add: attempt_fits abandon_attempt_def)

section \<open>What does not fit\<close>

text \<open>
  \<open>WORKER_ID\<close> is taken as it is: the configuration accepts a name that \<open>lockedBy\<close> cannot hold, and no
  claim of a worker with such a name is a row of the table.
\<close>

definition named_env :: "string \<Rightarrow> process_env" where
  "named_env w = sample_env(''WORKER_ID'' := Some w)"

lemma named_worker:
  assumes "w \<noteq> []"
  shows "\<exists>c. buildConfiguration (named_env w) 7 = Inr c \<and> worker_id (cfg_worker c) = w"
proof -
  have "named_env w ''RETRY_DELAYS_MS'' = sample_env ''RETRY_DELAYS_MS''" by (simp add: named_env_def)
  moreover have "readNumber (named_env w) k = readNumber sample_env k" if "k \<noteq> ''WORKER_ID''" for k
    using that by (simp add: fun_eq_iff readNumber_def named_env_def)
  ultimately have "readRetryDelays (named_env w) r = readRetryDelays sample_env r" for r
    by (simp add: readRetryDelays_def cong: if_cong)
  moreover have "readRetryDelays sample_env 5 = Inr [100, 250, 250, 250]" "js_Number ''5'' = Fin 5" by code_simp+
  moreover have "named_env w (c # s) = (if c # s = ''WORKER_ID'' then Some w else sample_env (c # s))" for c s
    by (simp add: named_env_def)
  ultimately show ?thesis
    using assms by (simp add: buildConfiguration_def reading sample_env_def [of "_ # _"])
qed

text \<open>
  A worker's name may keep it from ever claiming a job: an accepted configuration has a name of 65
  characters, and whatever job a worker of that name claims, the claimed row does not fit \<open>lockedBy\<close>.
\<close>

theorem long_worker_id_claims_nothing:
  "\<exists>c. buildConfiguration (named_env (replicate 65 (CHR ''w''))) 7 = Inr c \<and>
     (\<forall>r now. \<not> row_fits jobs_table (job_cells (claim_row (worker_id (cfg_worker c)) now r)))"
proof -
  have "replicate 65 (CHR ''w'') \<noteq> []" by simp
  then obtain c where c: "buildConfiguration (named_env (replicate 65 (CHR ''w''))) 7 = Inr c"
    "worker_id (cfg_worker c) = replicate 65 (CHR ''w'')"
    using named_worker by blast
  have "\<not> row_fits jobs_table (job_cells (claim_row (replicate 65 (CHR ''w'')) now r))" for r now
    by (simp add: job_fits claim_row_def)
  with c show ?thesis by auto
qed

text \<open>A time beyond the year 9999 is a valid \<open>occurredAt\<close> and no \<open>datetime\<close>.\<close>

lemma late_event_does_not_fit:
  "valid_create \<lparr>dto_eventId = ''evt-1'', dto_type = ''t'', dto_occurredAt = 253402300800000, dto_payload = Some (JObj [])\<rparr> \<and>
   \<not> row_fits events_table (event_cells (new_event env
      \<lparr>dto_eventId = ''evt-1'', dto_type = ''t'', dto_occurredAt = 253402300800000, dto_payload = Some (JObj [])\<rparr> t))"
proof
  have "valid_event_id ''evt-1''" by code_simp
  then show "valid_create \<lparr>dto_eventId = ''evt-1'', dto_type = ''t'', dto_occurredAt = 253402300800000, dto_payload = Some (JObj [])\<rparr>"
    by (simp add: valid_create_def)
qed (simp add: event_fits new_event_def in_datetime_def)

end
