(* ===== verification/ReadSide.thy ===== *)
theory ReadSide
  imports Recovery Guarantees Dashboard
begin

text \<open>
  The read side: what the dashboard and the event queries say, compared with the tables. The
  operations run alone on a database that stands still.
\<close>

section \<open>Statistics\<close>

lemma length_filter_perm: "mset xs = mset ys \<Longrightarrow> length (filter P xs) = length (filter P ys)"
  by (metis mset_filter size_mset)

lemma runs_select:
  assumes "no_faults env" and "s = (\<lambda>t d. (Inr (f t d), d))" and "\<And>t. Q (Inr (f t d)) d"
  shows "runs (stmtP env s) d Q"
  by (rule runs_stmt_known [OF assms(1)]) (simp add: assms)

definition latency_of :: "env \<Rightarrow> db \<Rightarrow> int option \<Rightarrow> bool" where
  "latency_of env d l \<longleftrightarrow>
     (case l of None \<Rightarrow> True | Some v \<Rightarrow> 0 \<le> v \<and> (\<exists>a \<in> set (attempts d). ar_status a = SUCCESS))"

lemma runs_averageDeliveryLatency:
  assumes "no_faults env" and "sane_env env" and "\<And>l. latency_of env d l \<Longrightarrow> Q (Inr l) d"
  shows "runs (averageDeliveryLatencyMs env) d Q"
proof -
  have avg: "0 \<le> js_round (of_int (foldl (+) 0 vs) / of_nat (length vs))"
    if "\<forall>v \<in> set vs. 0 \<le> v" for vs :: "int list"
  proof -
    have "0 \<le> a \<Longrightarrow> 0 \<le> foldl (+) a vs" for a using that
      by (induction vs arbitrary: a) auto
    then have "0 \<le> foldl (+) 0 vs" by simp
    then have "(0 :: rat) \<le> of_int (foldl (+) 0 vs) / of_nat (length vs)" by simp
    then show ?thesis by (simp add: js_round_def)
  qed
  have step: "runs (if rows = [] then Ret None
       else bindP (stmtP env (select_events env (\<lambda>r. list_ex (sql_eq env (er_eventId r)) (map ar_eventId rows)))) (\<lambda>es.
         Ret (if latencies (created_by_event es) rows = [] then None
              else Some (js_round (of_int (foldl (+) 0 (latencies (created_by_event es) rows)) /
                of_nat (length (latencies (created_by_event es) rows))))))) d Q"
    if rows: "\<And>a. a \<in> set rows \<Longrightarrow> a \<in> set (attempts d) \<and> ar_status a = SUCCESS" for rows
  proof (cases "rows = []")
    case True
    then show ?thesis using assms(3) [of None] by (simp add: runs_Ret latency_of_def)
  next
    case False
    then obtain a where a: "a \<in> set (attempts d)" "ar_status a = SUCCESS" using rows by (meson list.set_sel(1))
    have "latency_of env d (if latencies m rows = [] then None
        else Some (js_round (of_int (foldl (+) 0 (latencies m rows)) / of_nat (length (latencies m rows)))))" for m
    proof -
      have "0 \<le> js_round (of_int (foldl (+) 0 (latencies m rows)) / of_nat (length (latencies m rows)))"
        using latencies_nonneg by (intro avg) blast
      with a show ?thesis by (auto simp: latency_of_def)
    qed
    then show ?thesis
      unfolding if_not_P [OF False]
      by (intro runs_bind runs_select [OF assms(1) select_events_def]) (simp only: sum.case, intro runs_Ret assms(3))
  qed
  show ?thesis
    unfolding averageDeliveryLatencyMs_def Let_def
  proof (rule runs_bind, rule runs_mapP, rule runs_select [OF assms(1) select_attempts_def], simp only: sum.case, rule step)
    fix t a
    assume "a \<in> set (sql_take env (of_nat LATENCY_SAMPLE_SIZE) (sql_order newest_first
      (filter (\<lambda>a. ar_status a = SUCCESS) (e_scan_attempts env t (attempts d)))))"
    with set_sql_take have "a \<in> set (sql_order newest_first
      (filter (\<lambda>a. ar_status a = SUCCESS) (e_scan_attempts env t (attempts d))))" by (rule subsetD)
    then show "a \<in> set (attempts d) \<and> ar_status a = SUCCESS"
      using sane_scan(3) [OF assms(2)] by simp
  qed
qed

text \<open>The counts a pass of the aggregation finds.\<close>

lemma runs_events_countByStatus:
  assumes "no_faults env" and "sane_env env"
    and "\<And>t. Q (Inr (count_groups (map er_status (e_scan_events env t (events d))))) d"
  shows "runs (events_countByStatus env) d Q"
  unfolding events_countByStatus_def
  by (rule runs_mapP, rule runs_select [OF assms(1) select_events_def]) (simp add: assms(3))

lemma runs_attempts_countByStatus:
  assumes "no_faults env" and "\<And>t. Q (Inr (count_groups (map ar_status (e_scan_attempts env t (attempts d))))) d"
  shows "runs (attempts_countByStatus env) d Q"
  unfolding attempts_countByStatus_def
  by (rule runs_mapP, rule runs_select [OF assms(1) select_attempts_def]) (simp add: assms(2))

lemma runs_events_count:
  assumes "no_faults env" and "sane_env env" and "Q (Inr (length (events d))) d"
  shows "runs (events_count env) d Q"
  unfolding events_count_def
proof (rule runs_mapP, rule runs_select [OF assms(1) select_events_def], simp only: sum.case filter_True)
  fix t
  have "mset (e_scan_events env t (events d)) = mset (events d)" using assms(2) by (simp add: sane_env_def)
  then have "length (e_scan_events env t (events d)) = length (events d)" by (rule mset_eq_length)
  then show "Q (Inr (length (filter (\<lambda>_. True) (e_scan_events env t (events d))))) d" using assms(3) by simp
qed

lemma scan_counts:
  assumes "sane_env env"
  shows "count_list (map er_status (e_scan_events env t es)) s = length (filter (\<lambda>e. er_status e = s) es)"
    "count_list (map ar_status (e_scan_attempts env t as)) s' = length (filter (\<lambda>a. ar_status a = s') as)"
    "length (e_scan_attempts env t as) = length as"
proof -
  have e: "mset (e_scan_events env t es) = mset es" and a: "mset (e_scan_attempts env t as) = mset as"
    using assms by (simp_all add: sane_env_def)
  show "count_list (map er_status (e_scan_events env t es)) s = length (filter (\<lambda>e. er_status e = s) es)"
    unfolding count_list_filter by (rule length_filter_perm [OF e])
  show "count_list (map ar_status (e_scan_attempts env t as)) s' = length (filter (\<lambda>a. ar_status a = s') as)"
    unfolding count_list_filter by (rule length_filter_perm [OF a])
  show "length (e_scan_attempts env t as) = length as" using a by (rule mset_eq_length)
qed

lemma runs_getStats:
  assumes env: "no_faults env" "sane_env env"
    and Q: "\<And>by_status by_attempt latency snap clients now.
      (\<And>s. count_of by_status s = length (filter (\<lambda>e. er_status e = s) (events d))) \<Longrightarrow>
      (\<And>s. count_of by_attempt s = length (filter (\<lambda>a. ar_status a = s) (attempts d))) \<Longrightarrow>
      sum_counts by_attempt = length (attempts d) \<Longrightarrow> latency_of env d latency \<Longrightarrow>
      Q (Inr (build_stats (budget env) by_status by_attempt (length (events d)) latency snap clients now)) d"
  shows "runs (getStats env) d Q"
  unfolding getStats_def
  by (intro runs_bind, rule runs_events_countByStatus [OF env], simp only: sum.case, intro runs_bind,
      rule runs_attempts_countByStatus [OF env(1)], simp only: sum.case, intro runs_bind,
      rule runs_events_count [OF env], simp only: sum.case, intro runs_bind,
      rule runs_averageDeliveryLatency [OF env], simp only: sum.case, intro runs_bind,
      rule runs_nowP, simp only: sum.case, intro runs_bind, rule runs_readNodeP, simp only: sum.case,
      intro runs_bind, rule runs_readNodeP, simp only: sum.case, intro runs_bind, rule runs_nowP,
      simp only: sum.case, rule runs_Ret, rule Q)
     (simp_all add: scan_counts [OF env(2)] sum_count_groups)

lemma status_total:
  "length (filter (\<lambda>e. er_status e = PENDING) es) + length (filter (\<lambda>e. er_status e = DELIVERING) es) +
   length (filter (\<lambda>e. er_status e = RETRYING) es) + length (filter (\<lambda>e. er_status e = DELIVERED) es) +
   length (filter (\<lambda>e. er_status e = DeliveryStatus.FAILED) es) = length es"
proof (induction es)
  case (Cons e es)
  then show ?case by (cases "er_status e") simp_all
qed simp

lemma attempt_total:
  "length (filter (\<lambda>a. ar_status a = SUCCESS) as) + length (filter (\<lambda>a. ar_status a = AttemptStatus.FAILED) as) +
   length (filter (\<lambda>a. ar_status a = IN_PROGRESS) as) = length as"
proof (induction as)
  case (Cons a as)
  then show ?case by (cases "ar_status a") simp_all
qed simp

lemma percentage_bounds:
  "0 < k \<Longrightarrow> n \<le> k \<Longrightarrow> 0 \<le> round_to (of_nat n / of_nat k * 100) 1 \<and> round_to (of_nat n / of_nat k * 100) 1 \<le> 100"
proof
  assume k: "0 < k" "n \<le> k"
  have "round_to (of_int 0) 1 \<le> round_to (of_nat n / of_nat k * 100) 1" by (rule round_to_mono) simp
  then show "0 \<le> round_to (of_nat n / of_nat k * 100) 1" unfolding round_to_int by simp
  have "of_nat n / of_nat k \<le> (1 :: rat)" using k by simp
  from mult_right_mono [OF this, of 100] have "of_nat n / of_nat k * 100 \<le> (of_int 100 :: rat)" by simp
  then have "round_to (of_nat n / of_nat k * 100) 1 \<le> round_to (of_int 100) 1" by (rule round_to_mono)
  then show "round_to (of_nat n / of_nat k * 100) 1 \<le> 100" unfolding round_to_int by simp
qed

lemma build_stats_fields [simp]:
  "ds_totals (build_stats m bs ba n l sn cl now) =
     \<lparr>st_events = n, st_pending = count_of bs PENDING, st_delivering = count_of bs DELIVERING,
      st_retrying = count_of bs RETRYING, st_delivered = count_of bs DELIVERED,
      st_failed = count_of bs DeliveryStatus.FAILED\<rparr>"
  "at_total (ds_attempts (build_stats m bs ba n l sn cl now)) = sum_counts ba"
  "at_succeeded (ds_attempts (build_stats m bs ba n l sn cl now)) = count_of ba SUCCESS"
  "at_failed (ds_attempts (build_stats m bs ba n l sn cl now)) = count_of ba AttemptStatus.FAILED"
  "at_inProgress (ds_attempts (build_stats m bs ba n l sn cl now)) = count_of ba IN_PROGRESS"
  "df_maxAttempts (ds_delivery (build_stats m bs ba n l sn cl now)) = m"
  "df_averageDeliveryLatencyMs (ds_delivery (build_stats m bs ba n l sn cl now)) = l"
  by (simp_all add: build_stats_def Let_def)

lemma build_stats_rate:
  "case df_successRate (ds_delivery (build_stats m bs ba n l sn cl now)) of
     None \<Rightarrow> st_delivered (ds_totals (build_stats m bs ba n l sn cl now)) = 0 \<and>
       st_failed (ds_totals (build_stats m bs ba n l sn cl now)) = 0
   | Some r \<Rightarrow> 0 \<le> r \<and> r \<le> 100"
proof (cases "count_of bs DELIVERED + count_of bs DeliveryStatus.FAILED = 0")
  case False
  then show ?thesis
    using percentage_bounds [of "count_of bs DELIVERED + count_of bs DeliveryStatus.FAILED" "count_of bs DELIVERED"]
    by (simp add: build_stats_def Let_def)
qed (simp add: build_stats_def Let_def)

text \<open>
  Property C25. The dashboard agrees with the tables: on a database that stands still \<open>getStats\<close>
  returns, for every status, the number of events and of attempts that have it; the totals are the
  sums; the success rate is a percentage, absent exactly when no event is settled; a delivery
  latency is never negative. Reading changes nothing.
\<close>

theorem stats_agree_with_tables:
  assumes "no_faults env" and "sane_env env"
  shows "\<exists>s. fst (run (getStats env) w) = Inr s \<and> w_db (snd (run (getStats env) w)) = w_db w \<and>
    (let t = ds_totals s; count = \<lambda>k. length (filter (\<lambda>e. er_status e = k) (events (w_db w))) in
       st_events t = length (events (w_db w)) \<and> st_pending t = count PENDING \<and>
       st_delivering t = count DELIVERING \<and> st_retrying t = count RETRYING \<and>
       st_delivered t = count DELIVERED \<and> st_failed t = count DeliveryStatus.FAILED \<and>
       st_pending t + st_delivering t + st_retrying t + st_delivered t + st_failed t = st_events t) \<and>
    (let t = ds_attempts s; count = \<lambda>k. length (filter (\<lambda>a. ar_status a = k) (attempts (w_db w))) in
       at_total t = length (attempts (w_db w)) \<and> at_succeeded t = count SUCCESS \<and>
       at_failed t = count AttemptStatus.FAILED \<and> at_inProgress t = count IN_PROGRESS \<and>
       at_succeeded t + at_failed t + at_inProgress t = at_total t) \<and>
    (case df_successRate (ds_delivery s) of
       None \<Rightarrow> st_delivered (ds_totals s) = 0 \<and> st_failed (ds_totals s) = 0
     | Some r \<Rightarrow> 0 \<le> r \<and> r \<le> 100) \<and>
    (case df_averageDeliveryLatencyMs (ds_delivery s) of
       None \<Rightarrow> True | Some l \<Rightarrow> 0 \<le> l \<and> at_succeeded (ds_attempts s) \<noteq> 0) \<and>
    df_maxAttempts (ds_delivery s) = budget env"
proof -
  let ?d = "w_db w"
  have "runs (getStats env) ?d (\<lambda>res d'. d' = ?d \<and> (\<exists>by_status by_attempt latency snap clients now.
      (\<forall>s. count_of by_status s = length (filter (\<lambda>e. er_status e = s) (events ?d))) \<and>
      (\<forall>s. count_of by_attempt s = length (filter (\<lambda>a. ar_status a = s) (attempts ?d))) \<and>
      sum_counts by_attempt = length (attempts ?d) \<and> latency_of env ?d latency \<and>
      res = Inr (build_stats (budget env) by_status by_attempt (length (events ?d)) latency snap clients now)))"
    by (rule runs_getStats [OF assms]) blast
  then obtain by_status by_attempt latency snap clients now where
    r: "fst (run (getStats env) w) = Inr (build_stats (budget env) by_status by_attempt (length (events ?d)) latency snap clients now)"
    and d: "w_db (snd (run (getStats env) w)) = ?d"
    and c: "\<And>s. count_of by_status s = length (filter (\<lambda>e. er_status e = s) (events ?d))"
      "\<And>s. count_of by_attempt s = length (filter (\<lambda>a. ar_status a = s) (attempts ?d))"
      "sum_counts by_attempt = length (attempts ?d)"
    and l: "latency_of env ?d latency"
    unfolding runs_def by blast
  let ?s = "build_stats (budget env) by_status by_attempt (length (events ?d)) latency snap clients now"
  have lat: "case df_averageDeliveryLatencyMs (ds_delivery ?s) of
      None \<Rightarrow> True | Some v \<Rightarrow> 0 \<le> v \<and> at_succeeded (ds_attempts ?s) \<noteq> 0"
    using l by (auto simp: latency_of_def c filter_empty_conv split: option.split)
  show ?thesis
    by (rule exI [of _ ?s], intro conjI, rule r, rule d)
       (rule build_stats_rate lat | (use status_total [of "events ?d"] attempt_total [of "attempts ?d"] in \<open>simp add: c\<close>))+
qed

section \<open>Queries\<close>

text \<open>What a summary says of an event, given the tables.\<close>

definition summarises :: "env \<Rightarrow> db \<Rightarrow> event_row \<Rightarrow> EventSummary \<Rightarrow> bool" where
  "summarises env d ev s \<longleftrightarrow>
     (\<exists>r \<in> set (jobs d). \<exists>last. jr_eventId r = er_eventId ev \<and> s = toSummary env ev (Some r) last \<and>
        (case last of
           None \<Rightarrow> \<forall>a \<in> set (attempts d). ar_eventId a \<noteq> er_eventId ev
         | Some a \<Rightarrow> a \<in> set (attempts d) \<and> ar_eventId a = er_eventId ev \<and>
             (\<forall>b \<in> set (attempts d). ar_eventId b = er_eventId ev \<longrightarrow> ar_attemptNumber b \<le> ar_attemptNumber a)))"

lemma map_of_jobs_by_event:
  "map_of (jobs_by_event rows) e =
     (if \<exists>r \<in> set rows. jr_eventId r = e then Some (last (filter (\<lambda>r. jr_eventId r = e) rows)) else None)"
proof (induction rows rule: rev_induct)
  case Nil
  then show ?case by (simp add: jobs_by_event_def)
next
  case (snoc r rows)
  have "jobs_by_event (rows @ [r]) = AList.update (jr_eventId r) r (jobs_by_event rows)"
    by (simp add: jobs_by_event_def)
  with snoc show ?case by (auto simp: update_conv')
qed

lemma last_filter_in: "x \<in> set xs \<Longrightarrow> P x \<Longrightarrow> last (filter P xs) \<in> set xs \<and> P (last (filter P xs))"
proof -
  assume "x \<in> set xs" "P x"
  then have "filter P xs \<noteq> []" by (auto simp: filter_empty_conv)
  then have "last (filter P xs) \<in> set (filter P xs)" by (rule last_in_set)
  then show ?thesis by simp
qed

lemma latest_None:
  assumes "map_of (latest_by_event rows) e = None" and "a \<in> set rows"
  shows "ar_eventId a \<noteq> e"
proof
  assume "ar_eventId a = e"
  with assms(2) have "\<exists>r \<in> set rows. ar_eventId r = e" by blast
  with assms(1) show False by (simp add: map_of_latest_by_event)
qed

lemma latest_Some:
  assumes "map_of (latest_by_event rows) e = Some a"
  shows "a \<in> set rows \<and> ar_eventId a = e"
proof (cases "\<exists>r \<in> set rows. ar_eventId r = e")
  case True
  then obtain r where "r \<in> set rows" "ar_eventId r = e" by blast
  from last_filter_in [OF this(1), of "\<lambda>r. ar_eventId r = e"] this(2) assms True
  show ?thesis by (simp add: map_of_latest_by_event)
next
  case False
  with assms show ?thesis by (simp add: map_of_latest_by_event)
qed

lemma latest_is_newest:
  assumes "sorted (map ar_attemptNumber rows)" and "map_of (latest_by_event rows) e = Some a"
    and "b \<in> set rows" and "ar_eventId b = e"
  shows "ar_attemptNumber b \<le> ar_attemptNumber a"
proof -
  let ?f = "filter (\<lambda>r. ar_eventId r = e) rows"
  from assms(2) have a: "a = last ?f" by (auto simp: map_of_latest_by_event split: if_splits)
  have "sorted (map ar_attemptNumber ?f)" using assms(1) by (rule sorted_filter)
  moreover have "b \<in> set ?f" using assms(3,4) by simp
  ultimately show ?thesis unfolding a by (rule last_sorted_max)
qed

text \<open>The summary the list builds from the jobs and attempts it read.\<close>

lemma summarises_list:
  assumes wf: "wf_db (e_fold env) d" and ev: "ev \<in> set (events d)"
    and js: "set js = {r \<in> set (jobs d). \<exists>e \<in> E. sql_eq env (jr_eventId r) e}"
    and as: "set as = {a \<in> set (attempts d). \<exists>e \<in> E. sql_eq env (ar_eventId a) e}"
    and sorted: "sorted (map ar_attemptNumber as)" and E: "er_eventId ev \<in> E"
  shows "summarises env d ev (toSummary env ev (map_of (jobs_by_event js) (er_eventId ev))
    (map_of (latest_by_event as) (er_eventId ev)))"
proof -
  have "er_eventId ev \<in> set (map jr_eventId (jobs d))" using wf ev by (simp add: wf_db_def)
  then obtain q where "q \<in> set (jobs d)" "jr_eventId q = er_eventId ev" by auto
  then have q: "q \<in> set js" "jr_eventId q = er_eventId ev" using E by (auto simp: js sql_eq_def)
  define r where "r = last (filter (\<lambda>r. jr_eventId r = er_eventId ev) js)"
  have r: "map_of (jobs_by_event js) (er_eventId ev) = Some r" "r \<in> set js" "jr_eventId r = er_eventId ev"
    using q last_filter_in [of q js "\<lambda>r. jr_eventId r = er_eventId ev"] unfolding map_of_jobs_by_event r_def
    by (meson, blast+)
  show ?thesis
  proof (cases "map_of (latest_by_event as) (er_eventId ev)")
    case None
    then have none: "\<forall>a \<in> set as. ar_eventId a \<noteq> er_eventId ev"
      using latest_None by blast
    have "ar_eventId a \<noteq> er_eventId ev" if "a \<in> set (attempts d)" for a
    proof
      assume e: "ar_eventId a = er_eventId ev"
      then have "a \<in> set as" using that E unfolding as sql_eq_def by auto
      with none e show False by blast
    qed
    then have "\<forall>a \<in> set (attempts d). ar_eventId a \<noteq> er_eventId ev" by blast
    with r None show ?thesis unfolding summarises_def by (auto simp: js intro!: bexI [of _ r] exI [of _ None])
  next
    case (Some a)
    then have a: "a \<in> set as" "ar_eventId a = er_eventId ev" using latest_Some by blast+
    have "ar_attemptNumber b \<le> ar_attemptNumber a" if "b \<in> set (attempts d)" "ar_eventId b = er_eventId ev" for b
      using that E by (intro latest_is_newest [OF sorted Some]) (auto simp: as sql_eq_def)
    with r a Some show ?thesis unfolding summarises_def by (auto simp: js as intro!: bexI [of _ r] exI [of _ "Some a"])
  qed
qed


lemma sql_order_sorted: "sorted (map key (sql_order key rows))"
  by (simp add: sql_order_def)

lemma mset_sql_order: "mset (sql_order key rows) = mset rows"
  by (simp add: sql_order_def)

lemma runs_findManyByEventIds:
  assumes "no_faults env" and "sane_env env"
    and Q: "\<And>js. es \<noteq> [] \<longrightarrow> set js = {r \<in> set (jobs d). \<exists>e \<in> set es. sql_eq env (jr_eventId r) e} \<Longrightarrow> Q (Inr js) d"
  shows "runs (findManyByEventIds env es) d Q"
proof (cases "es = []")
  case True
  then show ?thesis using Q [of "[]"] unfolding findManyByEventIds_def if_P [OF True] by (intro runs_Ret) blast
next
  case False
  then show ?thesis unfolding findManyByEventIds_def if_not_P [OF False]
    by (intro runs_select [OF assms(1) select_jobs_def] Q) (auto simp: sane_scan(2) [OF assms(2)] list_ex_iff)
qed

lemma runs_findLatestForEvents:
  assumes "no_faults env" and "sane_env env"
    and Q: "\<And>as. sorted (map ar_attemptNumber as) \<Longrightarrow>
      es \<noteq> [] \<longrightarrow> set as = {a \<in> set (attempts d). \<exists>e \<in> set es. sql_eq env (ar_eventId a) e} \<Longrightarrow>
      Q (Inr (latest_by_event as)) d"
  shows "runs (findLatestForEvents env es) d Q"
proof (cases "es = []")
  case True
  have "Q (Inr (latest_by_event [])) d" using True by (intro Q) simp_all
  then show ?thesis unfolding findLatestForEvents_def if_P [OF True] by (intro runs_Ret) (simp add: latest_by_event_def)
next
  case False
  then show ?thesis unfolding findLatestForEvents_def if_not_P [OF False]
    by (intro runs_bind runs_select [OF assms(1) select_attempts_def])
       (simp only: sum.case, intro runs_Ret Q sql_order_sorted,
        auto simp: sane_scan(3) [OF assms(2)] list_ex_iff)
qed

lemma runs_summaries:
  assumes env: "no_faults env" "env_ok ci env" and wf: "wf_db ci d" and items: "set items \<subseteq> set (events d)"
    and Q: "\<And>page. list_all2 (summarises env d) items page \<Longrightarrow> Q (Inr (page, tot)) d"
  shows "runs (bindP (findManyByEventIds env (map er_eventId items)) (\<lambda>jobs.
    bindP (findLatestForEvents env (map er_eventId items)) (\<lambda>latestAttempts.
    Ret (map (\<lambda>event. toSummary env event (map_of (jobs_by_event jobs) (er_eventId event))
      (map_of latestAttempts (er_eventId event))) items, tot)))) d Q"
proof (rule runs_bind, rule runs_findManyByEventIds [OF env(1)], (use env(2) in \<open>simp add: env_ok_def\<close>),
    simp only: sum.case, rule runs_bind, rule runs_findLatestForEvents [OF env(1)],
    (use env(2) in \<open>simp add: env_ok_def\<close>), simp only: sum.case, rule runs_Ret, rule Q)
  let ?ids = "map er_eventId items"
  fix js as
  assume js: "?ids \<noteq> [] \<longrightarrow> set js = {r \<in> set (jobs d). \<exists>e \<in> set ?ids. sql_eq env (jr_eventId r) e}"
    and sorted: "sorted (map ar_attemptNumber as)"
    and as: "?ids \<noteq> [] \<longrightarrow> set as = {a \<in> set (attempts d). \<exists>e \<in> set ?ids. sql_eq env (ar_eventId a) e}"
  let ?sum = "\<lambda>event. toSummary env event (map_of (jobs_by_event js) (er_eventId event))
    (map_of (latest_by_event as) (er_eventId event))"
  have "summarises env d ev (?sum ev)" if "ev \<in> set items" for ev
  proof -
    from that have "er_eventId ev \<in> set ?ids" "?ids \<noteq> []" "ev \<in> set (events d)" using items by auto
    then show ?thesis using js as sorted wf env(2) by (intro summarises_list) (simp_all add: env_ok_def)
  qed
  then show "list_all2 (summarises env d) items (map ?sum items)" by (simp add: list_all2_conv_all_nth)
qed

lemma sane_take: "sane_env env \<Longrightarrow> 0 < n \<Longrightarrow> sql_take env (of_nat n) rows = take n rows"
proof -
  assume "sane_env env" "0 < n"
  then have "e_limit env (of_nat n) k = min n k" for k by (simp add: sane_env_def)
  then show ?thesis by (simp add: sql_take_def) (simp add: min_def)
qed

definition page_of :: "env \<Rightarrow> db \<Rightarrow> ListEventsOptions \<Rightarrow> EventSummary list \<Rightarrow> bool" where
  "page_of env d q items \<longleftrightarrow>
     (\<exists>rows. mset rows = mset (filter (list_where env q) (events d)) \<and> sorted (map (\<lambda>e. - er_createdAt e) rows) \<and>
        list_all2 (summarises env d) (take (lo_limit q) (drop (lo_offset q) rows)) items)"

lemma runs_list_events:
  assumes "no_faults env" and "env_ok ci env" and "wf_db ci d" and "0 < lo_limit q"
  shows "runs (list_events env q) d (\<lambda>res d'. d' = d \<and>
    (\<exists>items. res = Inr (items, length (filter (list_where env q) (events d))) \<and> page_of env d q items))"
proof -
  let ?d = d and ?P = "list_where env q"
  let ?Q = "\<lambda>res d'. d' = ?d \<and>
    (\<exists>items. res = Inr (items, length (filter ?P (events ?d))) \<and> page_of env d q items)"
  have env: "sane_env env" using assms(2) by (simp add: env_ok_def)
  have perm: "mset (filter ?P (e_scan_events env t (events ?d))) = mset (filter ?P (events ?d))" for t
    using env by (simp add: sane_env_def)
  have total: "length (filter ?P (e_scan_events env t (events ?d))) = length (filter ?P (events ?d))" for t
    using perm by (rule mset_eq_length)
  show ?thesis
    unfolding list_events_def events_list_def sane_take [OF env assms(4)]
  proof (intro runs_bind runs_select [OF assms(1) select_events_def], simp only: sum.case,
      intro runs_bind runs_select [OF assms(1) select_events_def], simp only: sum.case,
      rule runs_Ret, simp only: sum.case prod.case Let_def total)
    fix t
    let ?rows = "sql_order (\<lambda>r. - er_createdAt r) (filter ?P (e_scan_events env t (events ?d)))"
    let ?items = "take (lo_limit q) (drop (lo_offset q) ?rows)"
    have in_d: "set ?items \<subseteq> set (events ?d)"
      using sane_scan(1) [OF env] by (auto dest!: in_set_takeD in_set_dropD)
    show "runs (bindP (findManyByEventIds env (map er_eventId ?items)) (\<lambda>jobs.
      bindP (findLatestForEvents env (map er_eventId ?items)) (\<lambda>latestAttempts.
      Ret (map (\<lambda>event. toSummary env event (map_of (jobs_by_event jobs) (er_eventId event))
        (map_of latestAttempts (er_eventId event))) ?items, length (filter ?P (events ?d)))))) ?d ?Q"
    proof (rule runs_summaries [OF assms(1-3) in_d])
      fix page
      assume page: "list_all2 (summarises env ?d) ?items page"
      show "?Q (Inr (page, length (filter ?P (events ?d)))) ?d"
        using page trans [OF mset_sql_order perm] sql_order_sorted unfolding page_of_def by blast
    qed
  qed
qed

text \<open>
  Property C24. A page of the event list is a page of the table: with a positive limit, \<open>list\<close>
  returns the total number of matching events and, for the requested window of the matching events
  ordered from newest to oldest, the summaries of those events - each with the state of its own job
  and the error of its newest attempt. Reading changes nothing.
\<close>

theorem list_is_a_page:
  assumes "no_faults env" and "env_ok ci env" and "wf_db ci (w_db w)" and "0 < lo_limit q"
  shows "\<exists>items rows. fst (run (list_events env q) w) =
      Inr (items, length (filter (list_where env q) (events (w_db w)))) \<and>
    w_db (snd (run (list_events env q) w)) = w_db w \<and>
    mset rows = mset (filter (list_where env q) (events (w_db w))) \<and>
    sorted (map (\<lambda>e. - er_createdAt e) rows) \<and>
    list_all2 (summarises env (w_db w)) (take (lo_limit q) (drop (lo_offset q) rows)) items"
proof -
  from runs_list_events [OF assms] show ?thesis unfolding runs_def page_of_def by blast
qed

lemma demo_query:
  obtains q :: ListEventsOptions where "0 < lo_limit q" "lo_status q = None"
  by (rule that [of "\<lparr>lo_status = None, lo_search = None, lo_limit = 50, lo_offset = 0\<rparr>"]) simp_all

theorem list_is_a_page_witness:
  "\<exists>q items rows. fst (run (list_events (demo_env 0 9 (demo_reply 200)) q) demo_accepted) =
      Inr (items, length (filter (list_where (demo_env 0 9 (demo_reply 200)) q) (events (w_db demo_accepted)))) \<and>
    list_all2 (summarises (demo_env 0 9 (demo_reply 200)) (w_db demo_accepted))
      (take (lo_limit q) (drop (lo_offset q) rows)) items"
proof -
  obtain q :: ListEventsOptions where "0 < lo_limit q" by (rule demo_query)
  from list_is_a_page [OF demo_sane(2,1) demo_accepted(1) this] show ?thesis by blast
qed

theorem stats_agree_with_tables_witness:
  "\<exists>s. fst (run (getStats (demo_env 0 9 (demo_reply 200))) demo_accepted) = Inr s \<and>
     st_events (ds_totals s) = length (events (w_db demo_accepted))"
proof -
  have "sane_env (demo_env 0 9 (demo_reply 200))" using demo_sane(1) by (simp add: env_ok_def)
  from stats_agree_with_tables [OF demo_sane(2) this, of demo_accepted] show ?thesis
    by (elim exE conjE) (auto simp: Let_def)
qed

section \<open>One event\<close>

lemma toSummary_no_budget:
  "es_attemptCount (toSummary env ev j l) = coalesce (map_option jr_attemptCount j) 0"
  by (simp add: toSummary_def)

lemma detail_parts:
  fixes s :: EventSummary
  shows "EventSummary.truncate (EventSummary.extend s x) = s"
    "ed_payload (EventSummary.extend s \<lparr>ed_payload = p, ed_attempts = as, ed_attemptsRemaining = n\<rparr>) = p"
    "ed_attempts (EventSummary.extend s \<lparr>ed_payload = p, ed_attempts = as, ed_attemptsRemaining = n\<rparr>) = as"
    "ed_attemptsRemaining (EventSummary.extend s \<lparr>ed_payload = p, ed_attempts = as, ed_attemptsRemaining = n\<rparr>) = n"
  by (simp_all add: EventSummary.defs)

lemma summarises_one:
  assumes "wf_db (e_fold env) d" and "ev \<in> set (events d)" and "r \<in> set (jobs d)" "jr_eventId r = er_eventId ev"
    and as: "set as = {a \<in> set (attempts d). ar_eventId a = er_eventId ev}" and "sorted (map ar_attemptNumber as)"
  shows "summarises env d ev (toSummary env ev (Some r) (if as = [] then None else Some (last as)))"
proof (cases "as = []")
  case True
  with as have "\<forall>a \<in> set (attempts d). ar_eventId a \<noteq> er_eventId ev" by auto
  then show ?thesis unfolding summarises_def if_P [OF True]
    by (intro bexI [OF _ assms(3)] exI [of _ None]) (simp add: assms(4))
next
  case False
  then have last: "last as \<in> set as" by simp
  have max: "ar_attemptNumber b \<le> ar_attemptNumber (last as)" if "b \<in> set (attempts d)" "ar_eventId b = er_eventId ev" for b
  proof (rule last_sorted_max [OF assms(6)])
    show "b \<in> set as" using that by (simp add: as)
  qed
  from last have "last as \<in> set (attempts d)" "ar_eventId (last as) = er_eventId ev" by (simp_all add: as)
  with max show ?thesis unfolding summarises_def if_not_P [OF False]
    by (intro bexI [OF _ assms(3)] exI [of _ "Some (last as)"]) (simp add: assms(4))
qed

text \<open>Under the collation an id names one event, hence one job and one list of attempts.\<close>

lemma same_event:
  assumes wf: "wf_db ci d" and ev: "ev \<in> set (events d)"
  shows "\<And>ev'. ev' \<in> set (events d) \<Longrightarrow> ci (er_eventId ev') = ci (er_eventId ev) \<Longrightarrow> ev' = ev"
    and "\<And>r. r \<in> set (jobs d) \<Longrightarrow> ci (jr_eventId r) = ci (er_eventId ev) \<Longrightarrow> jr_eventId r = er_eventId ev"
    and "\<And>a. a \<in> set (attempts d) \<Longrightarrow> ci (ar_eventId a) = ci (er_eventId ev) \<Longrightarrow> ar_eventId a = er_eventId ev"
    and "\<And>r r'. r \<in> set (jobs d) \<Longrightarrow> r' \<in> set (jobs d) \<Longrightarrow> jr_eventId r = jr_eventId r' \<Longrightarrow> r = r'"
proof -
  have ids: "map jr_eventId (jobs d) = map er_eventId (events d)"
    and dis: "distinct (map (\<lambda>e. ci (er_eventId e)) (events d))" using wf by (simp_all add: wf_db_def)
  show one: "ev' = ev" if "ev' \<in> set (events d)" "ci (er_eventId ev') = ci (er_eventId ev)" for ev'
    using dis that ev by (auto simp: distinct_map dest: inj_onD)
  show job: "jr_eventId r = er_eventId ev" if "r \<in> set (jobs d)" "ci (jr_eventId r) = ci (er_eventId ev)" for r
  proof -
    from that(1) have "jr_eventId r \<in> set (map er_eventId (events d))" unfolding ids [symmetric] by simp
    then obtain ev' where "ev' \<in> set (events d)" "er_eventId ev' = jr_eventId r" by auto
    with one [of ev'] that(2) show ?thesis by simp
  qed
  show "ar_eventId a = er_eventId ev" if "a \<in> set (attempts d)" "ci (ar_eventId a) = ci (er_eventId ev)" for a
  proof -
    from wf that(1) obtain r where "r \<in> set (jobs d)" "jr_eventId r = ar_eventId a"
      by (auto simp: wf_db_def counted_def)
    with job [of r] that(2) show ?thesis by simp
  qed
  have "distinct (map er_eventId (events d))"
    using dis distinct_map [of ci "map er_eventId (events d)"] by (simp add: comp_def)
  then have "distinct (map jr_eventId (jobs d))" unfolding ids .
  then show "r = r'" if "r \<in> set (jobs d)" "r' \<in> set (jobs d)" "jr_eventId r = jr_eventId r'" for r r'
    using that by (auto simp: distinct_map dest: inj_onD)
qed

text \<open>The rows the two lookups of an event's detail find.\<close>

lemma runs_detail:
  assumes env: "no_faults env" "env_ok ci env" and wf: "wf_db ci d" and ev: "ev \<in> set (events d)" "sql_eq env (er_eventId ev) e"
    and Q: "\<And>r as. r \<in> set (jobs d) \<Longrightarrow> jr_eventId r = er_eventId ev \<Longrightarrow>
      mset as = mset (filter (\<lambda>a. ar_eventId a = er_eventId ev) (attempts d)) \<Longrightarrow> sorted (map ar_attemptNumber as) \<Longrightarrow>
      runs (k (Some r) as) d Q"
  shows "runs (bindP (job_findByEventId env e) (\<lambda>j. bindP (attempts_findByEventId env e) (\<lambda>as. k j as))) d Q"
  unfolding job_findByEventId_def attempts_findByEventId_def
proof (rule runs_bind, rule runs_mapP, rule runs_select [OF env(1) select_jobs_def], simp only: sum.case, rule runs_bind,
    rule runs_mapP, rule runs_select [OF env(1) select_attempts_def], simp only: sum.case)
  fix t t'
  have s: "sane_env env" and ci: "e_fold env = ci" using env(2) by (simp_all add: env_ok_def)
  let ?js = "filter (\<lambda>r. sql_eq env (jr_eventId r) e) (e_scan_jobs env t (jobs d))"
  have "er_eventId ev \<in> set (map jr_eventId (jobs d))" using wf ev(1) by (simp add: wf_db_def)
  then obtain q where "q \<in> set (jobs d)" "jr_eventId q = er_eventId ev" by auto
  then have "\<exists>q \<in> set (jobs d). sql_eq env (jr_eventId q) e" using ev(2) by (intro bexI [of _ q]) simp_all
  then have "?js \<noteq> []" using sane_scan(2) [OF s] by (simp add: filter_empty_conv)
  then obtain r where r: "first_row ?js = Some r" by (cases "first_row ?js") (simp_all add: first_row_None)
  then have r': "r \<in> set (jobs d)" "ci (jr_eventId r) = ci (er_eventId ev)"
  proof -
    have "r \<in> set ?js" using r by (rule first_row_Some)
    then have "r \<in> set (jobs d)" "sql_eq env (jr_eventId r) e" using sane_scan(2) [OF s] by simp_all
    then show "r \<in> set (jobs d)" "ci (jr_eventId r) = ci (er_eventId ev)" using ev(2) by (simp_all add: sql_eq_def ci)
  qed
  have eq: "filter (\<lambda>a. sql_eq env (ar_eventId a) e) (attempts d) = filter (\<lambda>a. ar_eventId a = er_eventId ev) (attempts d)"
  proof (rule filter_cong [OF refl])
    fix a assume a: "a \<in> set (attempts d)"
    have "sql_eq env (ar_eventId a) e \<longleftrightarrow> ci (ar_eventId a) = ci (er_eventId ev)"
      using ev(2) by (simp add: sql_eq_def ci)
    then show "sql_eq env (ar_eventId a) e \<longleftrightarrow> ar_eventId a = er_eventId ev"
      using same_event(3) [OF wf ev(1) a] by metis
  qed
  have m: "mset (sql_order ar_attemptNumber (filter (\<lambda>a. sql_eq env (ar_eventId a) e) (e_scan_attempts env t' (attempts d)))) =
      mset (filter (\<lambda>a. ar_eventId a = er_eventId ev) (attempts d))"
    unfolding mset_sql_order using s by (simp add: sane_env_def eq [symmetric])
  show "runs (k (first_row ?js) (sql_order ar_attemptNumber
      (filter (\<lambda>a. sql_eq env (ar_eventId a) e) (e_scan_attempts env t' (attempts d))))) d Q"
    unfolding r by (rule Q [OF r'(1) same_event(2) [OF wf ev(1) r'] m sql_order_sorted])
qed

definition history_of :: "env \<Rightarrow> db \<Rightarrow> string \<Rightarrow> EventDetail \<Rightarrow> bool" where
  "history_of env d e detail \<longleftrightarrow>
     (\<exists>ev \<in> set (events d). \<exists>r \<in> set (jobs d).
         sql_eq env (er_eventId ev) e \<and> jr_eventId r = er_eventId ev \<and>
         summarises env d ev (EventSummary.truncate detail) \<and> ed_payload detail = er_payload ev \<and>
         mset (ed_attempts detail) = mset (filter (\<lambda>a. ar_eventId a = er_eventId ev) (attempts d)) \<and>
         sorted (map ar_attemptNumber (ed_attempts detail)) \<and>
         ed_attemptsRemaining detail = attemptsRemaining (cfg_retry (e_cfg env)) (jr_attemptCount r))"

lemma runs_findOne:
  assumes "no_faults env" and "env_ok ci env" and "wf_db ci d"
  shows "runs (findOne env e) d (\<lambda>res d'. d' = d \<and> (case res of
      Inl err \<Rightarrow> err = NotFoundException (''Event '' @ e @ '' not found'') \<and> \<not> known_event env e d
    | Inr detail \<Rightarrow> history_of env d e detail))"
proof -
  let ?d = d and ?good = "history_of env d e"
  let ?Q = "\<lambda>res d'. d' = ?d \<and> (case res of
      Inl err \<Rightarrow> err = NotFoundException (''Event '' @ e @ '' not found'') \<and> \<not> known_event env e ?d | Inr detail \<Rightarrow> ?good detail)"
  have s: "sane_env env" and ci: "e_fold env = ci" using assms(2) by (simp_all add: env_ok_def)
  have found: "runs (bindP (job_findByEventId env e) (\<lambda>j. bindP (attempts_findByEventId env e) (\<lambda>as.
      let lastAttempt = (if as = [] then None else Some (last as))
         in Ret (EventSummary.extend (toSummary env ev j lastAttempt)
              \<lparr>ed_payload = er_payload ev, ed_attempts = as,
               ed_attemptsRemaining = attemptsRemaining (cfg_retry (e_cfg env))
                 (coalesce (map_option jr_attemptCount j) 0)\<rparr>)))) ?d ?Q"
    if ev: "ev \<in> set (events ?d)" "sql_eq env (er_eventId ev) e" for ev
  proof (rule runs_detail [OF assms ev], unfold Let_def, rule runs_Ret, simp only: sum.case, rule conjI [OF refl])
    fix r as
    assume r: "r \<in> set (jobs ?d)" "jr_eventId r = er_eventId ev"
      and as: "mset as = mset (filter (\<lambda>a. ar_eventId a = er_eventId ev) (attempts ?d))" "sorted (map ar_attemptNumber as)"
    have set_as: "set as = {a \<in> set (attempts ?d). ar_eventId a = er_eventId ev}" using mset_eq_setD [OF as(1)] by auto
    have "wf_db (e_fold env) ?d" using assms(3) by (simp add: ci)
    from summarises_one [OF this ev(1) r set_as as(2)]
    show "?good (EventSummary.extend (toSummary env ev (Some r) (if as = [] then None else Some (last as)))
        \<lparr>ed_payload = er_payload ev, ed_attempts = as, ed_attemptsRemaining = attemptsRemaining (cfg_retry (e_cfg env))
           (coalesce (map_option jr_attemptCount (Some r)) 0)\<rparr>)"
      unfolding history_of_def using ev r as
      by (intro bexI [OF _ ev(1)] bexI [OF _ r(1)]) (simp only: detail_parts, simp add: coalesce_def)
  qed
  show ?thesis
    unfolding findOne_def
  proof (rule runs_bind, rule runs_event_findOne [OF assms(1) s], simp only: sum.case)
    fix found'
    assume none: "found' = None \<longrightarrow> \<not> known_event env e ?d"
      and some: "\<forall>ev. found' = Some ev \<longrightarrow> ev \<in> set (events ?d) \<and> sql_eq env (er_eventId ev) e"
    then show "runs (case found' of None \<Rightarrow> Raise (NotFoundException (''Event '' @ e @ '' not found''))
        | Some event \<Rightarrow> bindP (job_findByEventId env e) (\<lambda>j. bindP (attempts_findByEventId env e) (\<lambda>as.
      let lastAttempt = (if as = [] then None else Some (last as))
         in Ret (EventSummary.extend (toSummary env event j lastAttempt)
              \<lparr>ed_payload = er_payload event, ed_attempts = as,
               ed_attemptsRemaining = attemptsRemaining (cfg_retry (e_cfg env))
                 (coalesce (map_option jr_attemptCount j) 0)\<rparr>)))) ?d ?Q"
    proof (cases found')
      case None
      with none show ?thesis by (simp add: runs_Raise)
    next
      case (Some ev)
      with some have "ev \<in> set (events ?d)" "sql_eq env (er_eventId ev) e" by blast+
      then show ?thesis unfolding Some option.case by (rule found)
    qed
  qed
qed

text \<open>
  The detail of an event shows its whole history: for a known event \<open>findOne\<close> returns
  its summary, its payload and exactly its attempts, numbered upwards, with the attempts its job has
  left; for an unknown id it is a 404. Reading changes nothing.
\<close>

theorem detail_shows_the_history:
  assumes "no_faults env" and "env_ok ci env" and "wf_db ci (w_db w)"
  shows "w_db (snd (run (findOne env e) w)) = w_db w \<and>
    (case fst (run (findOne env e) w) of
       Inl err \<Rightarrow> err = NotFoundException (''Event '' @ e @ '' not found'') \<and> \<not> known_event env e (w_db w)
     | Inr detail \<Rightarrow> \<exists>ev \<in> set (events (w_db w)). \<exists>r \<in> set (jobs (w_db w)).
         sql_eq env (er_eventId ev) e \<and> jr_eventId r = er_eventId ev \<and>
         summarises env (w_db w) ev (EventSummary.truncate detail) \<and> ed_payload detail = er_payload ev \<and>
         mset (ed_attempts detail) = mset (filter (\<lambda>a. ar_eventId a = er_eventId ev) (attempts (w_db w))) \<and>
         sorted (map ar_attemptNumber (ed_attempts detail)) \<and>
         ed_attemptsRemaining detail = attemptsRemaining (cfg_retry (e_cfg env)) (jr_attemptCount r))"
  using runs_findOne [OF assms] unfolding runs_def history_of_def by blast

theorem detail_shows_the_history_witness:
  "\<exists>(detail :: EventDetail) ev r. fst (run (findOne (demo_env 0 9 (demo_reply 200)) ''evt-1'') demo_accepted) = Inr detail \<and>
     ev \<in> set (events (w_db demo_accepted)) \<and> er_eventId ev = ''evt-1'' \<and> ed_payload detail = er_payload ev \<and>
     r \<in> set (jobs (w_db demo_accepted)) \<and> jr_eventId r = ''evt-1'' \<and>
     ed_attemptsRemaining detail = attemptsRemaining (cfg_retry (e_cfg (demo_env 0 9 (demo_reply 200)))) (jr_attemptCount r)"
proof -
  let ?env = "demo_env 0 9 (demo_reply 200)" and ?found = "fst (run (findOne (demo_env 0 9 (demo_reply 200)) ''evt-1'') demo_accepted)"
  have known: "known_event ?env ''evt-1'' (w_db demo_accepted)"
    using demo_accepted(2) unfolding known_event_def job_at_def sql_eq_def by metis
  note history = detail_shows_the_history [OF demo_sane(2,1) demo_accepted(1), of 0 9 "demo_reply 200" "''evt-1''", THEN conjunct2]
  from history known obtain detail where found: "?found = Inr detail" by (cases ?found) auto
  from history [unfolded found sum.case] obtain ev r
    where "ev \<in> set (events (w_db demo_accepted))" "r \<in> set (jobs (w_db demo_accepted))"
      "sql_eq ?env (er_eventId ev) ''evt-1''" "jr_eventId r = er_eventId ev" "ed_payload detail = er_payload ev"
      "ed_attemptsRemaining detail = attemptsRemaining (cfg_retry (e_cfg ?env)) (jr_attemptCount r)"
    by blast
  moreover from this(3) have "er_eventId ev = ''evt-1''" by (simp add: sql_eq_def demo_env_def binary_def)
  ultimately show ?thesis using found by metis
qed

end
