(* ===== verification/JsonText.thy ===== *)
theory JsonText
  imports JsLib
begin

text \<open>
  \<open>JSON.parse\<close>, the inverse of \<open>JSON.stringify\<close> on the values the program sends: the reader of the
  webhook's body, of the client's requests and of the payload a user types. The grammar is that of
  RFC 8259, one function per production; a reader takes a text and returns what it read with the
  rest of the text, or nothing where \<open>JSON.parse\<close> throws a \<open>SyntaxError\<close>. Fuel bounds the depth of
  the recursion; \<open>json_parse\<close> gives twice the length of the text, and more changes nothing
  (\<open>fuel_is_enough\<close>). An escape \<open>\uXXXX\<close> is kept modulo 256, as characters are here; the order
  JavaScript gives to integer-like keys is not kept.
\<close>

section \<open>Tokens\<close>

definition json_space :: "char \<Rightarrow> bool" where
  "json_space c \<longleftrightarrow> c \<in> {CHR 0x20, CHR 0x09, CHR 0x0A, CHR 0x0D}"

definition skip_space :: "string \<Rightarrow> string" where
  "skip_space s = dropWhile json_space s"

definition is_digit :: "char \<Rightarrow> bool" where
  "is_digit c \<longleftrightarrow> (let n = (of_char c :: nat) in 48 \<le> n \<and> n \<le> 57)"

definition digit_value :: "char \<Rightarrow> nat" where
  "digit_value c = of_char c - 48"

definition digits_value :: "string \<Rightarrow> nat" where
  "digits_value s = foldl (\<lambda>n c. 10 * n + digit_value c) 0 s"

definition read_hex :: "char \<Rightarrow> nat option" where
  "read_hex c =
     (let n = (of_char c :: nat)
      in if 48 \<le> n \<and> n \<le> 57 then Some (n - 48)
         else if 97 \<le> n \<and> n \<le> 102 then Some (n - 87)
         else if 65 \<le> n \<and> n \<le> 70 then Some (n - 55)
         else None)"

text \<open>The character an escape of one letter stands for.\<close>

definition read_escape :: "char \<Rightarrow> char option" where
  "read_escape c =
     (if c \<in> {CHR 0x22, CHR 0x5C, CHR ''/''} then Some c
      else if c = CHR ''b'' then Some (CHR 0x08)
      else if c = CHR ''f'' then Some (CHR 0x0C)
      else if c = CHR ''n'' then Some (CHR 0x0A)
      else if c = CHR ''r'' then Some (CHR 0x0D)
      else if c = CHR ''t'' then Some (CHR 0x09)
      else None)"

text \<open>A string, after its opening quote.\<close>

fun read_chars :: "string \<Rightarrow> (string \<times> string) option" where
  "read_chars [] = None"
| "read_chars (c # s) =
     (if c = CHR 0x22 then Some ([], s)
      else if c = CHR 0x5C then
        (case s of
           [] \<Rightarrow> None
         | d # t \<Rightarrow>
             if d = CHR ''u'' then
               (case t of
                  h3 # h2 # h1 # h0 # u \<Rightarrow>
                    (case (read_hex h3, read_hex h2, read_hex h1, read_hex h0) of
                       (Some x3, Some x2, Some x1, Some x0) \<Rightarrow>
                         map_option (\<lambda>(cs, v). (char_of (4096 * x3 + 256 * x2 + 16 * x1 + x0) # cs, v)) (read_chars u)
                     | _ \<Rightarrow> None)
                | _ \<Rightarrow> None)
             else
               (case read_escape d of
                  None \<Rightarrow> None
                | Some e \<Rightarrow> map_option (\<lambda>(cs, v). (e # cs, v)) (read_chars t)))
      else if (of_char c :: nat) < 32 then None
      else map_option (\<lambda>(cs, v). (c # cs, v)) (read_chars s))"

text \<open>A number: its digits after the sign, the fraction, the exponent.\<close>

definition read_digits :: "string \<Rightarrow> (string \<times> string) option" where
  "read_digits s = (let ds = takeWhile is_digit s in if ds = [] then None else Some (ds, dropWhile is_digit s))"

definition read_fraction :: "string \<Rightarrow> (rat \<times> string) option" where
  "read_fraction s =
     (case s of
        c # t \<Rightarrow>
          if c = CHR ''.'' then
            map_option (\<lambda>(ds, u). (of_nat (digits_value ds) / 10 ^ length ds, u)) (read_digits t)
          else Some (0, s)
      | [] \<Rightarrow> Some (0, s))"

definition read_exponent :: "string \<Rightarrow> (rat \<times> string) option" where
  "read_exponent s =
     (case s of
        c # t \<Rightarrow>
          if c = CHR ''e'' \<or> c = CHR ''E'' then
            (case t of
               d # u \<Rightarrow>
                 if d = CHR ''-'' then map_option (\<lambda>(ds, v). (1 / 10 ^ digits_value ds, v)) (read_digits u)
                 else if d = CHR ''+'' then map_option (\<lambda>(ds, v). (10 ^ digits_value ds, v)) (read_digits u)
                 else map_option (\<lambda>(ds, v). (10 ^ digits_value ds, v)) (read_digits t)
             | [] \<Rightarrow> None)
          else Some (1, s)
      | [] \<Rightarrow> Some (1, s))"

definition read_unsigned :: "string \<Rightarrow> (rat \<times> string) option" where
  "read_unsigned s =
     (case read_digits s of
        None \<Rightarrow> None
      | Some (ds, t) \<Rightarrow>
          if hd ds = CHR ''0'' \<and> 1 < length ds then None
          else
            (case read_fraction t of
               None \<Rightarrow> None
             | Some (f, u) \<Rightarrow>
                 map_option (\<lambda>(e, v). ((of_nat (digits_value ds) + f) * e, v)) (read_exponent u)))"

definition read_number :: "string \<Rightarrow> (rat \<times> string) option" where
  "read_number s =
     (case s of
        c # t \<Rightarrow>
          if c = CHR ''-'' then map_option (\<lambda>(r, u). (- r, u)) (read_unsigned t) else read_unsigned s
      | [] \<Rightarrow> None)"

text \<open>A word that stands for itself.\<close>

definition read_word :: "string \<Rightarrow> json \<Rightarrow> string \<Rightarrow> (json \<times> string) option" where
  "read_word w j s = (if take (length w) s = w then Some (j, drop (length w) s) else None)"

definition read_scalar :: "string \<Rightarrow> (json \<times> string) option" where
  "read_scalar s =
     (case s of
        [] \<Rightarrow> None
      | c # t \<Rightarrow>
          if c = CHR 0x22 then map_option (\<lambda>(x, u). (JStr x, u)) (read_chars t)
          else if c = CHR ''n'' then read_word ''null'' JNull s
          else if c = CHR ''t'' then read_word ''true'' (JBool True) s
          else if c = CHR ''f'' then read_word ''false'' (JBool False) s
          else map_option (\<lambda>(r, u). (JNum r, u)) (read_number s))"

section \<open>Values\<close>

text \<open>The last value of a key wins and keeps the place of the first.\<close>

definition object_of :: "(string \<times> json) list \<Rightarrow> json" where
  "object_of kvs = JObj (fold (\<lambda>(k, j). AList.update k j) kvs [])"

fun read_value :: "nat \<Rightarrow> string \<Rightarrow> (json \<times> string) option"
and read_elements :: "nat \<Rightarrow> string \<Rightarrow> (json list \<times> string) option"
and read_members :: "nat \<Rightarrow> string \<Rightarrow> ((string \<times> json) list \<times> string) option"
where
  "read_value 0 s = None"
| "read_value (Suc n) s =
     (case skip_space s of
        [] \<Rightarrow> None
      | c # t \<Rightarrow>
          if c = CHR ''['' then
            (case skip_space t of
               [] \<Rightarrow> None
             | d # u \<Rightarrow>
                 if d = CHR '']'' then Some (JArr [], u)
                 else map_option (\<lambda>(js, v). (JArr js, v)) (read_elements n t))
          else if c = CHR ''{'' then
            (case skip_space t of
               [] \<Rightarrow> None
             | d # u \<Rightarrow>
                 if d = CHR ''}'' then Some (JObj [], u)
                 else map_option (\<lambda>(kvs, v). (object_of kvs, v)) (read_members n t))
          else read_scalar (c # t))"
| "read_elements 0 s = None"
| "read_elements (Suc n) s =
     (case read_value n s of
        None \<Rightarrow> None
      | Some (j, t) \<Rightarrow>
          (case skip_space t of
             [] \<Rightarrow> None
           | c # u \<Rightarrow>
               if c = CHR '','' then map_option (\<lambda>(js, v). (j # js, v)) (read_elements n u)
               else if c = CHR '']'' then Some ([j], u)
               else None))"
| "read_members 0 s = None"
| "read_members (Suc n) s =
     (case skip_space s of
        [] \<Rightarrow> None
      | q # t \<Rightarrow>
          if q \<noteq> CHR 0x22 then None
          else
            (case read_chars t of
               None \<Rightarrow> None
             | Some (k, u) \<Rightarrow>
                 (case skip_space u of
                    [] \<Rightarrow> None
                  | c # v \<Rightarrow>
                      if c \<noteq> CHR '':'' then None
                      else
                        (case read_value n v of
                           None \<Rightarrow> None
                         | Some (j, w) \<Rightarrow>
                             (case skip_space w of
                                [] \<Rightarrow> None
                              | d # x \<Rightarrow>
                                  if d = CHR '','' then map_option (\<lambda>(kvs, y). ((k, j) # kvs, y)) (read_members n x)
                                  else if d = CHR ''}'' then Some ([(k, j)], x)
                                  else None)))))"

definition json_parse :: "string \<Rightarrow> json option" where
  "json_parse s =
     (case read_value (2 * length s + 1) s of
        None \<Rightarrow> None
      | Some (j, t) \<Rightarrow> if skip_space t = [] then Some j else None)"

text \<open>The value of a body under a key.\<close>

definition json_field :: "json \<Rightarrow> string \<Rightarrow> json option" where
  "json_field body key = (case body of JObj kvs \<Rightarrow> map_of kvs key | _ \<Rightarrow> None)"

section \<open>Every reader consumes\<close>

lemma skip_space_length: "length (skip_space s) \<le> length s"
  by (simp add: skip_space_def length_dropWhile_le)

lemma skip_space_Cons: "skip_space s = c # t \<Longrightarrow> length t < length s"
  using skip_space_length [of s] by simp

lemma read_chars_length: "read_chars s = Some (x, t) \<Longrightarrow> length t < length s"
proof (induction s arbitrary: x t rule: read_chars.induct)
  case (2 c s)
  then show ?case
    by (fastforce split: if_splits list.splits option.splits)
qed simp

lemma read_digits_length: "read_digits s = Some (ds, t) \<Longrightarrow> length t < length s"
  by (cases s) (auto simp: read_digits_def Let_def length_dropWhile_le less_Suc_eq_le split: if_splits)

lemma read_fraction_length: "read_fraction s = Some (r, t) \<Longrightarrow> length t \<le> length s"
  by (auto simp: read_fraction_def split: list.splits if_splits dest: read_digits_length)

lemma read_exponent_length: "read_exponent s = Some (r, t) \<Longrightarrow> length t \<le> length s"
  by (auto simp: read_exponent_def split: list.splits if_splits dest!: read_digits_length)

lemma read_unsigned_length: "read_unsigned s = Some (r, t) \<Longrightarrow> length t < length s"
  by (auto simp: read_unsigned_def split: option.splits if_splits
      dest!: read_digits_length read_fraction_length read_exponent_length)

lemma read_number_length: "read_number s = Some (r, t) \<Longrightarrow> length t < length s"
  by (auto simp: read_number_def split: list.splits if_splits dest!: read_unsigned_length)

lemma read_word_length: "read_word w j s = Some (r, t) \<Longrightarrow> w \<noteq> [] \<Longrightarrow> length t < length s"
  by (cases s) (auto simp: read_word_def split: if_splits)

lemma read_scalar_length: "read_scalar s = Some (j, t) \<Longrightarrow> length t < length s"
  by (auto simp: read_scalar_def split: list.splits if_splits
      dest!: read_chars_length read_word_length read_number_length)

lemma read_length:
  "read_value n s = Some (j, t) \<Longrightarrow> length t < length s"
  "read_elements n s = Some (js, t) \<Longrightarrow> length t < length s"
  "read_members n s = Some (kvs, t) \<Longrightarrow> length t < length s"
proof (induction n s and n s and n s arbitrary: j t and js t and kvs t
    rule: read_value_read_elements_read_members.induct)
  case (2 n s)
  then show ?case
    by (fastforce split: list.splits if_splits dest: skip_space_Cons read_scalar_length)
next
  case (4 n s)
  then show ?case
    by (fastforce split: list.splits if_splits option.splits dest: skip_space_Cons)
next
  case (6 n s)
  then show ?case
    by (fastforce split: list.splits if_splits option.splits dest: skip_space_Cons read_chars_length)
qed simp_all

section \<open>The fuel is enough\<close>

declare read_value.simps [simp del] read_elements.simps [simp del] read_members.simps [simp del]

lemma read_more_fuel:
  "2 * length s < n \<Longrightarrow> read_value (Suc n) s = read_value n s"
  "2 * length s + 1 < n \<Longrightarrow> read_elements (Suc n) s = read_elements n s"
  "2 * length s + 1 < n \<Longrightarrow> read_members (Suc n) s = read_members n s"
proof (induction n arbitrary: s)
  case (Suc n)
  note length = skip_space_Cons read_length read_chars_length
  { case 1
    have "read_elements (Suc n) t = read_elements n t" "read_members (Suc n) t = read_members n t"
      if "skip_space s = c # t" for c t
      using 1 skip_space_Cons [OF that] Suc.IH(2,3) [of t] by linarith+
    then show ?case
      unfolding read_value.simps(2) [of "Suc n" s] read_value.simps(2) [of n s] by (simp split: list.split)
  next
    case 2
    have "read_value (Suc n) s = read_value n s" using 2 Suc.IH(1) by simp
    moreover have "read_elements (Suc n) u = read_elements n u"
      if "read_value n s = Some (j, t)" "skip_space t = c # u" for j t c u
      using 2 read_length(1) [OF that(1)] skip_space_Cons [OF that(2)] Suc.IH(2) [of u] by linarith
    ultimately show ?case
      unfolding read_elements.simps(2) [of "Suc n" s] read_elements.simps(2) [of n s]
      by (simp split: list.split option.split)
  next
    case 3
    have "read_value (Suc n) v = read_value n v"
      if "skip_space s = q # t" "read_chars t = Some (k, u)" "skip_space u = c # v" for q t k u c v
      using 3 skip_space_Cons [OF that(1)] read_chars_length [OF that(2)] skip_space_Cons [OF that(3)]
        Suc.IH(1) [of v] by linarith
    moreover have "read_members (Suc n) x = read_members n x"
      if "skip_space s = q # t" "read_chars t = Some (k, u)" "skip_space u = c # v"
        "read_value n v = Some (j, w)" "skip_space w = d # x" for q t k u c v j w d x
      using 3 skip_space_Cons [OF that(1)] read_chars_length [OF that(2)] skip_space_Cons [OF that(3)]
        read_length(1) [OF that(4)] skip_space_Cons [OF that(5)] Suc.IH(3) [of x] by linarith
    ultimately show ?case
      unfolding read_members.simps(2) [of "Suc n" s] read_members.simps(2) [of n s]
      by (simp split: list.split option.split)
  }
qed simp_all

lemma fuel_is_enough:
  assumes "2 * length s < n"
  shows "read_value n s = read_value (2 * length s + 1) s"
proof -
  have "read_value (2 * length s + 1 + k) s = read_value (2 * length s + 1) s" for k
    by (induction k) (simp_all add: read_more_fuel(1))
  from this [of "n - (2 * length s + 1)"] assms show ?thesis by simp
qed

section \<open>Reading a string that was quoted\<close>

lemma read_hex_digit: "d < 16 \<Longrightarrow> read_hex (''0123456789abcdef'' ! d) = Some d"
proof -
  have "list_all (\<lambda>d. read_hex (''0123456789abcdef'' ! d) = Some d) [0 ..< 16]" by code_simp
  then show "d < 16 \<Longrightarrow> ?thesis" by (simp add: list_all_iff)
qed

lemma read_hex4:
  assumes "n < 256"
  shows "hex4 n = [''0123456789abcdef'' ! 0, ''0123456789abcdef'' ! 0, ''0123456789abcdef'' ! (n div 16),
    ''0123456789abcdef'' ! (n mod 16)]"
  using assms by (simp add: hex4_def)

lemma escaped_codes:
  "map char_of [34, 92, 8, 9, 10, 12, 13 :: nat] =
     [CHR 0x22, CHR 0x5C, CHR 0x08, CHR 0x09, CHR 0x0A, CHR 0x0C, CHR 0x0D]"
  by code_simp

lemma read_quoted_char:
  "read_chars (quote_char c @ s) = map_option (\<lambda>(cs, t). (c # cs, t)) (read_chars s)"
proof -
  let ?n = "of_char c :: nat"
  have n: "?n < 256" by (rule nat_of_char_less_256)
  consider "?n \<in> {34, 92, 8, 9, 10, 12, 13}" | "?n < 32" "?n \<notin> {8, 9, 10, 12, 13}" | "32 \<le> ?n" "?n \<noteq> 34" "?n \<noteq> 92"
    by fastforce
  then show ?thesis
  proof cases
    case 1
    then have "c \<in> char_of ` {34, 92, 8, 9, 10, 12, 13 :: nat}"
      by (intro image_eqI [where x = ?n]) simp_all
    then have "c \<in> {CHR 0x22, CHR 0x5C, CHR 0x08, CHR 0x09, CHR 0x0A, CHR 0x0C, CHR 0x0D}"
      using escaped_codes by simp
    then show ?thesis
      by (elim insertE emptyE) (simp_all add: quote_char_def Let_def read_escape_def escaped_codes [simplified])
  next
    case 2
    define D where "D = (\<lambda>d. ''0123456789abcdef'' ! d)"
    have "quote_char c = [CHR 0x5C, CHR ''u'', D 0, D 0, D (?n div 16), D (?n mod 16)]"
      using 2 n unfolding quote_char_def Let_def D_def
      by (simp add: read_hex4 escaped_codes [simplified])
    moreover have "read_hex (D 0) = Some 0" "read_hex (D (?n div 16)) = Some (?n div 16)"
      "read_hex (D (?n mod 16)) = Some (?n mod 16)"
      unfolding D_def using n by (intro read_hex_digit, linarith)+
    moreover have "char_of (4096 * 0 + 256 * 0 + 16 * (?n div 16) + ?n mod 16) = c" by simp
    ultimately show ?thesis by simp
  next
    case 3
    then have "c \<noteq> CHR 0x22" "c \<noteq> CHR 0x5C" by auto
    then show ?thesis using 3 by (simp add: quote_char_def Let_def)
  qed
qed

lemma read_quoted: "read_chars (concat (map quote_char s) @ CHR 0x22 # rest) = Some (s, rest)"
  by (induction s) (simp_all add: read_quoted_char)

section \<open>Reading a number that was printed\<close>

lemma digit_facts:
  assumes "d < 10"
  shows "is_digit (digit d)" "digit_value (digit d) = d" "digit d = CHR ''0'' \<longleftrightarrow> d = 0"
proof -
  have "list_all (\<lambda>d. is_digit (digit d) \<and> digit_value (digit d) = d \<and> (digit d = CHR ''0'' \<longleftrightarrow> d = 0)) [0 ..< 10]"
    by code_simp
  then show "is_digit (digit d)" "digit_value (digit d) = d" "digit d = CHR ''0'' \<longleftrightarrow> d = 0"
    using assms unfolding list_all_iff by (metis atLeastLessThan_iff atLeastLessThan_upt zero_le)+
qed

lemma digits_value_append:
  "digits_value (s @ t) = digits_value s * 10 ^ length t + digits_value t"
proof -
  have "foldl (\<lambda>n c. 10 * n + digit_value c) m t = m * 10 ^ length t + digits_value t" for m
    by (induction t rule: rev_induct) (simp_all add: digits_value_def add_mult_distrib2 ac_simps)
  from this [of "digits_value s"] show ?thesis by (simp add: digits_value_def)
qed

lemma digits_value_simps [simp]:
  "digits_value [] = 0" "digits_value [c] = digit_value c"
  "digits_value (c # s) = digit_value c * 10 ^ length s + digits_value s"
  using digits_value_append [of "[c]" s] by (simp_all add: digits_value_def)

lemma show_nat_digits: "list_all is_digit (show_nat n)"
proof (induction n rule: show_nat.induct)
  case (1 n)
  then show ?case by (subst show_nat.simps) (simp add: digit_facts(1))
qed

lemma show_nat_value: "digits_value (show_nat n) = n"
proof (induction n rule: show_nat.induct)
  case (1 n)
  then show ?case
    by (subst show_nat.simps) (simp add: digit_facts(2) digits_value_append del: digits_value_simps(3))
qed

lemma show_nat_head: "show_nat n \<noteq> [] \<and> (hd (show_nat n) = CHR ''0'' \<longleftrightarrow> n = 0)"
proof (induction n rule: show_nat.induct)
  case (1 n)
  then show ?case by (subst (1 2) show_nat.simps) (auto simp: digit_facts(3) hd_append)
qed

lemma show_nat_zero: "show_nat 0 = ''0''"
  by (simp add: show_nat.simps digit_def)

text \<open>A number with at most twenty decimals, which \<open>show_num\<close> prints in full.\<close>

definition short_decimal :: "rat \<Rightarrow> bool" where
  "short_decimal r \<longleftrightarrow> frac (10 ^ 20 * r) = 0"

lemma short_decimalI: "10 ^ 20 * r = of_int i \<Longrightarrow> short_decimal r"
  by (simp add: short_decimal_def)

lemma fraction_step:
  fixes r :: rat
  assumes "0 \<le> r" "r < 1"
  shows "0 \<le> \<lfloor>10 * r\<rfloor> \<and> \<lfloor>10 * r\<rfloor> < 10 \<and> 10 * r = of_int \<lfloor>10 * r\<rfloor> + frac (10 * r)"
  using assms by (auto simp: frac_def floor_less_iff)

lemma show_fraction_value:
  fixes r :: rat
  assumes "0 \<le> r" "r < 1" "10 ^ k * r \<in> \<int>"
  shows "list_all is_digit (show_fraction k r) \<and>
    of_nat (digits_value (show_fraction k r)) / 10 ^ length (show_fraction k r) = r \<and>
    (show_fraction k r = [] \<longleftrightarrow> r = 0)"
  using assms
proof (induction k arbitrary: r)
  case 0
  then have "r \<in> \<int>" by simp
  with 0 have "r = 0" by (auto elim!: Ints_cases)
  then show ?case by simp
next
  case (Suc k)
  show ?case
  proof (cases "r = 0")
    case True
    then show ?thesis by simp
  next
    case False
    let ?d = "nat \<lfloor>10 * r\<rfloor>" and ?r = "frac (10 * r)"
    note step = fraction_step [OF Suc.prems(1,2)]
    have d: "?d < 10" using step by linarith
    have "(of_nat ?d :: rat) = of_int \<lfloor>10 * r\<rfloor>" using step by simp
    note d = d this
    have "10 ^ k * ?r = 10 ^ Suc k * r - of_int (10 ^ k * \<lfloor>10 * r\<rfloor>)" by (simp add: frac_def algebra_simps)
    then have "10 ^ k * ?r \<in> \<int>" using Suc.prems(3) by (metis Ints_diff Ints_of_int)
    from Suc.IH [OF _ _ this] have IH: "list_all is_digit (show_fraction k ?r)"
      "of_nat (digits_value (show_fraction k ?r)) = ?r * 10 ^ length (show_fraction k ?r)"
      by (simp_all add: frac_lt_1 field_simps)
    have "of_nat (digits_value (show_fraction (Suc k) r)) / 10 ^ length (show_fraction (Suc k) r) =
        (of_int \<lfloor>10 * r\<rfloor> + ?r) / (10 :: rat)"
      using False d by (simp add: digit_facts(2) IH(2) add_divide_distrib)
    with step False d IH(1) show ?thesis by (simp add: digit_facts(1))
  qed
qed

text \<open>What may follow a value inside a text.\<close>

definition ends :: "string \<Rightarrow> bool" where
  "ends s \<longleftrightarrow> s = [] \<or> hd s \<in> {CHR '','', CHR '']'', CHR ''}''}"

lemma ends_Cons [simp]: "ends (CHR '','' # s)" "ends (CHR '']'' # s)" "ends (CHR ''}'' # s)" "ends []"
  by (simp_all add: ends_def)

lemma take_digits:
  assumes "list_all is_digit ds" and "ds \<noteq> []" and "rest = [] \<or> \<not> is_digit (hd rest)"
  shows "read_digits (ds @ rest) = Some (ds, rest)"
proof -
  have "takeWhile is_digit rest = [] \<and> dropWhile is_digit rest = rest" using assms(3) by (cases rest) auto
  moreover have "\<forall>c \<in> set ds. is_digit c" using assms(1) by (simp add: list_all_iff)
  ultimately show ?thesis using assms(2) by (simp add: read_digits_def Let_def takeWhile_append2 dropWhile_append2)
qed

lemma ends_no_digit: "ends s \<Longrightarrow> s = [] \<or> \<not> is_digit (hd s)"
  by (auto simp: ends_def is_digit_def)

lemma read_printed_number:
  assumes "short_decimal r" and "ends rest"
  shows "read_number (show_num r @ rest) = Some (r, rest)"
proof -
  let ?a = "\<bar>r\<bar>"
  let ?i = "nat \<lfloor>?a\<rfloor>" and ?f = "if frac ?a = 0 then [] else ''.'' @ show_fraction 20 (frac ?a)"
  have whole: "of_nat ?i + frac ?a = ?a" by (simp add: frac_def)
  have "10 ^ 20 * frac ?a = 10 ^ 20 * ?a - of_int (10 ^ 20 * \<lfloor>?a\<rfloor>)" by (simp add: frac_def algebra_simps)
  moreover have "10 ^ 20 * ?a \<in> \<int>"
  proof -
    have "10 ^ 20 * r \<in> \<int>" using assms(1) by (simp add: short_decimal_def frac_eq_0_iff)
    then show ?thesis by (cases "0 \<le> r") (auto dest: Ints_minus)
  qed
  ultimately have "10 ^ 20 * frac ?a \<in> \<int>" by (metis Ints_diff Ints_of_int)
  from show_fraction_value [OF frac_ge_0 frac_lt_1 this] have f: "list_all is_digit (show_fraction 20 (frac ?a))"
    "of_nat (digits_value (show_fraction 20 (frac ?a))) / 10 ^ length (show_fraction 20 (frac ?a)) = frac ?a"
    "show_fraction 20 (frac ?a) = [] \<longleftrightarrow> frac ?a = 0" by blast+
  have fraction: "read_fraction (?f @ rest) = Some (frac ?a, rest)"
  proof (cases "frac ?a = 0")
    case True
    with assms(2) show ?thesis by (auto simp: read_fraction_def ends_def split: list.split)
  next
    case False
    with take_digits [OF f(1) _ ends_no_digit [OF assms(2)]] f(2,3) show ?thesis by (simp add: read_fraction_def)
  qed
  have exponent: "read_exponent rest = Some (1, rest)"
    using assms(2) by (auto simp: read_exponent_def ends_def split: list.split)
  have "?f @ rest = [] \<or> \<not> is_digit (hd (?f @ rest))"
    using ends_no_digit [OF assms(2)] by (simp add: is_digit_def)
  from take_digits [OF show_nat_digits _ this] show_nat_head
  have digits: "read_digits (show_nat ?i @ ?f @ rest) = Some (show_nat ?i, ?f @ rest)" by blast
  have "\<not> (hd (show_nat ?i) = CHR ''0'' \<and> 1 < length (show_nat ?i))"
    using show_nat_head [of ?i] show_nat_zero by auto
  then have unsigned: "read_unsigned (show_nat ?i @ ?f @ rest) = Some (?a, rest)"
    unfolding read_unsigned_def digits option.case prod.case fraction exponent option.map
    using whole by (simp add: show_nat_value)
  obtain c s where c: "show_nat ?i = c # s" "is_digit c"
    using show_nat_digits [of ?i] show_nat_head [of ?i] by (cases "show_nat ?i") auto
  then have minus: "c \<noteq> CHR ''-''" by (auto simp: is_digit_def)
  show ?thesis
  proof (cases "r < 0")
    case True
    with unsigned show ?thesis by (simp add: show_num_def read_number_def)
  next
    case False
    with unsigned c(1) minus show ?thesis by (simp add: show_num_def read_number_def)
  qed
qed

section \<open>Reading a value that was printed\<close>

text \<open>
  The values \<open>JSON.stringify\<close> prints without loss: no key twice in an object, which holds of every
  JavaScript object, and numbers that are printed in full.
\<close>

fun wf_json :: "json \<Rightarrow> bool" where
  "wf_json (JNum r) = short_decimal r"
| "wf_json (JArr js) = list_all wf_json js"
| "wf_json (JObj kvs) = (distinct (map fst kvs) \<and> list_all (\<lambda>(k, j). wf_json j) kvs)"
| "wf_json j = True"

text \<open>With any fuel from some amount on, the reader gets the value and leaves the rest.\<close>

definition reads_back :: "(nat \<Rightarrow> string \<Rightarrow> ('a \<times> string) option) \<Rightarrow> string \<Rightarrow> 'a \<Rightarrow> string \<Rightarrow> bool" where
  "reads_back reader text x rest \<longleftrightarrow> (\<exists>n0. \<forall>n \<ge> n0. reader n (text @ rest) = Some (x, rest))"

lemma reads_back_Suc:
  assumes "\<exists>n0. \<forall>n \<ge> n0. reader (Suc n) (text @ rest) = Some (x, rest)"
  shows "reads_back reader text x rest"
proof -
  from assms obtain n0 where "\<forall>n \<ge> n0. reader (Suc n) (text @ rest) = Some (x, rest)" ..
  then have "\<forall>n \<ge> Suc n0. reader n (text @ rest) = Some (x, rest)" by (metis Suc_le_D Suc_le_mono)
  then show ?thesis unfolding reads_back_def ..
qed

lemma skip_solid [simp]: "\<not> json_space c \<Longrightarrow> skip_space (c # s) = c # s"
  by (simp add: skip_space_def)

lemma solid [simp]:
  "\<not> json_space (CHR '','')" "\<not> json_space (CHR '':'')" "\<not> json_space (CHR ''['')" "\<not> json_space (CHR '']'')"
  "\<not> json_space (CHR ''{'')" "\<not> json_space (CHR ''}'')" "\<not> json_space (CHR 0x22)" "\<not> json_space (CHR ''-'')"
  "is_digit c \<Longrightarrow> \<not> json_space c"
  by (auto simp: json_space_def is_digit_def)

lemma show_num_head: "\<exists>c s. show_num r = c # s \<and> (c = CHR ''-'' \<or> is_digit c)"
proof -
  obtain c s where "show_nat (nat \<lfloor>\<bar>r\<bar>\<rfloor>) = c # s" "is_digit c"
    using show_nat_digits [of "nat \<lfloor>\<bar>r\<bar>\<rfloor>"] show_nat_head by (cases "show_nat (nat \<lfloor>\<bar>r\<bar>\<rfloor>)") auto
  then show ?thesis by (simp add: show_num_def)
qed

lemma quote_Cons: "quote s = CHR 0x22 # concat (map quote_char s) @ [CHR 0x22]"
  by (simp add: quote_def escaped_codes [simplified])

lemma stringify_head: "\<exists>c s. stringify j = c # s \<and> \<not> json_space c \<and> c \<noteq> CHR '']''"
proof (cases j)
  case (JNum r)
  from show_num_head [of r] obtain c s where "show_num r = c # s" "c = CHR ''-'' \<or> is_digit c" by blast
  then show ?thesis using JNum by (auto simp: is_digit_def)
qed (auto simp: quote_Cons json_space_def)

lemma skip_stringify [simp]: "skip_space (stringify j @ s) = stringify j @ s"
  using stringify_head [of j] by auto

text \<open>A scalar is read by \<open>read_scalar\<close>, whatever the fuel.\<close>

lemma scalar_reads_back:
  assumes "stringify j = c # s" and "\<not> json_space c" and "c \<noteq> CHR ''[''" and "c \<noteq> CHR ''{''"
    and "read_scalar (c # s @ rest) = Some (j, rest)"
  shows "reads_back read_value (stringify j) j rest"
  by (rule reads_back_Suc) (simp add: read_value.simps(2) assms)

lemma elements_read_back:
  assumes "js \<noteq> []" and "\<And>j rest. j \<in> set js \<Longrightarrow> ends rest \<Longrightarrow> reads_back read_value (stringify j) j rest"
  shows "reads_back read_elements (commas (map stringify js) @ '']'') js rest"
  using assms
proof (induction js rule: list_nonempty_induct)
  case (single j)
  then obtain n0 where "\<forall>n \<ge> n0. read_value n (stringify j @ '']'' @ rest) = Some (j, '']'' @ rest)"
    unfolding reads_back_def by (metis append_Cons ends_Cons(2) list.set_intros(1))
  then show ?case by (intro reads_back_Suc) (auto simp: read_elements.simps(2) intro!: exI [of _ n0])
next
  case (cons j js)
  let ?more = "commas (map stringify js) @ '']''"
  have "commas (map stringify (j # js)) = stringify j @ '','' @ commas (map stringify js)"
    using cons.hyps by (cases js) simp_all
  moreover obtain n0 where "\<forall>n \<ge> n0. read_value n (stringify j @ '','' @ ?more @ rest) = Some (j, '','' @ ?more @ rest)"
    using cons.prems [of j "'','' @ ?more @ rest"] unfolding reads_back_def by auto
  moreover obtain n1 where "\<forall>n \<ge> n1. read_elements n (?more @ rest) = Some (js, rest)"
    using cons.IH cons.prems unfolding reads_back_def by auto
  ultimately show ?case
    by (intro reads_back_Suc) (auto simp: read_elements.simps(2) intro!: exI [of _ "max n0 n1"])
qed

definition member_text :: "string \<times> json \<Rightarrow> string" where
  "member_text m = quote (fst m) @ '':'' @ stringify (snd m)"

lemma member_read:
  assumes "read_value n (stringify j @ rest) = Some (j, rest)"
  shows "read_members (Suc n) (member_text (k, j) @ rest) =
    (case skip_space rest of
       [] \<Rightarrow> None
     | d # x \<Rightarrow>
         if d = CHR '','' then map_option (\<lambda>(kvs, y). ((k, j) # kvs, y)) (read_members n x)
         else if d = CHR ''}'' then Some ([(k, j)], x)
         else None)"
  using assms read_quoted [of k "'':'' @ stringify j @ rest"]
  by (simp add: read_members.simps(2) member_text_def quote_Cons)

lemma members_read_back:
  assumes "kvs \<noteq> []" and "\<And>k j rest. (k, j) \<in> set kvs \<Longrightarrow> ends rest \<Longrightarrow> reads_back read_value (stringify j) j rest"
  shows "reads_back read_members (commas (map member_text kvs) @ ''}'') kvs rest"
  using assms
proof (induction kvs rule: list_nonempty_induct)
  case (single m)
  obtain k j where m: "m = (k, j)" by (cases m)
  with single obtain n0 where "\<forall>n \<ge> n0. read_value n (stringify j @ ''}'' @ rest) = Some (j, ''}'' @ rest)"
    unfolding reads_back_def by (metis append_Cons ends_Cons(3) list.set_intros(1))
  then show ?case by (intro reads_back_Suc) (auto simp: m member_read intro!: exI [of _ n0])
next
  case (cons m kvs)
  let ?more = "commas (map member_text kvs) @ ''}''"
  obtain k j where m: "m = (k, j)" by (cases m)
  have "commas (map member_text (m # kvs)) = member_text m @ '','' @ commas (map member_text kvs)"
    using cons.hyps by (cases kvs) simp_all
  moreover obtain n0 where "\<forall>n \<ge> n0. read_value n (stringify j @ '','' @ ?more @ rest) = Some (j, '','' @ ?more @ rest)"
    using cons.prems [of k j "'','' @ ?more @ rest"] m unfolding reads_back_def by auto
  moreover have "reads_back read_members ?more kvs rest"
    by (rule cons.IH) (erule cons.prems [OF list.set_intros(2)])
  then obtain n1 where "\<forall>n \<ge> n1. read_members n (?more @ rest) = Some (kvs, rest)"
    unfolding reads_back_def by auto
  ultimately show ?case
    by (intro reads_back_Suc) (auto simp: m member_read intro!: exI [of _ "max n0 n1"])
qed

lemma update_fresh: "k \<notin> fst ` set al \<Longrightarrow> AList.update k v al = al @ [(k, v)]"
  by (induction al) auto

lemma object_of_distinct:
  assumes "distinct (map fst kvs)"
  shows "object_of kvs = JObj kvs"
proof -
  have "fold (\<lambda>(k, j). AList.update k j) kvs al = al @ kvs" if "distinct (map fst (al @ kvs))" for al
    using that
  proof (induction kvs arbitrary: al)
    case (Cons m kvs)
    obtain k j where "m = (k, j)" by (cases m)
    with Cons.prems Cons.IH [of "al @ [m]"] show ?case by (auto simp: update_fresh)
  qed simp
  from this [of "[]"] assms show ?thesis by (simp add: object_of_def)
qed

lemma value_reads_back:
  "wf_json j \<Longrightarrow> ends rest \<Longrightarrow> reads_back read_value (stringify j) j rest"
proof (induction j arbitrary: rest rule: stringify.induct)
  case 1
  show ?case
    by (rule scalar_reads_back) (auto simp: read_scalar_def read_word_def json_space_def)
next
  case (2 b)
  show ?case
    by (cases b; rule scalar_reads_back) (auto simp: read_scalar_def read_word_def json_space_def)
next
  case (3 r)
  obtain c s where c: "show_num r = c # s" "c = CHR ''-'' \<or> is_digit c" using show_num_head by blast
  then have "\<not> json_space c" "c \<notin> {CHR 0x22, CHR ''n'', CHR ''t'', CHR ''f'', CHR ''['', CHR ''{''}"
    by (auto simp: is_digit_def)
  then show ?case
    using c(1) read_printed_number [of r rest] 3 by (intro scalar_reads_back) (auto simp: read_scalar_def)
next
  case (4 s)
  show ?case
    using read_quoted [of s rest] by (intro scalar_reads_back) (auto simp: read_scalar_def quote_Cons json_space_def)
next
  case (5 js)
  show ?case
  proof (cases "js = []")
    case True
    then show ?thesis by (intro reads_back_Suc) (simp add: read_value.simps(2))
  next
    case False
    have "reads_back read_elements (commas (map stringify js) @ '']'') js rest"
      using False 5 by (intro elements_read_back) (auto simp: list_all_iff)
    then obtain n0 where n0: "\<forall>n \<ge> n0. read_elements n (commas (map stringify js) @ '']'' @ rest) = Some (js, rest)"
      unfolding reads_back_def by auto
    obtain j js' where js: "js = j # js'" using False by (cases js) auto
    obtain c s where "commas (map stringify js) @ '']'' @ rest = c # s" "\<not> json_space c" "c \<noteq> CHR '']''"
      using stringify_head [of j] js by (cases js') auto
    with n0 show ?thesis
      by (intro reads_back_Suc) (auto simp: read_value.simps(2) intro!: exI [of _ n0])
  qed
next
  case (6 kvs)
  have "map (\<lambda>(k, j). quote k @ '':'' @ stringify j) kvs = map member_text kvs"
    by (auto simp: member_text_def)
  then have members: "stringify (JObj kvs) = ''{'' @ commas (map member_text kvs) @ ''}''"
    by (simp only: stringify.simps)
  show ?case
  proof (cases "kvs = []")
    case True
    then show ?thesis by (intro reads_back_Suc) (simp add: read_value.simps(2))
  next
    case False
    have "reads_back read_members (commas (map member_text kvs) @ ''}'') kvs rest"
      using False 6 by (intro members_read_back) (auto simp: list_all_iff)
    then obtain n0 where n0: "\<forall>n \<ge> n0. read_members n (commas (map member_text kvs) @ ''}'' @ rest) = Some (kvs, rest)"
      unfolding reads_back_def by auto
    obtain m kvs' where "kvs = m # kvs'" using False by (cases kvs) auto
    then obtain s where "commas (map member_text kvs) @ ''}'' @ rest = CHR 0x22 # s"
      by (cases kvs') (auto simp: member_text_def quote_Cons)
    with n0 show ?thesis
      unfolding members
      using 6 by (intro reads_back_Suc)
        (auto simp: read_value.simps(2) object_of_distinct intro!: exI [of _ n0])
  qed
qed

text \<open>What \<open>JSON.stringify\<close> prints, \<open>JSON.parse\<close> reads.\<close>

theorem parse_stringify:
  assumes "wf_json j"
  shows "json_parse (stringify j) = Some j"
proof -
  from value_reads_back [OF assms ends_Cons(4)] obtain n0
    where n0: "\<forall>n \<ge> n0. read_value n (stringify j) = Some (j, [])" unfolding reads_back_def by auto
  have "read_value (2 * length (stringify j) + 1) (stringify j) =
      read_value (max n0 (2 * length (stringify j) + 1)) (stringify j)"
    by (rule fuel_is_enough [symmetric]) simp
  with n0 show ?thesis by (simp add: json_parse_def skip_space_def)
qed

end
