(* ===== verification/IsoDate.thy ===== *)
theory IsoDate
  imports JsonText
begin

text \<open>
  Reading back what \<open>toISOString\<close> prints. The server keeps a time as milliseconds and sends it as an
  ISO string; the webhook's receiver, the client and the server's own request body turn it into a
  time again. \<open>iso_time\<close> is \<open>Date.parse\<close> on that format (other formats are not read here). On the
  times a Date can hold, a hundred million days around the epoch, it inverts \<open>toISOString\<close>: the
  civil calendar is undone by \<open>days_of\<close>.
\<close>

section \<open>The calendar\<close>

text \<open>The day count of a civil date; the inverse of \<open>civil\<close>.\<close>

definition days_of :: "int \<times> int \<times> int \<Rightarrow> int" where
  "days_of date =
     (let (y, m, d) = date;
          y' = (if m \<le> 2 then y - 1 else y);
          yoe = y' mod 400;
          mp = (if 2 < m then m - 3 else m + 9);
          doy = (153 * mp + 2) div 5 + d - 1
      in y' div 400 * 146097 + (yoe * 365 + yoe div 4 - yoe div 100 + doy) - 719468)"

text \<open>The first day of a year of an era, and the year \<open>civil\<close> computes for a day, times 365.\<close>

definition year_start :: "int \<Rightarrow> int" where
  "year_start y = 365 * y + y div 4 - y div 100"

definition year_index :: "int \<Rightarrow> int" where
  "year_index doe = doe - doe div 1460 + doe div 36524 - doe div 146096"

lemma year_index_step: "year_index doe \<le> year_index (doe + 1)"
proof -
  have quarters: "x div 146096 = x div 36524 div 4" for x :: int
    using zdiv_zmult2_eq [of 4 x 36524] by simp
  have quarter: "b div 4 - a div 4 \<le> b - a" if "a \<le> b" for a b :: int
    using that by presburger
  have "(doe + 1) div 1460 \<le> doe div 1460 + 1"
    using zdiv_mono1 [of "doe + 1" "doe + 1460" 1460] by simp
  moreover have "doe div 36524 \<le> (doe + 1) div 36524" by (simp add: zdiv_mono1)
  note quarter [OF this]
  ultimately show ?thesis unfolding year_index_def quarters by linarith
qed

lemma year_index_mono: "a \<le> b \<Longrightarrow> year_index a \<le> year_index b"
proof (induction b rule: int_ge_induct)
  case (step b)
  then show ?case using year_index_step [of b] by simp
qed simp

lemma year_index_bounds:
  assumes "0 \<le> y" and "y < 400"
  shows "365 * y \<le> year_index (year_start y) \<and> year_index (year_start (y + 1) - 1) < 365 * (y + 1)"
proof -
  have "list_all (\<lambda>y. 365 * y \<le> year_index (year_start y) \<and> year_index (year_start (y + 1) - 1) < 365 * (y + 1)) [0 .. 399]"
    by code_simp
  then show ?thesis using assms by (simp add: list_all_iff)
qed

lemma year_of_day:
  assumes "0 \<le> doe" and "doe < 146096"
  shows "\<exists>y. 0 \<le> y \<and> y < 400 \<and> year_start y \<le> doe \<and> doe < year_start (y + 1)"
proof -
  have "\<exists>y. 0 \<le> y \<and> y < int n \<and> year_start y \<le> doe \<and> doe < year_start (y + 1)"
    if "doe < year_start (int n)" for n
    using that
  proof (induction n)
    case 0
    then show ?case using assms by (simp add: year_start_def)
  next
    case (Suc n)
    show ?case
    proof (cases "doe < year_start (int n)")
      case True
      then show ?thesis using Suc.IH by force
    next
      case False
      then show ?thesis using Suc.prems by (intro exI [of _ "int n"]) (simp add: add.commute)
    qed
  qed
  from this [of 400] assms(2) show ?thesis by (simp add: year_start_def)
qed

lemma year_quotient: "365 * y \<le> v \<Longrightarrow> v < 365 * (y + 1) \<Longrightarrow> v div 365 = (y :: int)"
  by (rule int_div_pos_eq [where r = "v - 365 * y"]) simp_all

lemma year_length: "year_start (y + 1) - year_start y \<le> 366"
  using zdiv_mono1 [of "y + 1" "y + 4" 4] zdiv_mono1 [of y "y + 1" 100] by (simp add: year_start_def)

lemma year_of_era:
  assumes "0 \<le> doe" and "doe < 146097"
  defines "yoe \<equiv> year_index doe div 365"
  shows "0 \<le> yoe" "yoe < 400" "0 \<le> doe - year_start yoe" "doe - year_start yoe < 366"
proof -
  have "\<exists>y. 0 \<le> y \<and> y < 400 \<and> yoe = y \<and> year_start y \<le> doe \<and> doe < year_start y + 366"
  proof (cases "doe = 146096")
    case True
    then have "yoe = 399" "year_start 399 \<le> doe" "doe < year_start 399 + 366"
      by (simp_all add: yoe_def year_index_def year_start_def)
    then show ?thesis by (intro exI [of _ 399]) simp
  next
    case False
    with assms(1,2) obtain y where y: "0 \<le> y" "y < 400" "year_start y \<le> doe" "doe < year_start (y + 1)"
      using year_of_day [of doe] by auto
    have "365 * y \<le> year_index doe" "year_index doe < 365 * (y + 1)"
      using year_index_bounds [OF y(1,2)] year_index_mono [OF y(3)] year_index_mono [of doe "year_start (y + 1) - 1"] y(4)
      by linarith+
    then have "yoe = y" unfolding yoe_def by (simp add: year_quotient)
    moreover have "year_start (y + 1) - year_start y \<le> 366" by (rule year_length)
    ultimately show ?thesis using y by auto
  qed
  then show "0 \<le> yoe" "yoe < 400" "0 \<le> doe - year_start yoe" "doe - year_start yoe < 366" by auto
qed

lemma month_of_year:
  fixes doy :: int
  assumes "0 \<le> doy" and "doy < 366"
  defines "mp \<equiv> (5 * doy + 2) div 153"
  defines "d \<equiv> doy - (153 * mp + 2) div 5 + 1"
  shows "0 \<le> mp" "mp \<le> 11" "1 \<le> d" "d \<le> 31"
  using assms(1,2) unfolding d_def mp_def by linarith+

text \<open>The civil date of a day is a date, and \<open>days_of\<close> leads back to the day.\<close>

lemma civil_date:
  assumes "civil days = (y, m, d)"
  shows "1 \<le> m" "m \<le> 12" "1 \<le> d" "d \<le> 31" "days_of (y, m, d) = days"
    and "(days + 719468) div 146097 * 400 \<le> y" "y \<le> (days + 719468) div 146097 * 400 + 400"
proof -
  define era where "era = (days + 719468) div 146097"
  define doe where "doe = (days + 719468) mod 146097"
  define yoe where "yoe = year_index doe div 365"
  define doy where "doy = doe - year_start yoe"
  define mp where "mp = (5 * doy + 2) div 153"
  have doe: "0 \<le> doe" "doe < 146097" by (simp_all add: doe_def)
  note yoe = year_of_era [OF doe, folded yoe_def]
  have doy: "0 \<le> doy" "doy < 366" using yoe by (simp_all add: doy_def)
  note month = month_of_year [OF doy, folded mp_def]
  have "civil days = (yoe + era * 400 + (if (if mp < 10 then mp + 3 else mp - 9) \<le> 2 then 1 else 0),
      (if mp < 10 then mp + 3 else mp - 9), doy - (153 * mp + 2) div 5 + 1)"
    unfolding civil_def Let_def era_def doe_def yoe_def doy_def mp_def year_index_def year_start_def by (rule refl)
  then have date: "m = (if mp < 10 then mp + 3 else mp - 9)" "d = doy - (153 * mp + 2) div 5 + 1"
    "y = yoe + era * 400 + (if m \<le> 2 then 1 else 0)"
    unfolding assms prod.inject by blast+
  show "1 \<le> m" "m \<le> 12" "1 \<le> d" "d \<le> 31" using month date(1,2) by auto
  have mp: "(if 2 < m then m - 3 else m + 9) = mp" using month date(1) by auto
  have y': "(if m \<le> 2 then y - 1 else y) = yoe + era * 400" using date(3) by simp
  have "(yoe + era * 400) mod 400 = yoe" "(yoe + era * 400) div 400 = era" using yoe(1,2) by simp_all
  then have "days_of (y, m, d) = era * 146097 + (year_start yoe + doy) - 719468"
    using date(2) unfolding days_of_def Let_def prod.case mp y' year_start_def by simp
  also have "\<dots> = days" by (simp add: doy_def era_def doe_def)
  finally show "days_of (y, m, d) = days" .
  show "(days + 719468) div 146097 * 400 \<le> y" "y \<le> (days + 719468) div 146097 * 400 + 400"
    using date(3) yoe(1,2) by (auto simp: era_def)
qed

section \<open>Reading an ISO string\<close>

text \<open>A field of \<open>n\<close> digits; a separator.\<close>

definition read_field :: "nat \<Rightarrow> string \<Rightarrow> (int \<times> string) option" where
  "read_field n s =
     (let ds = take n s
      in if length ds = n \<and> list_all is_digit ds then Some (int (digits_value ds), drop n s) else None)"

definition read_mark :: "char \<Rightarrow> string \<Rightarrow> string option" where
  "read_mark c s = (case s of [] \<Rightarrow> None | d # t \<Rightarrow> if d = c then Some t else None)"

definition read_year :: "string \<Rightarrow> (int \<times> string) option" where
  "read_year s =
     (case s of
        [] \<Rightarrow> None
      | c # t \<Rightarrow>
          if c = CHR ''-'' then map_option (\<lambda>(y, u). (- y, u)) (read_field 6 t)
          else if c = CHR ''+'' then read_field 6 t
          else read_field 4 s)"

definition read_next :: "char \<Rightarrow> nat \<Rightarrow> string \<Rightarrow> (int \<times> string) option" where
  "read_next c n s = Option.bind (read_mark c s) (read_field n)"

definition iso_time :: "string \<Rightarrow> int option" where
  "iso_time s =
     Option.bind (read_year s) (\<lambda>(y, s).
     Option.bind (read_next (CHR ''-'') 2 s) (\<lambda>(m, s).
     Option.bind (read_next (CHR ''-'') 2 s) (\<lambda>(d, s).
     Option.bind (read_next (CHR ''T'') 2 s) (\<lambda>(hour, s).
     Option.bind (read_next (CHR '':'') 2 s) (\<lambda>(minute, s).
     Option.bind (read_next (CHR '':'') 2 s) (\<lambda>(second, s).
     Option.bind (read_next (CHR ''.'') 3 s) (\<lambda>(milli, s).
       if s = ''Z'' \<and> 1 \<le> m \<and> m \<le> 12 \<and> 1 \<le> d \<and> d \<le> 31 \<and> hour \<le> 23 \<and> minute \<le> 59 \<and> second \<le> 59
       then Some (days_of (y, m, d) * 86400000 + hour * 3600000 + minute * 60000 + second * 1000 + milli)
       else None)))))))"

lemma show_nat_length: "k < 10 ^ n \<Longrightarrow> 0 < n \<Longrightarrow> length (show_nat k) \<le> n"
proof (induction k arbitrary: n rule: show_nat.induct)
  case (1 k)
  show ?case
  proof (cases "k < 10")
    case True
    with 1(3) show ?thesis by (simp add: show_nat.simps)
  next
    case False
    obtain m where n: "n = Suc m" using 1(3) by (cases n) auto
    then have "k div 10 < 10 ^ m" using 1(2) by (simp add: div_less_iff_less_mult mult.commute)
    moreover from this False have "0 < m" by (cases m) auto
    ultimately have "length (show_nat (k div 10)) \<le> m" using 1(1) False by simp
    then show ?thesis using False n by (subst show_nat.simps) simp
  qed
qed

lemma digits_value_zeros: "digits_value (replicate k (CHR ''0'') @ s) = digits_value s"
  by (induction k) (simp_all add: digit_value_def)

lemma read_field_pad:
  assumes "0 \<le> i" and "i < 10 ^ n" and "0 < n"
  shows "read_field n (pad0 n (show_int i) @ s) = Some (i, s)"
proof -
  have "nat i < 10 ^ n" using assms(1,2) by (simp add: nat_less_iff)
  then have "length (show_nat (nat i)) \<le> n" using assms(3) by (rule show_nat_length)
  then have "length (pad0 n (show_int i)) = n" using assms(1) by (simp add: pad0_def show_int_def)
  moreover have "list_all is_digit (pad0 n (show_int i))"
    using assms(1) show_nat_digits [of "nat i"] by (auto simp: pad0_def show_int_def list_all_iff is_digit_def)
  moreover have "digits_value (pad0 n (show_int i)) = nat i"
    using assms(1) by (simp add: pad0_def show_int_def digits_value_zeros show_nat_value)
  ultimately show ?thesis using assms(1) by (simp add: read_field_def)
qed

lemma read_next_pad:
  assumes "0 \<le> i" and "i < 10 ^ n" and "0 < n"
  shows "read_next c n (c # pad0 n (show_int i) @ s) = Some (i, s)"
  using read_field_pad [OF assms] by (simp add: read_next_def read_mark_def)

lemma read_year_shown:
  assumes "\<bar>y\<bar> \<le> 999999"
  shows "read_year (show_year y @ s) = Some (y, s)"
proof (cases "0 \<le> y \<and> y \<le> 9999")
  case True
  then have "pad0 4 (show_int y) \<noteq> []" "list_all is_digit (pad0 4 (show_int y))"
    using show_nat_digits [of "nat y"] show_nat_head [of "nat y"]
    by (auto simp: pad0_def show_int_def list_all_iff is_digit_def)
  then obtain c u where c: "pad0 4 (show_int y) = c # u" "is_digit c" by (cases "pad0 4 (show_int y)") auto
  then have "c \<noteq> CHR ''-''" "c \<noteq> CHR ''+''" by (auto simp: is_digit_def)
  moreover have "read_field 4 (pad0 4 (show_int y) @ s) = Some (y, s)" using True by (intro read_field_pad) auto
  ultimately show ?thesis using True c(1) by (simp add: show_year_def read_year_def)
next
  case False
  have "read_field 6 (pad0 6 (show_int \<bar>y\<bar>) @ s) = Some (\<bar>y\<bar>, s)" using assms by (intro read_field_pad) auto
  then show ?thesis using False by (auto simp: show_year_def read_year_def)
qed

text \<open>The times a Date can hold.\<close>

definition date_range :: "int \<Rightarrow> bool" where
  "date_range t \<longleftrightarrow> - 8640000000000000 \<le> t \<and> t \<le> 8640000000000000"

lemma civil_year_range:
  assumes "date_range t" and "civil (t div 86400000) = (y, m, d)"
  shows "\<bar>y\<bar> \<le> 999999"
proof -
  have "- 100000000 \<le> t div 86400000" "t div 86400000 \<le> 100000000"
    using assms(1) zdiv_mono1 [of "- 8640000000000000" t 86400000] zdiv_mono1 [of t 8640000000000000 86400000]
    by (simp_all add: date_range_def)
  then have "- 1000 \<le> (t div 86400000 + 719468) div 146097" "(t div 86400000 + 719468) div 146097 \<le> 1000"
    using zdiv_mono1 [of "- 146097000" "t div 86400000 + 719468" 146097]
      zdiv_mono1 [of "t div 86400000 + 719468" "146097000" 146097] by simp_all
  then show ?thesis using civil_date(6,7) [OF assms(2)] by linarith
qed

lemma iso_time_fields:
  assumes "\<bar>y\<bar> \<le> 999999" and "1 \<le> m" "m \<le> 12" and "1 \<le> d" "d \<le> 31"
    and "0 \<le> hour" "hour \<le> 23" and "0 \<le> minute" "minute \<le> 59" and "0 \<le> second" "second \<le> 59"
    and "0 \<le> milli" "milli < 1000"
  shows "iso_time (show_year y @ CHR ''-'' # pad0 2 (show_int m) @ CHR ''-'' # pad0 2 (show_int d) @
      CHR ''T'' # pad0 2 (show_int hour) @ CHR '':'' # pad0 2 (show_int minute) @
      CHR '':'' # pad0 2 (show_int second) @ CHR ''.'' # pad0 3 (show_int milli) @ ''Z'') =
    Some (days_of (y, m, d) * 86400000 + hour * 3600000 + minute * 60000 + second * 1000 + milli)"
  unfolding iso_time_def using assms by (simp add: read_year_shown read_next_pad)

theorem iso_roundtrip:
  assumes "date_range t"
  shows "iso_time (toISOString t) = Some t"
proof -
  obtain y m d where c: "civil (t div 86400000) = (y, m, d)" by (metis prod_cases3)
  define r where "r = t mod 86400000"
  have r: "0 \<le> r" "r < 86400000" by (simp_all add: r_def)
  note date = civil_date(1-5) [OF c]
  have parts: "0 \<le> r div 3600000" "r div 3600000 \<le> 23" "0 \<le> r div 60000 mod 60" "r div 60000 mod 60 \<le> 59"
    "0 \<le> r div 1000 mod 60" "r div 1000 mod 60 \<le> 59" "0 \<le> r mod 1000" "r mod 1000 < 1000"
    using r by auto
  have whole: "r div 3600000 * 3600000 + r div 60000 mod 60 * 60000 + r div 1000 mod 60 * 1000 + r mod 1000 = r"
  proof -
    have "r div 3600000 = r div 60000 div 60" "r div 60000 = r div 1000 div 60"
      using zdiv_zmult2_eq [of 60 r 60000] zdiv_zmult2_eq [of 60 r 1000] by simp_all
    then show ?thesis
      using div_mult_mod_eq [of "r div 60000" 60] div_mult_mod_eq [of "r div 1000" 60] div_mult_mod_eq [of r 1000]
      by linarith
  qed
  have shown: "toISOString t = show_year y @ CHR ''-'' # pad0 2 (show_int m) @ CHR ''-'' # pad0 2 (show_int d) @
      CHR ''T'' # pad0 2 (show_int (r div 3600000)) @ CHR '':'' # pad0 2 (show_int (r div 60000 mod 60)) @
      CHR '':'' # pad0 2 (show_int (r div 1000 mod 60)) @ CHR ''.'' # pad0 3 (show_int (r mod 1000)) @ ''Z''"
    by (simp add: toISOString_def c r_def Let_def)
  have "days_of (y, m, d) * 86400000 + r = t" using date(5) by (simp add: r_def)
  with whole show ?thesis
    unfolding shown iso_time_fields [OF civil_year_range [OF assms c] date(1-4) parts] option.inject by linarith
qed

corollary toISOString_inject:
  "date_range t \<Longrightarrow> date_range u \<Longrightarrow> toISOString t = toISOString u \<Longrightarrow> t = u"
  by (metis iso_roundtrip option.inject)

end
