(* ===== verification/WireFormat.thy ===== *)
theory WireFormat
  imports Webhook IsoDate
begin

text \<open>
  The webhook on the wire. \<open>webhook.client.ts\<close> signs the text \<open>JSON.stringify\<close> makes of the body; a
  receiver that checks the signature has that text, and reads it with \<open>JSON.parse\<close> and \<open>new Date\<close>.
  The theorems say that the text is the event: it reads back as what was sent, and no two events
  share a text, so a signature covers exactly one event.
\<close>

lemma body_fields:
  "json_field (webhook_body request) ''eventId'' = Some (JStr (wr_eventId request))"
  "json_field (webhook_body request) ''type'' = Some (JStr (wr_type request))"
  "json_field (webhook_body request) ''occurredAt'' = Some (JStr (toISOString (wr_occurredAt request)))"
  "json_field (webhook_body request) ''payload'' = Some (wr_payload request)"
  by (simp_all add: webhook_body_def json_field_def)

lemma wf_webhook_body: "wf_json (webhook_body request) \<longleftrightarrow> wf_json (wr_payload request)"
  by (simp add: webhook_body_def)

text \<open>What a receiver gets out of a text: the id, the type, the time and the payload.\<close>

definition read_delivery :: "string \<Rightarrow> (string \<times> string \<times> int \<times> json) option" where
  "read_delivery text =
     (case json_parse text of
        None \<Rightarrow> None
      | Some body \<Rightarrow>
          (case (json_field body ''eventId'', json_field body ''type'', json_field body ''occurredAt'',
                 json_field body ''payload'') of
             (Some (JStr e), Some (JStr k), Some (JStr s), Some p) \<Rightarrow>
               map_option (\<lambda>t. (e, k, t, p)) (iso_time s)
           | _ \<Rightarrow> None))"

text \<open>No two events share a text: a signature is evidence of one event only.\<close>

lemma signed_text_determines_event:
  assumes "wf_json (wr_payload a)" and "date_range (wr_occurredAt a)"
    and "wf_json (wr_payload b)" and "date_range (wr_occurredAt b)"
    and "stringify (webhook_body a) = stringify (webhook_body b)"
  shows "wr_eventId a = wr_eventId b \<and> wr_type a = wr_type b \<and> wr_occurredAt a = wr_occurredAt b \<and>
    wr_payload a = wr_payload b"
proof -
  have "wf_json (webhook_body a)" "wf_json (webhook_body b)" using assms(1,3) wf_webhook_body by blast+
  from this [THEN parse_stringify] have same: "webhook_body a = webhook_body b"
    unfolding assms(5) by (metis option.inject)
  then have "toISOString (wr_occurredAt a) = toISOString (wr_occurredAt b)" by (simp add: webhook_body_def)
  then have "wr_occurredAt a = wr_occurredAt b" by (rule toISOString_inject [OF assms(2,4)])
  with same show ?thesis by (simp add: webhook_body_def)
qed

text \<open>
  Property C29. The signed text is the event: the signature header is the keyed hash of a text that
  \<open>JSON.parse\<close> reads back as the posted body, and out of which a receiver gets the event's id, type,
  time and payload as they were sent; and no other event is sent as that text.
\<close>

theorem signed_text_is_the_event:
  assumes "wf_json (wr_payload request)" and "date_range (wr_occurredAt request)"
  shows "\<exists>text. map_of (hr_headers (webhook_request cfg hmac now request)) ''X-Webhook-Signature'' =
      Some (''sha256='' @ hmac (signingSecret cfg) text) \<and>
    json_parse text = Some (hr_body (webhook_request cfg hmac now request)) \<and>
    read_delivery text =
      Some (wr_eventId request, wr_type request, wr_occurredAt request, wr_payload request) \<and>
    (\<forall>other. wf_json (wr_payload other) \<and> date_range (wr_occurredAt other) \<and> stringify (webhook_body other) = text \<longrightarrow>
       wr_eventId other = wr_eventId request \<and> wr_type other = wr_type request \<and>
       wr_occurredAt other = wr_occurredAt request \<and> wr_payload other = wr_payload request)"
proof -
  have "json_parse (stringify (webhook_body request)) = Some (webhook_body request)"
    using assms(1) by (intro parse_stringify) (simp add: wf_webhook_body)
  then show ?thesis
    using iso_roundtrip [OF assms(2)] signed_text_determines_event [OF _ _ assms]
    by (intro exI [of _ "stringify (webhook_body request)"])
      (simp add: webhook_request_def sign_def Let_def read_delivery_def body_fields)
qed

definition demo_delivery :: WebhookDeliveryRequest where
  "demo_delivery =
     \<lparr>wr_eventId = ''evt-1'', wr_type = ''order.created'', wr_occurredAt = 1758300000123,
      wr_payload = JObj [(''total'', JNum (1999 / 100)), (''items'', JArr [JStr ''a b'', JNull])],
      wr_attemptNumber = 1\<rparr>"

lemma demo_delivery_ok: "wf_json (wr_payload demo_delivery)" "date_range (wr_occurredAt demo_delivery)"
proof -
  have "short_decimal (1999 / 100)" by (rule short_decimalI [where i = "1999 * 10 ^ 18"]) simp
  then show "wf_json (wr_payload demo_delivery)" by (simp add: demo_delivery_def)
  show "date_range (wr_occurredAt demo_delivery)" by (simp add: demo_delivery_def date_range_def)
qed

theorem signed_text_is_the_event_witness:
  "\<exists>text. map_of (hr_headers (webhook_request
        \<lparr>targetUrl = ''http://receiver'', timeoutMs = 5000, signingSecret = ''s''\<rparr> (\<lambda>key t. t) 7 demo_delivery))
      ''X-Webhook-Signature'' = Some (''sha256='' @ text) \<and>
    read_delivery text = Some (''evt-1'', ''order.created'', 1758300000123, wr_payload demo_delivery)"
  using signed_text_is_the_event [OF demo_delivery_ok,
      of "\<lparr>targetUrl = ''http://receiver'', timeoutMs = 5000, signingSecret = ''s''\<rparr>" "\<lambda>key t. t" 7]
  by (elim exE conjE) (auto simp: demo_delivery_def)

end
