(* ===== verification/Responses.thy ===== *)
theory Responses
  imports Schema ReadSide WireFormat
begin

text \<open>
  What crosses the network between the engine and the dashboard. The controllers return objects, Nest
  sends them as JSON, and the client casts what \<open>JSON.parse\<close> gives to the types of
  \<open>apps/client/types/index.ts\<close>. Each type has its JSON and its reading; the locale
  \<open>json_codec\<close> states that a type survives the journey, and is interpreted on every type that makes it.
\<close>

section \<open>Codecs\<close>

locale json_codec =
  fixes enc :: "'a \<Rightarrow> json" and dec :: "json \<Rightarrow> 'a option" and ok :: "'a \<Rightarrow> bool"
  assumes dec_enc: "ok x \<Longrightarrow> dec (enc x) = Some x"
    and wf_enc: "ok x \<Longrightarrow> wf_json (enc x)"
begin

lemma parse_enc: "ok x \<Longrightarrow> json_parse (stringify (enc x)) = Some (enc x)"
  using parse_stringify wf_enc by blast

lemma reads_back: "ok x \<Longrightarrow> Option.bind (json_parse (stringify (enc x))) dec = Some x"
  by (simp add: parse_enc dec_enc)

lemma reads_list: "list_all ok xs \<Longrightarrow> those (map dec (map enc xs)) = Some xs"
  by (induction xs) (simp_all add: dec_enc)

lemma wf_list: "list_all ok xs \<Longrightarrow> list_all wf_json (map enc xs)"
  by (induction xs) (simp_all add: wf_enc)

end

fun text_of :: "json \<Rightarrow> string option" where
  "text_of (JStr s) = Some s"
| "text_of _ = None"

fun number_of :: "json \<Rightarrow> rat option" where
  "number_of (JNum r) = Some r"
| "number_of _ = None"

fun whole_of :: "json \<Rightarrow> int option" where
  "whole_of (JNum r) = (if r = of_int \<lfloor>r\<rfloor> then Some \<lfloor>r\<rfloor> else None)"
| "whole_of _ = None"

fun flag_of :: "json \<Rightarrow> bool option" where
  "flag_of (JBool b) = Some b"
| "flag_of _ = None"

fun items_of :: "(json \<Rightarrow> 'a option) \<Rightarrow> json \<Rightarrow> 'a list option" where
  "items_of dec (JArr js) = those (map dec js)"
| "items_of dec _ = None"

definition null_or :: "(json \<Rightarrow> 'a option) \<Rightarrow> json \<Rightarrow> 'a option option" where
  "null_or dec j = (if j = JNull then Some None else map_option Some (dec j))"

definition count_of_json :: "json \<Rightarrow> nat option" where
  "count_of_json j = map_option nat (whole_of j)"

definition time_of :: "json \<Rightarrow> int option" where
  "time_of j = Option.bind (text_of j) iso_time"

text \<open>A string that names one of some values.\<close>

definition named :: "('a \<Rightarrow> string) \<Rightarrow> 'a list \<Rightarrow> json \<Rightarrow> 'a option" where
  "named name values j = Option.bind (text_of j) (\<lambda>s. find (\<lambda>v. name v = s) values)"

definition field :: "json \<Rightarrow> string \<Rightarrow> (json \<Rightarrow> 'a option) \<Rightarrow> 'a option" where
  "field j key dec = Option.bind (json_field j key) dec"

definition or_null_json :: "('a \<Rightarrow> json) \<Rightarrow> 'a option \<Rightarrow> json" where
  "or_null_json enc x = (case x of None \<Rightarrow> JNull | Some v \<Rightarrow> enc v)"

definition JInt :: "int \<Rightarrow> json" where
  "JInt n = JNum (of_int n)"

lemma field_JObj [simp]: "field (JObj kvs) key dec = Option.bind (map_of kvs key) dec"
  by (simp add: field_def json_field_def)

lemma short_int [simp]: "short_decimal (of_int n)"
  by (rule short_decimalI [where i = "10 ^ 20 * n"]) simp

lemma JInt_simps [simp]: "whole_of (JInt n) = Some n" "wf_json (JInt n)" "JInt n \<noteq> JNull"
  by (simp_all add: JInt_def)

lemma count_JInt [simp]: "count_of_json (JInt (int n)) = Some n"
  by (simp add: count_of_json_def)

lemma null_or_json [simp]:
  "(\<And>v. x = Some v \<Longrightarrow> dec (enc v) = Some v) \<Longrightarrow> (\<And>v. x = Some v \<Longrightarrow> enc v \<noteq> JNull) \<Longrightarrow>
   null_or dec (or_null_json enc x) = Some x"
  by (cases x) (simp_all add: null_or_def or_null_json_def)

lemma wf_or_null [simp]: "wf_json (or_null_json enc x) \<longleftrightarrow> (\<forall>v. x = Some v \<longrightarrow> wf_json (enc v))"
  by (cases x) (simp_all add: or_null_json_def)

lemma time_of_iso [simp]: "date_range t \<Longrightarrow> time_of (JStr (toISOString t)) = Some t"
  by (simp add: time_of_def iso_roundtrip)

lemma bind_Some_eq: "x = Some v \<Longrightarrow> Option.bind x f = f v"
  by simp

section \<open>Names\<close>

definition read_status :: "json \<Rightarrow> DeliveryStatus option" where
  "read_status = named status_name [PENDING, DELIVERING, RETRYING, DELIVERED, DeliveryStatus.FAILED]"

definition read_attempt_status :: "json \<Rightarrow> AttemptStatus option" where
  "read_attempt_status = named attempt_status_name [IN_PROGRESS, SUCCESS, AttemptStatus.FAILED]"

definition read_error_type :: "json \<Rightarrow> DeliveryErrorType option" where
  "read_error_type = named error_type_name
     [HTTP_ERROR, TIMEOUT, CONNECTION_REFUSED, DNS_ERROR, NETWORK_ERROR, WORKER_CRASH, UNKNOWN]"

definition read_event_type :: "json \<Rightarrow> RealtimeEventType option" where
  "read_event_type = named event_type_name
     [EVENT_ACCEPTED, DUPLICATE_EVENT, DELIVERY_STARTED, DELIVERY_SUCCEEDED, DELIVERY_FAILED,
      DELIVERY_RETRY_SCHEDULED, DELIVERY_EXHAUSTED, DELIVERY_RECOVERED, RECEIVER_DELIVERY_RECEIVED,
      RECEIVER_CONFIG_CHANGED]"

definition classification_name :: "FailureClassification \<Rightarrow> string" where
  "classification_name c = (case c of RETRYABLE \<Rightarrow> ''RETRYABLE'' | PERMANENT \<Rightarrow> ''PERMANENT'')"

definition read_classification :: "json \<Rightarrow> FailureClassification option" where
  "read_classification = named classification_name [RETRYABLE, PERMANENT]"

definition read_mode :: "json \<Rightarrow> ReceiverMode option" where
  "read_mode = named mode_name [SUCCESS_mode, FAIL_ONCE, FAIL_ALWAYS]"

lemma names_read [simp]:
  "read_status (JStr (status_name s)) = Some s"
  "read_attempt_status (JStr (attempt_status_name a)) = Some a"
  "read_error_type (JStr (error_type_name e)) = Some e"
  "read_event_type (JStr (event_type_name k)) = Some k"
  "read_classification (JStr (classification_name c)) = Some c"
  "read_mode (JStr (mode_name d)) = Some d"
proof -
  show "read_status (JStr (status_name s)) = Some s" by (cases s) (simp_all add: read_status_def named_def)
  show "read_attempt_status (JStr (attempt_status_name a)) = Some a"
    by (cases a) (simp_all add: read_attempt_status_def named_def attempt_status_name_def)
  show "read_error_type (JStr (error_type_name e)) = Some e" by (cases e) (simp_all add: read_error_type_def named_def)
  show "read_event_type (JStr (event_type_name k)) = Some k" by (cases k) (simp_all add: read_event_type_def named_def)
  show "read_classification (JStr (classification_name c)) = Some c"
    by (cases c) (simp_all add: read_classification_def named_def classification_name_def)
  show "read_mode (JStr (mode_name d)) = Some d" by (cases d) (simp_all add: read_mode_def named_def mode_name_def)
qed

section \<open>Events\<close>

definition last_error_json :: "LastError \<Rightarrow> json" where
  "last_error_json e =
     JObj [(''httpStatus'', or_null_json JInt (le_httpStatus e)),
           (''errorType'', or_null_json (\<lambda>t. JStr (error_type_name t)) (le_errorType e)),
           (''message'', or_null_json JStr (le_message e))]"

definition read_last_error :: "json \<Rightarrow> LastError option" where
  "read_last_error j =
     Option.bind (field j ''httpStatus'' (null_or whole_of)) (\<lambda>httpStatus.
     Option.bind (field j ''errorType'' (null_or read_error_type)) (\<lambda>errorType.
     Option.bind (field j ''message'' (null_or text_of)) (\<lambda>message.
     Some \<lparr>le_httpStatus = httpStatus, le_errorType = errorType, le_message = message\<rparr>)))"

lemma last_error_reads [simp]:
  "read_last_error (last_error_json e) = Some e" "wf_json (last_error_json e)" "last_error_json e \<noteq> JNull"
  by (simp_all add: read_last_error_def last_error_json_def)

definition summary_fields :: "EventSummary \<Rightarrow> (string \<times> json) list" where
  "summary_fields s =
     [(''eventId'', JStr (es_eventId s)), (''type'', JStr (es_type s)),
      (''status'', JStr (status_name (es_status s))), (''occurredAt'', JStr (es_occurredAt s)),
      (''createdAt'', JStr (es_createdAt s)), (''updatedAt'', JStr (es_updatedAt s)),
      (''attemptCount'', JInt (es_attemptCount s)), (''maxAttempts'', JNum (es_maxAttempts s)),
      (''nextAttemptAt'', or_null_json JStr (es_nextAttemptAt s)),
      (''lastError'', or_null_json last_error_json (es_lastError s))]"

definition summary_json :: "EventSummary \<Rightarrow> json" where
  "summary_json s = JObj (summary_fields s)"

definition read_summary :: "json \<Rightarrow> EventSummary option" where
  "read_summary j =
     Option.bind (field j ''eventId'' text_of) (\<lambda>eventId.
     Option.bind (field j ''type'' text_of) (\<lambda>kind.
     Option.bind (field j ''status'' read_status) (\<lambda>status.
     Option.bind (field j ''occurredAt'' text_of) (\<lambda>occurredAt.
     Option.bind (field j ''createdAt'' text_of) (\<lambda>createdAt.
     Option.bind (field j ''updatedAt'' text_of) (\<lambda>updatedAt.
     Option.bind (field j ''attemptCount'' whole_of) (\<lambda>attemptCount.
     Option.bind (field j ''maxAttempts'' number_of) (\<lambda>maxAttempts.
     Option.bind (field j ''nextAttemptAt'' (null_or text_of)) (\<lambda>nextAttemptAt.
     Option.bind (field j ''lastError'' (null_or read_last_error)) (\<lambda>lastError.
     Some \<lparr>es_eventId = eventId, es_type = kind, es_status = status, es_occurredAt = occurredAt,
           es_createdAt = createdAt, es_updatedAt = updatedAt, es_attemptCount = attemptCount,
           es_maxAttempts = maxAttempts, es_nextAttemptAt = nextAttemptAt, es_lastError = lastError\<rparr>))))))))))"

definition summary_ok :: "EventSummary \<Rightarrow> bool" where
  "summary_ok s \<longleftrightarrow> short_decimal (es_maxAttempts s)"

lemma summary_fields_read:
  "read_summary (JObj (summary_fields s @ rest)) = Some s"
  by (simp add: read_summary_def summary_fields_def)

interpretation summary: json_codec summary_json read_summary summary_ok
proof
  fix s assume "summary_ok s"
  then show "wf_json (summary_json s)"
    by (simp add: summary_json_def summary_fields_def summary_ok_def)
  show "read_summary (summary_json s) = Some s"
    using summary_fields_read [of s "[]"] by (simp add: summary_json_def)
qed

text \<open>\<open>GET /events\<close>: a page with the total.\<close>

definition page_json :: "EventSummary list \<times> nat \<Rightarrow> json" where
  "page_json r = JObj [(''total'', JInt (int (snd r))), (''items'', JArr (map summary_json (fst r)))]"

definition read_page :: "json \<Rightarrow> (EventSummary list \<times> nat) option" where
  "read_page j =
     Option.bind (field j ''items'' (items_of read_summary)) (\<lambda>items.
     Option.bind (field j ''total'' count_of_json) (\<lambda>total. Some (items, total)))"

interpretation page: json_codec page_json read_page "\<lambda>r. list_all summary_ok (fst r)"
  by unfold_locales
     (simp_all add: page_json_def read_page_def summary.reads_list summary.wf_list del: map_map)

section \<open>Attempts and details\<close>

definition attempt_json :: "attempt_row \<Rightarrow> json" where
  "attempt_json a =
     JObj [(''id'', JStr (ar_id a)), (''eventId'', JStr (ar_eventId a)), (''attemptNumber'', JInt (ar_attemptNumber a)),
           (''startedAt'', JStr (toISOString (ar_startedAt a))),
           (''completedAt'', or_null_json (\<lambda>t. JStr (toISOString t)) (ar_completedAt a)),
           (''status'', JStr (attempt_status_name (ar_status a))), (''httpStatus'', or_null_json JInt (ar_httpStatus a)),
           (''errorType'', or_null_json (\<lambda>t. JStr (error_type_name t)) (ar_errorType a)),
           (''errorMessage'', or_null_json JStr (ar_errorMessage a)),
           (''createdAt'', JStr (toISOString (ar_createdAt a)))]"

definition read_attempt :: "json \<Rightarrow> attempt_row option" where
  "read_attempt j =
     Option.bind (field j ''id'' text_of) (\<lambda>key.
     Option.bind (field j ''eventId'' text_of) (\<lambda>eventId.
     Option.bind (field j ''attemptNumber'' whole_of) (\<lambda>attemptNumber.
     Option.bind (field j ''startedAt'' time_of) (\<lambda>startedAt.
     Option.bind (field j ''completedAt'' (null_or time_of)) (\<lambda>completedAt.
     Option.bind (field j ''status'' read_attempt_status) (\<lambda>status.
     Option.bind (field j ''httpStatus'' (null_or whole_of)) (\<lambda>httpStatus.
     Option.bind (field j ''errorType'' (null_or read_error_type)) (\<lambda>errorType.
     Option.bind (field j ''errorMessage'' (null_or text_of)) (\<lambda>errorMessage.
     Option.bind (field j ''createdAt'' time_of) (\<lambda>createdAt.
     Some \<lparr>ar_id = key, ar_eventId = eventId, ar_attemptNumber = attemptNumber, ar_startedAt = startedAt,
           ar_completedAt = completedAt, ar_status = status, ar_httpStatus = httpStatus,
           ar_errorType = errorType, ar_errorMessage = errorMessage, ar_createdAt = createdAt\<rparr>))))))))))"

definition attempt_times_ok :: "attempt_row \<Rightarrow> bool" where
  "attempt_times_ok a \<longleftrightarrow>
     date_range (ar_startedAt a) \<and> date_range (ar_createdAt a) \<and> (\<forall>t. ar_completedAt a = Some t \<longrightarrow> date_range t)"

interpretation attempt: json_codec attempt_json read_attempt attempt_times_ok
  by unfold_locales (simp_all add: attempt_json_def read_attempt_def attempt_times_ok_def)

definition detail_json :: "EventDetail \<Rightarrow> json" where
  "detail_json d =
     JObj (summary_fields (EventSummary.truncate d) @
       [(''payload'', ed_payload d), (''attempts'', JArr (map attempt_json (ed_attempts d))),
        (''attemptsRemaining'', JNum (ed_attemptsRemaining d))])"

definition read_detail :: "json \<Rightarrow> EventDetail option" where
  "read_detail j =
     Option.bind (read_summary j) (\<lambda>s.
     Option.bind (field j ''payload'' Some) (\<lambda>payload.
     Option.bind (field j ''attempts'' (items_of read_attempt)) (\<lambda>attempts.
     Option.bind (field j ''attemptsRemaining'' number_of) (\<lambda>remaining.
     Some (EventSummary.extend s
       \<lparr>ed_payload = payload, ed_attempts = attempts, ed_attemptsRemaining = remaining\<rparr>)))))"

definition detail_ok :: "EventDetail \<Rightarrow> bool" where
  "detail_ok d \<longleftrightarrow>
     summary_ok (EventSummary.truncate d) \<and> wf_json (ed_payload d) \<and> list_all attempt_times_ok (ed_attempts d) \<and>
     short_decimal (ed_attemptsRemaining d)"

lemma detail_rebuilt:
  fixes d :: EventDetail
  shows "EventSummary.extend (EventSummary.truncate d)
    \<lparr>ed_payload = ed_payload d, ed_attempts = ed_attempts d, ed_attemptsRemaining = ed_attemptsRemaining d\<rparr> = d"
  by (cases d) (simp add: EventSummary.defs)

interpretation detail: json_codec detail_json read_detail detail_ok
proof
  fix d assume ok: "detail_ok d"
  have "field (detail_json d) ''payload'' Some = Some (ed_payload d)"
    "field (detail_json d) ''attemptsRemaining'' number_of = Some (ed_attemptsRemaining d)"
    by (simp_all add: detail_json_def summary_fields_def)
  moreover have "field (detail_json d) ''attempts'' (items_of read_attempt) = Some (ed_attempts d)"
    using ok by (simp add: detail_json_def summary_fields_def attempt.reads_list detail_ok_def del: map_map)
  moreover have "read_summary (detail_json d) = Some (EventSummary.truncate d)"
    unfolding detail_json_def by (rule summary_fields_read)
  ultimately show "read_detail (detail_json d) = Some d" by (simp add: read_detail_def detail_rebuilt)
  show "wf_json (detail_json d)"
    using ok by (simp add: detail_json_def summary_fields_def detail_ok_def summary_ok_def attempt.wf_list)
qed

section \<open>Submissions and the receiver\<close>

definition ingest_json :: "CreateResponse \<Rightarrow> json" where
  "ingest_json r =
     JObj [(''accepted'', JBool (cr_accepted r)), (''duplicate'', JBool (cr_duplicate r)),
           (''eventId'', JStr (cr_eventId r)), (''status'', JStr (status_name (cr_status r))),
           (''message'', JStr (cr_message r))]"

definition read_ingest :: "json \<Rightarrow> CreateResponse option" where
  "read_ingest j =
     Option.bind (field j ''accepted'' flag_of) (\<lambda>accepted.
     Option.bind (field j ''duplicate'' flag_of) (\<lambda>duplicate.
     Option.bind (field j ''eventId'' text_of) (\<lambda>eventId.
     Option.bind (field j ''status'' read_status) (\<lambda>status.
     Option.bind (field j ''message'' text_of) (\<lambda>message.
     Some \<lparr>cr_accepted = accepted, cr_duplicate = duplicate, cr_eventId = eventId, cr_status = status,
           cr_message = message\<rparr>)))))"

interpretation ingest: json_codec ingest_json read_ingest "\<lambda>_. True"
  by unfold_locales (simp_all add: ingest_json_def read_ingest_def)

text \<open>An object whose \<open>undefined\<close> members are left out, as \<open>JSON.stringify\<close> does; they are undefined again where it is read.\<close>

definition present :: "(string \<times> json option) list \<Rightarrow> (string \<times> json) list" where
  "present kvs = List.map_filter (\<lambda>(k, v). map_option (Pair k) v) kvs"

definition optional :: "json \<Rightarrow> string \<Rightarrow> (json \<Rightarrow> 'a option) \<Rightarrow> 'a option option" where
  "optional j key dec =
     (case json_field j key of None \<Rightarrow> Some None | Some v \<Rightarrow> map_option Some (dec v))"

lemma present_simps [simp]:
  "present [] = []" "present ((k, Some v) # kvs) = (k, v) # present kvs" "present ((k, None) # kvs) = present kvs"
  by (simp_all add: present_def map_filter_simps)

lemma present_keys: "fst ` set (present kvs) \<subseteq> fst ` set kvs"
proof (induction kvs)
  case (Cons a kvs)
  then show ?case by (cases a; cases "snd a") auto
qed simp

lemma present_distinct: "distinct (map fst kvs) \<Longrightarrow> distinct (map fst (present kvs))"
proof (induction kvs)
  case (Cons a kvs)
  then show ?case using present_keys [of kvs] by (cases a; cases "snd a") auto
qed simp

lemma present_lookup:
  "distinct (map fst kvs) \<Longrightarrow> map_of (present kvs) k = Option.bind (map_of kvs k) (\<lambda>v. v)"
proof (induction kvs)
  case (Cons a kvs)
  have "k \<notin> fst ` set kvs \<Longrightarrow> map_of (present kvs) k = None"
    using present_keys [of kvs] by (auto simp: map_of_eq_None_iff)
  with Cons show ?case by (cases a; cases "snd a") (auto simp: map_of_eq_None_iff)
qed simp

lemma wf_present:
  "wf_json (JObj (present kvs))" if "distinct (map fst kvs)" "list_all (\<lambda>(k, v). \<forall>j. v = Some j \<longrightarrow> wf_json j) kvs"
proof -
  have "list_all (\<lambda>(k, j). wf_json j) (present kvs)"
    using that(2)
  proof (induction kvs)
    case (Cons a kvs)
    then show ?case by (cases a; cases "snd a") auto
  qed simp
  with present_distinct [OF that(1)] show ?thesis by simp
qed

text \<open>A member that is read as it was written.\<close>

lemma optional_present:
  assumes "distinct (map fst kvs)" and "map_of kvs key = Some (map_option enc x)"
    and "\<And>v. x = Some v \<Longrightarrow> dec (enc v) = Some v"
  shows "optional (JObj (present kvs)) key dec = Some x"
  using assms by (cases x) (simp_all add: optional_def json_field_def present_lookup)

lemma field_present:
  assumes "distinct (map fst kvs)" and "map_of kvs key = Some (Some j)"
  shows "field (JObj (present kvs)) key dec = dec j"
  using assms by (simp add: present_lookup)

definition config_members :: "ReceiverConfig \<Rightarrow> (string \<times> json option) list" where
  "config_members c =
     [(''mode'', map_option (\<lambda>m. JStr (mode_name m)) (rc_mode c)),
      (''failureStatus'', map_option JInt (rc_failureStatus c)), (''latencyMs'', map_option JInt (rc_latencyMs c))]"

definition config_json :: "ReceiverConfig \<Rightarrow> json" where
  "config_json c = JObj (present (config_members c))"

definition read_config :: "json \<Rightarrow> ReceiverConfig option" where
  "read_config j =
     Option.bind (optional j ''mode'' read_mode) (\<lambda>mode.
     Option.bind (optional j ''failureStatus'' whole_of) (\<lambda>failureStatus.
     Option.bind (optional j ''latencyMs'' whole_of) (\<lambda>latencyMs.
     Some \<lparr>rc_mode = mode, rc_failureStatus = failureStatus, rc_latencyMs = latencyMs\<rparr>)))"

lemma config_members_distinct: "distinct (map fst (config_members c))"
  by (simp add: config_members_def)

interpretation config: json_codec config_json read_config "\<lambda>_. True"
proof
  fix c :: ReceiverConfig
  have "optional (config_json c) ''mode'' read_mode = Some (rc_mode c)"
    unfolding config_json_def by (rule optional_present [OF config_members_distinct], simp add: config_members_def, simp)
  moreover have "optional (config_json c) ''failureStatus'' whole_of = Some (rc_failureStatus c)"
    unfolding config_json_def by (rule optional_present [OF config_members_distinct], simp add: config_members_def, simp)
  moreover have "optional (config_json c) ''latencyMs'' whole_of = Some (rc_latencyMs c)"
    unfolding config_json_def by (rule optional_present [OF config_members_distinct], simp add: config_members_def, simp)
  ultimately show "read_config (config_json c) = Some c" by (simp add: read_config_def)
  show "wf_json (config_json c)"
    unfolding config_json_def by (rule wf_present [OF config_members_distinct]) (auto simp: config_members_def)
qed

definition receiver_stats_json :: "ReceiverStats \<Rightarrow> json" where
  "receiver_stats_json r =
     JObj [(''totalReceived'', JInt (int (rs_totalReceived r))), (''uniqueEvents'', JInt (int (rs_uniqueEvents r))),
           (''duplicateDeliveries'', JInt (int (rs_duplicateDeliveries r))),
           (''lastReceivedAt'', or_null_json JStr (rs_lastReceivedAt r))]"

definition read_receiver_stats :: "json \<Rightarrow> ReceiverStats option" where
  "read_receiver_stats j =
     Option.bind (field j ''totalReceived'' count_of_json) (\<lambda>received.
     Option.bind (field j ''uniqueEvents'' count_of_json) (\<lambda>unique.
     Option.bind (field j ''duplicateDeliveries'' count_of_json) (\<lambda>duplicates.
     Option.bind (field j ''lastReceivedAt'' (null_or text_of)) (\<lambda>lastAt.
     Some \<lparr>rs_totalReceived = received, rs_uniqueEvents = unique, rs_duplicateDeliveries = duplicates,
           rs_lastReceivedAt = lastAt\<rparr>))))"

interpretation receiver_stats: json_codec receiver_stats_json read_receiver_stats "\<lambda>_. True"
  by unfold_locales (simp_all add: receiver_stats_json_def read_receiver_stats_def)

definition receiver_json :: "ReceiverConfig \<times> ReceiverStats \<Rightarrow> json" where
  "receiver_json r = JObj [(''config'', config_json (fst r)), (''stats'', receiver_stats_json (snd r))]"

definition read_receiver :: "json \<Rightarrow> (ReceiverConfig \<times> ReceiverStats) option" where
  "read_receiver j =
     Option.bind (field j ''config'' read_config) (\<lambda>c.
     Option.bind (field j ''stats'' read_receiver_stats) (\<lambda>r. Some (c, r)))"

interpretation receiver: json_codec receiver_json read_receiver "\<lambda>_. True"
  by unfold_locales
     (simp_all add: receiver_json_def read_receiver_def config.dec_enc config.wf_enc receiver_stats.dec_enc receiver_stats.wf_enc)

section \<open>Realtime events\<close>

text \<open>A number that is not finite becomes \<open>null\<close>, and is no number where it is read.\<close>

definition jsnum_json :: "jsnum \<Rightarrow> json" where
  "jsnum_json n = (case n of Fin r \<Rightarrow> JNum r | _ \<Rightarrow> JNull)"

definition read_jsnum :: "json \<Rightarrow> jsnum option" where
  "read_jsnum j = map_option Fin (number_of j)"

definition realtime_members :: "RealtimeEvent \<Rightarrow> (string \<times> json option) list" where
  "realtime_members e =
     [(''type'', Some (JStr (event_type_name (re_type e)))),
      (''eventId'', Some (JStr (re_eventId e))),
      (''message'', Some (JStr (re_message e))),
      (''emittedAt'', map_option JStr (re_emittedAt e)),
      (''status'', map_option (\<lambda>s. JStr (status_name s)) (re_status e)),
      (''eventType'', map_option JStr (re_eventType e)),
      (''attemptNumber'', map_option jsnum_json (re_attemptNumber e)),
      (''maxAttempts'', map_option JNum (re_maxAttempts e)),
      (''httpStatus'', map_option (or_null_json JInt) (re_httpStatus e)),
      (''errorType'', map_option (or_null_json (\<lambda>t. JStr (error_type_name t))) (re_errorType e)),
      (''errorMessage'', map_option (or_null_json JStr) (re_errorMessage e)),
      (''classification'', map_option (\<lambda>c. JStr (classification_name c)) (re_classification e)),
      (''nextAttemptAt'', map_option (or_null_json JStr) (re_nextAttemptAt e)),
      (''attemptsRemaining'', map_option JNum (re_attemptsRemaining e)),
      (''durationMs'', map_option JInt (re_durationMs e)),
      (''duplicate'', map_option JBool (re_duplicate e))]"

definition realtime_json :: "RealtimeEvent \<Rightarrow> json" where
  "realtime_json e = JObj (present (realtime_members e))"

definition read_realtime :: "json \<Rightarrow> RealtimeEvent option" where
  "read_realtime j =
     Option.bind (field j ''type'' read_event_type) (\<lambda>kind.
     Option.bind (field j ''eventId'' text_of) (\<lambda>eventId.
     Option.bind (field j ''message'' text_of) (\<lambda>message.
     Option.bind (optional j ''emittedAt'' text_of) (\<lambda>emittedAt.
     Option.bind (optional j ''status'' read_status) (\<lambda>status.
     Option.bind (optional j ''eventType'' text_of) (\<lambda>eventType.
     Option.bind (optional j ''attemptNumber'' read_jsnum) (\<lambda>attemptNumber.
     Option.bind (optional j ''maxAttempts'' number_of) (\<lambda>maxAttempts.
     Option.bind (optional j ''httpStatus'' (null_or whole_of)) (\<lambda>httpStatus.
     Option.bind (optional j ''errorType'' (null_or read_error_type)) (\<lambda>errorType.
     Option.bind (optional j ''errorMessage'' (null_or text_of)) (\<lambda>errorMessage.
     Option.bind (optional j ''classification'' read_classification) (\<lambda>classification.
     Option.bind (optional j ''nextAttemptAt'' (null_or text_of)) (\<lambda>nextAttemptAt.
     Option.bind (optional j ''attemptsRemaining'' number_of) (\<lambda>attemptsRemaining.
     Option.bind (optional j ''durationMs'' whole_of) (\<lambda>durationMs.
     Option.bind (optional j ''duplicate'' flag_of) (\<lambda>duplicate.
     Some \<lparr>re_type = kind, re_eventId = eventId, re_message = message, re_emittedAt = emittedAt, re_status = status,
           re_eventType = eventType, re_attemptNumber = attemptNumber, re_maxAttempts = maxAttempts,
           re_httpStatus = httpStatus, re_errorType = errorType, re_errorMessage = errorMessage,
           re_classification = classification, re_nextAttemptAt = nextAttemptAt,
           re_attemptsRemaining = attemptsRemaining, re_durationMs = durationMs, re_duplicate = duplicate\<rparr>))))))))))))))))"

definition realtime_ok :: "RealtimeEvent \<Rightarrow> bool" where
  "realtime_ok e \<longleftrightarrow>
     (case re_attemptNumber e of None \<Rightarrow> True | Some (Fin r) \<Rightarrow> short_decimal r | Some _ \<Rightarrow> False) \<and>
     (case re_maxAttempts e of None \<Rightarrow> True | Some r \<Rightarrow> short_decimal r) \<and>
     (case re_attemptsRemaining e of None \<Rightarrow> True | Some r \<Rightarrow> short_decimal r)"

lemma realtime_members_distinct: "distinct (map fst (realtime_members e))"
  by (simp add: realtime_members_def)

lemmas realtime_optional = optional_present [OF realtime_members_distinct]
  and realtime_field = field_present [OF realtime_members_distinct]

lemma realtime_lookup:
  "map_of (realtime_members e) ''type'' = Some (Some (JStr (event_type_name (re_type e))))"
  "map_of (realtime_members e) ''eventId'' = Some (Some (JStr (re_eventId e)))"
  "map_of (realtime_members e) ''message'' = Some (Some (JStr (re_message e)))"
  "map_of (realtime_members e) ''emittedAt'' = Some (map_option JStr (re_emittedAt e))"
  "map_of (realtime_members e) ''status'' = Some (map_option (\<lambda>s. JStr (status_name s)) (re_status e))"
  "map_of (realtime_members e) ''eventType'' = Some (map_option JStr (re_eventType e))"
  "map_of (realtime_members e) ''attemptNumber'' = Some (map_option jsnum_json (re_attemptNumber e))"
  "map_of (realtime_members e) ''maxAttempts'' = Some (map_option JNum (re_maxAttempts e))"
  "map_of (realtime_members e) ''httpStatus'' = Some (map_option (or_null_json JInt) (re_httpStatus e))"
  "map_of (realtime_members e) ''errorType'' =
     Some (map_option (or_null_json (\<lambda>t. JStr (error_type_name t))) (re_errorType e))"
  "map_of (realtime_members e) ''errorMessage'' = Some (map_option (or_null_json JStr) (re_errorMessage e))"
  "map_of (realtime_members e) ''classification'' =
     Some (map_option (\<lambda>c. JStr (classification_name c)) (re_classification e))"
  "map_of (realtime_members e) ''nextAttemptAt'' = Some (map_option (or_null_json JStr) (re_nextAttemptAt e))"
  "map_of (realtime_members e) ''attemptsRemaining'' = Some (map_option JNum (re_attemptsRemaining e))"
  "map_of (realtime_members e) ''durationMs'' = Some (map_option JInt (re_durationMs e))"
  "map_of (realtime_members e) ''duplicate'' = Some (map_option JBool (re_duplicate e))"
  by (simp_all add: realtime_members_def)

interpretation realtime: json_codec realtime_json read_realtime realtime_ok
proof
  fix e assume ok: "realtime_ok e"
  have n: "read_jsnum (jsnum_json v) = Some v" if "re_attemptNumber e = Some v" for v
    using ok that by (cases v) (simp_all add: realtime_ok_def read_jsnum_def jsnum_json_def)
  show "read_realtime (realtime_json e) = Some e"
    unfolding read_realtime_def realtime_json_def
    by (simp add: realtime_field [OF realtime_lookup(1)] realtime_field [OF realtime_lookup(2)]
        realtime_field [OF realtime_lookup(3)] realtime_optional [OF realtime_lookup(4)]
        realtime_optional [OF realtime_lookup(5)] realtime_optional [OF realtime_lookup(6)]
        realtime_optional [OF realtime_lookup(7), OF n] realtime_optional [OF realtime_lookup(8)]
        realtime_optional [OF realtime_lookup(9)] realtime_optional [OF realtime_lookup(10)]
        realtime_optional [OF realtime_lookup(11)] realtime_optional [OF realtime_lookup(12)]
        realtime_optional [OF realtime_lookup(13)] realtime_optional [OF realtime_lookup(14)]
        realtime_optional [OF realtime_lookup(15)] realtime_optional [OF realtime_lookup(16)]
        del: field_JObj)
  have n': "\<And>v. re_attemptNumber e = Some v \<Longrightarrow> wf_json (jsnum_json v)"
    "\<And>v. re_maxAttempts e = Some v \<Longrightarrow> short_decimal v"
    "\<And>v. re_attemptsRemaining e = Some v \<Longrightarrow> short_decimal v"
    using ok by (auto simp: realtime_ok_def jsnum_json_def split: jsnum.splits)
  show "wf_json (realtime_json e)"
    unfolding realtime_json_def
    by (rule wf_present [OF realtime_members_distinct])
      (use n' in \<open>auto simp: realtime_members_def\<close>)
qed

section \<open>Statistics\<close>

definition counts_json :: "(string \<times> int) list \<Rightarrow> json" where
  "counts_json kvs = JObj (map (\<lambda>(k, n). (k, JInt n)) kvs)"

fun read_counts :: "json \<Rightarrow> (string \<times> int) list option" where
  "read_counts (JObj kvs) = those (map (\<lambda>(k, j). map_option (Pair k) (whole_of j)) kvs)"
| "read_counts _ = None"

lemma those_Some [simp]: "those (map Some xs) = Some xs"
  by (induction xs) simp_all

lemma counts_read [simp]:
  "read_counts (counts_json kvs) = Some kvs" "wf_json (counts_json kvs) \<longleftrightarrow> distinct (map fst kvs)"
proof -
  show "read_counts (counts_json kvs) = Some kvs"
    by (simp add: counts_json_def comp_def split_def those_Some)
  have "map (fst \<circ> (\<lambda>p. (fst p, JInt (snd p)))) kvs = map fst kvs" by simp
  then show "wf_json (counts_json kvs) \<longleftrightarrow> distinct (map fst kvs)"
    by (simp add: counts_json_def split_def comp_def list_all_iff)
qed

definition totals_json :: "StatusTotals \<Rightarrow> json" where
  "totals_json t =
     JObj [(''events'', JInt (int (st_events t))), (''pending'', JInt (int (st_pending t))),
           (''delivering'', JInt (int (st_delivering t))), (''retrying'', JInt (int (st_retrying t))),
           (''delivered'', JInt (int (st_delivered t))), (''failed'', JInt (int (st_failed t)))]"

definition read_totals :: "json \<Rightarrow> StatusTotals option" where
  "read_totals j =
     Option.bind (field j ''events'' count_of_json) (\<lambda>events.
     Option.bind (field j ''pending'' count_of_json) (\<lambda>pending.
     Option.bind (field j ''delivering'' count_of_json) (\<lambda>delivering.
     Option.bind (field j ''retrying'' count_of_json) (\<lambda>retrying.
     Option.bind (field j ''delivered'' count_of_json) (\<lambda>delivered.
     Option.bind (field j ''failed'' count_of_json) (\<lambda>failed.
     Some \<lparr>st_events = events, st_pending = pending, st_delivering = delivering, st_retrying = retrying,
           st_delivered = delivered, st_failed = failed\<rparr>))))))"

definition attempt_totals_json :: "AttemptTotals \<Rightarrow> json" where
  "attempt_totals_json t =
     JObj [(''total'', JInt (int (at_total t))), (''succeeded'', JInt (int (at_succeeded t))),
           (''failed'', JInt (int (at_failed t))), (''inProgress'', JInt (int (at_inProgress t))),
           (''averagePerEvent'', JNum (at_averagePerEvent t))]"

definition read_attempt_totals :: "json \<Rightarrow> AttemptTotals option" where
  "read_attempt_totals j =
     Option.bind (field j ''total'' count_of_json) (\<lambda>all.
     Option.bind (field j ''succeeded'' count_of_json) (\<lambda>succeeded.
     Option.bind (field j ''failed'' count_of_json) (\<lambda>failed.
     Option.bind (field j ''inProgress'' count_of_json) (\<lambda>inProgress.
     Option.bind (field j ''averagePerEvent'' number_of) (\<lambda>averagePerEvent.
     Some \<lparr>at_total = all, at_succeeded = succeeded, at_failed = failed, at_inProgress = inProgress,
           at_averagePerEvent = averagePerEvent\<rparr>)))))"

definition figures_json :: "DeliveryFigures \<Rightarrow> json" where
  "figures_json f =
     JObj [(''maxAttempts'', JNum (df_maxAttempts f)),
           (''averageDeliveryLatencyMs'', or_null_json JInt (df_averageDeliveryLatencyMs f)),
           (''averageAttemptDurationMs'', or_null_json JInt (df_averageAttemptDurationMs f)),
           (''averageWorkerTickMs'', or_null_json JInt (df_averageWorkerTickMs f)),
           (''successRate'', or_null_json JNum (df_successRate f))]"

definition read_figures :: "json \<Rightarrow> DeliveryFigures option" where
  "read_figures j =
     Option.bind (field j ''maxAttempts'' number_of) (\<lambda>maxAttempts.
     Option.bind (field j ''averageDeliveryLatencyMs'' (null_or whole_of)) (\<lambda>latency.
     Option.bind (field j ''averageAttemptDurationMs'' (null_or whole_of)) (\<lambda>duration.
     Option.bind (field j ''averageWorkerTickMs'' (null_or whole_of)) (\<lambda>tick.
     Option.bind (field j ''successRate'' (null_or number_of)) (\<lambda>rate.
     Some \<lparr>df_maxAttempts = maxAttempts, df_averageDeliveryLatencyMs = latency,
           df_averageAttemptDurationMs = duration, df_averageWorkerTickMs = tick, df_successRate = rate\<rparr>)))))"

definition stats_json :: "DashboardStats \<Rightarrow> json" where
  "stats_json d =
     JObj [(''totals'', totals_json (ds_totals d)), (''attempts'', attempt_totals_json (ds_attempts d)),
           (''delivery'', figures_json (ds_delivery d)),
           (''httpStatusDistribution'', counts_json (ds_httpStatusDistribution d)),
           (''counters'', counts_json (ds_counters d)),
           (''realtime'', JObj [(''connectedClients'', JInt (ds_connectedClients d))]),
           (''generatedAt'', JStr (ds_generatedAt d))]"

definition read_stats :: "json \<Rightarrow> DashboardStats option" where
  "read_stats j =
     Option.bind (field j ''totals'' read_totals) (\<lambda>totals.
     Option.bind (field j ''attempts'' read_attempt_totals) (\<lambda>attempts.
     Option.bind (field j ''delivery'' read_figures) (\<lambda>delivery.
     Option.bind (field j ''httpStatusDistribution'' read_counts) (\<lambda>distribution.
     Option.bind (field j ''counters'' read_counts) (\<lambda>counters.
     Option.bind (field j ''realtime'' (\<lambda>r. field r ''connectedClients'' whole_of)) (\<lambda>clients.
     Option.bind (field j ''generatedAt'' text_of) (\<lambda>generatedAt.
     Some \<lparr>ds_totals = totals, ds_attempts = attempts, ds_delivery = delivery,
           ds_httpStatusDistribution = distribution, ds_counters = counters, ds_connectedClients = clients,
           ds_generatedAt = generatedAt\<rparr>)))))))"

definition stats_ok :: "DashboardStats \<Rightarrow> bool" where
  "stats_ok d \<longleftrightarrow>
     short_decimal (at_averagePerEvent (ds_attempts d)) \<and> short_decimal (df_maxAttempts (ds_delivery d)) \<and>
     (\<forall>r. df_successRate (ds_delivery d) = Some r \<longrightarrow> short_decimal r) \<and>
     distinct (map fst (ds_httpStatusDistribution d)) \<and> distinct (map fst (ds_counters d))"

lemma totals_read [simp]: "read_totals (totals_json t) = Some t" "wf_json (totals_json t)"
  by (simp_all add: read_totals_def totals_json_def)

lemma attempt_totals_read [simp]:
  "read_attempt_totals (attempt_totals_json t) = Some t"
  "wf_json (attempt_totals_json t) \<longleftrightarrow> short_decimal (at_averagePerEvent t)"
  by (simp_all add: read_attempt_totals_def attempt_totals_json_def)

lemma figures_read [simp]:
  "read_figures (figures_json f) = Some f"
  "wf_json (figures_json f) \<longleftrightarrow>
     short_decimal (df_maxAttempts f) \<and> (\<forall>r. df_successRate f = Some r \<longrightarrow> short_decimal r)"
  by (simp_all add: read_figures_def figures_json_def)

interpretation stats: json_codec stats_json read_stats stats_ok
proof
  fix d assume ok: "stats_ok d"
  show "read_stats (stats_json d) = Some d" by (simp add: read_stats_def stats_json_def)
  show "wf_json (stats_json d)" using ok by (simp add: stats_json_def stats_ok_def)
qed

end
