(* ===== verification/Http.thy ===== *)
theory Http
  imports Responses
begin

text \<open>
  The read path from end to end: the client's \<open>api.events\<close>, \<open>api.event\<close>, \<open>api.stats\<close> and
  \<open>api.receiver\<close> against the engine's controllers. Nest and \<open>fetch\<close> are a parameter; what is relied on is
  \<open>answers_reads\<close>: a GET of a route runs the handler the decorators name and sends its value as
  JSON, a \<open>NotFoundException\<close> as a 404, any other as a 500.
\<close>

section \<open>The client's calls\<close>

definition api_stats where
  "api_stats processEnv fetch = call processEnv fetch stats_path ''GET'' None"

definition api_events where
  "api_events processEnv fetch limit =
     call processEnv fetch (events_path (coalesce limit 50)) ''GET'' None"

definition api_event where
  "api_event processEnv fetch eventId = call processEnv fetch (event_path eventId) ''GET'' None"

definition api_receiver where
  "api_receiver processEnv fetch = call processEnv fetch ''/test-receiver/config'' ''GET'' None"

section \<open>What the engine answers\<close>

definition error_status :: "exn \<Rightarrow> int \<times> string \<times> string" where
  "error_status e =
     (case e of
        NotFoundException m \<Rightarrow> (404, ''Not Found'', m)
      | _ \<Rightarrow> (500, ''Internal Server Error'', ''Internal server error''))"

definition error_body :: "exn \<Rightarrow> string" where
  "error_body e =
     (case error_status e of (status, reason, m) \<Rightarrow>
        stringify (JObj [(''message'', JStr m), (''error'', JStr reason), (''statusCode'', JInt status)]))"

definition reply_to :: "('a \<Rightarrow> json) \<Rightarrow> exn + 'a \<Rightarrow> fetch_response" where
  "reply_to enc result =
     (let text = (case result of Inl e \<Rightarrow> error_body e | Inr x \<Rightarrow> stringify (enc x));
          line = (case result of Inl e \<Rightarrow> (fst (error_status e), fst (snd (error_status e))) | Inr _ \<Rightarrow> (200, ''OK''))
      in \<lparr>fr_ok = (\<not> isl result), fr_status = fst line, fr_statusText = snd line, fr_text = Inr text,
          fr_json = (case json_parse text of None \<Rightarrow> Inl ''SyntaxError'' | Some j \<Rightarrow> Inr j)\<rparr>)"

text \<open>One segment of a path: not empty, no separator in it, and not one that a URL resolves away.\<close>

definition one_segment :: "string \<Rightarrow> bool" where
  "one_segment s \<longleftrightarrow> s \<noteq> [] \<and> set s \<inter> {CHR ''/'', CHR ''?'', CHR ''#''} = {} \<and> s \<noteq> ''.'' \<and> s \<noteq> ''..''"

text \<open>The handlers the routes name: \<open>events.controller.ts\<close>, \<open>dashboard.controller.ts\<close>, \<open>test-receiver.controller.ts\<close>.\<close>

definition events_controller_list :: "env \<Rightarrow> nat \<Rightarrow> (EventSummary list \<times> nat) io" where
  "events_controller_list env limit = list_events env (list_query None None (Some limit) None)"

definition events_controller_findOne :: "env \<Rightarrow> string \<Rightarrow> EventDetail io" where
  "events_controller_findOne env eventId = findOne env eventId"

definition dashboard_controller_getStats :: "env \<Rightarrow> DashboardStats io" where
  "dashboard_controller_getStats env = getStats env"

definition answers_reads ::
  "env \<Rightarrow> world \<Rightarrow> (string \<rightharpoonup> string) \<Rightarrow> (string \<Rightarrow> fetch_init \<Rightarrow> string + fetch_response) \<Rightarrow> bool" where
  "answers_reads env w processEnv fetch \<longleftrightarrow>
     (\<forall>init. fi_method init = ''GET'' \<longrightarrow>
        fetch (API_URL processEnv @ stats_path) init =
          Inr (reply_to stats_json (fst (run (dashboard_controller_getStats env) w))) \<and>
        fetch (API_URL processEnv @ ''/test-receiver/config'') init =
          Inr (reply_to receiver_json (fst (run (controller_getConfig env) w))) \<and>
        (\<forall>limit. 1 \<le> limit \<and> limit \<le> 200 \<longrightarrow>
           fetch (API_URL processEnv @ events_path (int limit)) init =
             Inr (reply_to page_json (fst (run (events_controller_list env limit) w)))) \<and>
        (\<forall>segment. one_segment segment \<longrightarrow>
           fetch (API_URL processEnv @ ''/events/'' @ segment) init =
             Inr (reply_to detail_json (fst (run (events_controller_findOne env (decode_segment segment)) w)))))"

section \<open>A call and its answer\<close>

lemma served:
  assumes "answers_reads env w processEnv fetch" and "fi_method init = ''GET''"
  shows "fetch (API_URL processEnv @ stats_path) init =
      Inr (reply_to stats_json (fst (run (dashboard_controller_getStats env) w)))"
    and "1 \<le> n \<Longrightarrow> n \<le> 200 \<Longrightarrow> fetch (API_URL processEnv @ events_path (int n)) init =
      Inr (reply_to page_json (fst (run (events_controller_list env n) w)))"
    and "one_segment segment \<Longrightarrow> fetch (API_URL processEnv @ ''/events/'' @ segment) init =
      Inr (reply_to detail_json (fst (run (events_controller_findOne env (decode_segment segment)) w)))"
  using assms unfolding answers_reads_def by blast+

lemma show_404: "show_int 404 = ''404''"
  by code_simp

lemma call_Inr:
  assumes "fetch (API_URL processEnv @ path)
      \<lparr>fi_method = verb, fi_body = body, fi_cache = ''no-store'', fi_contentType = ''application/json''\<rparr> =
      Inr (reply_to enc (Inr x))" and "json_parse (stringify (enc x)) = Some (enc x)"
  shows "call processEnv fetch path verb body = Inr (enc x)"
  using assms by (simp add: call_def sum_bind_def reply_to_def Let_def)

lemma call_Inl:
  assumes "fetch (API_URL processEnv @ path)
      \<lparr>fi_method = verb, fi_body = body, fi_cache = ''no-store'', fi_contentType = ''application/json''\<rparr> =
      Inr (reply_to enc (Inl e))"
  shows "call processEnv fetch path verb body =
    Inl (show_int (fst (error_status e)) @ '' '' @ fst (snd (error_status e)) @ '': '' @ error_body e)"
proof -
  have "error_body e \<noteq> []" by (cases "error_status e") (simp add: error_body_def)
  with assms show ?thesis by (simp add: call_def sum_bind_def reply_to_def Let_def)
qed

context json_codec
begin

lemma client_reads:
  assumes "fetch (API_URL processEnv @ path)
      \<lparr>fi_method = verb, fi_body = body, fi_cache = ''no-store'', fi_contentType = ''application/json''\<rparr> =
      Inr (reply_to enc (Inr x))" and "ok x"
  shows "\<exists>j. call processEnv fetch path verb body = Inr j \<and> dec j = Some x"
  using call_Inr [where fetch = fetch and path = path and verb = verb and body = body, OF assms(1) parse_enc [OF assms(2)]]
    dec_enc [OF assms(2)] by blast

end

section \<open>What can be sent\<close>

text \<open>The values of the tables that JSON holds exactly: numbers of few decimals, times a date can be.\<close>

definition transmissible :: "env \<Rightarrow> db \<Rightarrow> bool" where
  "transmissible env d \<longleftrightarrow>
     short_decimal (budget env) \<and> (\<forall>ev \<in> set (events d). wf_json (er_payload ev)) \<and>
     (\<forall>a \<in> set (attempts d). attempt_times_ok a)"

lemma summaries_ok: "transmissible env d \<Longrightarrow> list_all2 (summarises env d) evs items \<Longrightarrow> list_all summary_ok items"
  by (auto simp: list_all2_conv_all_nth list_all_length summarises_def summary_ok_def toSummary_def transmissible_def)

lemma short_diff: "short_decimal r \<Longrightarrow> short_decimal (r - of_int i)"
proof -
  assume "short_decimal r"
  then obtain k where "10 ^ 20 * r = of_int k" unfolding short_decimal_def frac_eq_0_iff by (rule Ints_cases)
  then show ?thesis by (intro short_decimalI [where i = "k - 10 ^ 20 * i"]) (simp add: right_diff_distrib)
qed

lemma remaining_short: "transmissible env d \<Longrightarrow> short_decimal (attemptsRemaining (cfg_retry (e_cfg env)) n)"
  using short_diff [of "budget env" n] short_int [of 0]
  by (auto simp: attemptsRemaining_def transmissible_def budget_def max_def)

lemma detail_transmissible:
  assumes "transmissible env d" and "history_of env d e detail"
  shows "detail_ok detail"
proof -
  from assms(2) obtain ev r where ev: "ev \<in> set (events d)" and "r \<in> set (jobs d)" and s: "summarises env d ev (EventSummary.truncate detail)"
    and p: "ed_payload detail = er_payload ev"
    and a: "mset (ed_attempts detail) = mset (filter (\<lambda>a. ar_eventId a = er_eventId ev) (attempts d))"
    and left: "ed_attemptsRemaining detail = attemptsRemaining (cfg_retry (e_cfg env)) (jr_attemptCount r)"
    unfolding history_of_def by blast
  have "summary_ok (EventSummary.truncate detail)"
    using summaries_ok [OF assms(1), of "[ev]" "[EventSummary.truncate detail]"] s by simp
  moreover have "set (ed_attempts detail) \<subseteq> set (attempts d)" using mset_eq_setD [OF a] by auto
  then have "list_all attempt_times_ok (ed_attempts detail)"
    using assms(1) unfolding transmissible_def list_all_iff by blast
  ultimately show ?thesis
    using assms(1) ev remaining_short [OF assms(1)] by (simp add: detail_ok_def p left transmissible_def)
qed

section \<open>A server that answers so\<close>

text \<open>The reads of the routes, by the path: an instance of what is relied on.\<close>

definition route_get :: "env \<Rightarrow> world \<Rightarrow> string \<Rightarrow> fetch_response" where
  "route_get env w path =
     (if path = stats_path then reply_to stats_json (fst (run (dashboard_controller_getStats env) w))
      else if path = ''/test-receiver/config'' then reply_to receiver_json (fst (run (controller_getConfig env) w))
      else if take 14 path = ''/events?limit='' then
        reply_to page_json (fst (run (events_controller_list env (digits_value (drop 14 path))) w))
      else reply_to detail_json (fst (run (events_controller_findOne env (decode_segment (drop 8 path))) w)))"

definition demo_fetch :: "env \<Rightarrow> world \<Rightarrow> string \<Rightarrow> string \<Rightarrow> fetch_init \<Rightarrow> string + fetch_response" where
  "demo_fetch env w base url init = Inr (route_get env w (drop (length base) url))"

lemma demo_answers: "answers_reads env w processEnv (demo_fetch env w (API_URL processEnv))"
proof -
  have "show_int (int n) = show_nat n" for n by (simp add: show_int_def)
  then have "digits_value (show_int (int n)) = n" for n by (simp add: show_nat_value)
  then show ?thesis
    by (simp add: answers_reads_def demo_fetch_def route_get_def stats_path_def events_path_def)
qed

lemma demo_transmissible: "transmissible (demo_env ids now reply) (w_db demo_accepted)"
proof -
  have "short_decimal 3" by (rule short_decimalI [where i = "3 * 10 ^ 20"]) simp
  moreover obtain t where "w_db demo_accepted =
     empty_db\<lparr>events := [new_event (demo_env 0 1000 (demo_reply 200)) demo_dto t],
       jobs := [new_job (demo_env 0 1000 (demo_reply 200)) ''evt-1'' 1000 t]\<rparr>"
    using demo_accepted_db by blast
  ultimately show ?thesis
    by (simp add: transmissible_def budget_def demo_env_def demo_cfg_def empty_db_def new_event_def demo_dto_def
        payload_or_empty_def)
qed

section \<open>The pages of the dashboard\<close>

text \<open>
  Property C22. The dashboard's list is the table: whatever the client asks - \<open>api.events()\<close> or
  \<open>api.events(limit)\<close> with a limit the server accepts - the JSON it is given reads as the total number of events
  and as the summaries of the newest of them, each with the state of its own job and the error of its
  newest attempt.
\<close>

theorem client_reads_the_page:
  assumes "no_faults env" and "env_ok ci env" and "wf_db ci (w_db w)" and "transmissible env (w_db w)"
    and "answers_reads env w processEnv fetch"
    and "\<forall>n. limit = Some n \<longrightarrow> 1 \<le> n \<and> n \<le> 200"
  shows "\<exists>j items rows. api_events processEnv fetch limit = Inr j \<and>
    read_page j = Some (items, length (events (w_db w))) \<and>
    mset rows = mset (events (w_db w)) \<and> sorted (map (\<lambda>e. - er_createdAt e) rows) \<and>
    list_all2 (summarises env (w_db w)) (take (nat (coalesce limit 50)) rows) items"
proof -
  let ?n = "nat (coalesce limit 50)"
  let ?q = "list_query None None (Some ?n) None"
  have n: "1 \<le> ?n" "?n \<le> 200" "int ?n = coalesce limit 50" using assms(6) by (cases limit; fastforce)+
  have all: "filter (list_where env ?q) (events (w_db w)) = events (w_db w)"
    by (simp add: list_where_def list_query_def)
  have "0 < lo_limit ?q" using n(1) by (simp add: list_query_def)
  from runs_list_events [OF assms(1-3) this] obtain items
    where result: "fst (run (events_controller_list env ?n) w) = Inr (items, length (events (w_db w)))"
      and "page_of env (w_db w) ?q items"
    unfolding runs_def all events_controller_list_def by blast
  then obtain rows where rows: "mset rows = mset (events (w_db w))" "sorted (map (\<lambda>e. - er_createdAt e) rows)"
      "list_all2 (summarises env (w_db w)) (take ?n rows) items"
    unfolding page_of_def all by (auto simp: list_query_def)
  have "fetch (API_URL processEnv @ events_path (int ?n))
      \<lparr>fi_method = ''GET'', fi_body = None, fi_cache = ''no-store'', fi_contentType = ''application/json''\<rparr> =
      Inr (reply_to page_json (fst (run (events_controller_list env ?n) w)))"
    using n(1,2) by (intro served(2) [OF assms(5)]) simp_all
  from page.client_reads [where fetch = fetch and path = "events_path (int ?n)", OF this [unfolded result]] summaries_ok [OF assms(4) rows(3)]
  obtain j where "api_events processEnv fetch limit = Inr j" "read_page j = Some (items, length (events (w_db w)))"
    unfolding api_events_def n(3) by auto
  with rows show ?thesis by blast
qed

theorem client_reads_the_page_witness:
  "\<exists>j items rows. api_events Map.empty
      (demo_fetch (demo_env 0 9 (demo_reply 200)) demo_accepted ''http://localhost:3001'') None = Inr j \<and>
    read_page j = Some (items, length (events (w_db demo_accepted))) \<and> mset rows = mset (events (w_db demo_accepted))"
proof -
  have "API_URL Map.empty = ''http://localhost:3001''" by (simp add: API_URL_def)
  with demo_answers have "answers_reads (demo_env 0 9 (demo_reply 200)) demo_accepted Map.empty
      (demo_fetch (demo_env 0 9 (demo_reply 200)) demo_accepted ''http://localhost:3001'')"
    by metis
  from client_reads_the_page [OF demo_sane(2,1) demo_accepted(1) demo_transmissible this, of None]
  show ?thesis by auto
qed

text \<open>
  Property C23. The detail page shows the event: \<open>api.event\<close> of an id the server accepts gets JSON
  that reads as the event's summary, its payload and exactly its attempts in order, with the attempts its job has
  left; for an id that no event has, it throws, with a message that starts with 404.
\<close>

theorem client_reads_the_event:
  assumes "no_faults env" and "env_ok ci env" and "wf_db ci (w_db w)" and "transmissible env (w_db w)"
    and "answers_reads env w processEnv fetch"
    and "valid_event_id e" and "e \<noteq> ''.''" and "e \<noteq> ''..''"
  shows "case api_event processEnv fetch e of
      Inl message \<Rightarrow> \<not> known_event env e (w_db w) \<and> (\<exists>rest. message = ''404 Not Found: '' @ rest)
    | Inr j \<Rightarrow> (\<exists>detail. read_detail j = Some detail \<and> history_of env (w_db w) e detail)"
proof -
  have seg: "one_segment (encodeURIComponent e)" "decode_segment (encodeURIComponent e) = e"
    using id_in_path [OF assms(6)] assms(6-8) by (auto simp: one_segment_def)
  have reply: "fetch (API_URL processEnv @ event_path e)
      \<lparr>fi_method = ''GET'', fi_body = None, fi_cache = ''no-store'', fi_contentType = ''application/json''\<rparr> =
      Inr (reply_to detail_json (fst (run (findOne env e) w)))"
    using served(3) [OF assms(5) _ seg(1), of "\<lparr>fi_method = ''GET'', fi_body = None, fi_cache = ''no-store'', fi_contentType = ''application/json''\<rparr>"] by (simp add: event_path_def seg(2) events_controller_findOne_def)
  from runs_findOne [OF assms(1-3), of e]
  have found: "case fst (run (findOne env e) w) of
      Inl err \<Rightarrow> err = NotFoundException (''Event '' @ e @ '' not found'') \<and> \<not> known_event env e (w_db w)
    | Inr detail \<Rightarrow> history_of env (w_db w) e detail"
    unfolding runs_def by blast
  show ?thesis
  proof (cases "fst (run (findOne env e) w)")
    case (Inl err)
    with found have err: "err = NotFoundException (''Event '' @ e @ '' not found'')" "\<not> known_event env e (w_db w)" by simp_all
    from call_Inl [where fetch = fetch and path = "event_path e", OF reply [unfolded Inl]] err show ?thesis
      by (simp add: api_event_def error_status_def show_404)
  next
    case (Inr detail)
    with found have detail: "history_of env (w_db w) e detail" by simp
    from detail.client_reads [where fetch = fetch and path = "event_path e", OF reply [unfolded Inr] detail_transmissible [OF assms(4) detail]] detail
    show ?thesis by (auto simp: api_event_def)
  qed
qed

theorem client_reads_the_event_witness:
  "(\<exists>j (detail :: EventDetail). api_event Map.empty
      (demo_fetch (demo_env 0 9 (demo_reply 200)) demo_accepted ''http://localhost:3001'') ''evt-1'' = Inr j \<and>
    read_detail j = Some detail \<and> history_of (demo_env 0 9 (demo_reply 200)) (w_db demo_accepted) ''evt-1'' detail) \<and>
   (\<exists>rest. api_event Map.empty
      (demo_fetch (demo_env 0 9 (demo_reply 200)) demo_world ''http://localhost:3001'') ''evt-1'' =
    Inl (''404 Not Found: '' @ rest))"
proof -
  let ?env = "demo_env 0 9 (demo_reply 200)"
  have "API_URL Map.empty = ''http://localhost:3001''" by (simp add: API_URL_def)
  with demo_answers have answers: "answers_reads ?env w Map.empty (demo_fetch ?env w ''http://localhost:3001'')" for w
    by metis
  have id: "valid_event_id ''evt-1''" by code_simp
  have known: "known_event ?env ''evt-1'' (w_db demo_accepted)"
    using demo_accepted(2) unfolding known_event_def job_at_def sql_eq_def by metis
  have none: "wf_db binary (w_db demo_world)" "transmissible ?env (w_db demo_world)"
    "\<not> history_of ?env (w_db demo_world) ''evt-1'' detail" for detail
    using demo_transmissible [of 0 9 "demo_reply 200"]
    by (simp_all add: demo_world_db wf_empty history_of_def transmissible_def) (simp_all add: empty_db_def)
  note event = client_reads_the_event [OF demo_sane(2,1) _ _ answers id]
  show ?thesis
    using event [OF demo_accepted(1) demo_transmissible] event [OF none(1,2)] known none(3)
    by (simp split: sum.splits)
qed

section \<open>The other messages\<close>






end
