(* ===== verification/ClientForms.thy ===== *)
theory ClientForms
  imports Api Operations WireFormat
begin

text \<open>
  The dashboard's forms and pages: submitting an event (\<open>SubmitEventForm.tsx\<close>), the receiver's
  settings as they are offered (\<open>ReceiverControls.tsx\<close>), and what the tables, the feed and the two
  pages write (\<open>EventTable.tsx\<close>, \<open>AttemptTimeline.tsx\<close>, \<open>ActivityFeed.tsx\<close>, \<open>HttpStatusChart.tsx\<close>,
  \<open>ConnectionIndicator.tsx\<close>, \<open>app/page.tsx\<close>, \<open>app/events/[eventId]/page.tsx\<close>). A view is a record
  of the texts and colours a component shows; elements, classes and tooltips are left out.
\<close>

section \<open>Submitting an event\<close>

text \<open>
  \<open>Math.random().toString(36)\<close> is a parameter: \<open>0\<close>, or \<open>0.\<close> and digits in base 36.
\<close>

definition base36_digit :: "char \<Rightarrow> bool" where
  "base36_digit c \<longleftrightarrow>
     (let n = (of_char c :: nat) in (48 \<le> n \<and> n \<le> 57) \<or> (97 \<le> n \<and> n \<le> 122))"

definition base36_fraction :: "string \<Rightarrow> bool" where
  "base36_fraction s \<longleftrightarrow> s = ''0'' \<or> (take 2 s = ''0.'' \<and> list_all base36_digit (drop 2 s))"

definition suggestEventId :: "string \<Rightarrow> string" where
  "suggestEventId random = ''evt_'' @ take (8 - 2) (drop 2 random)"

definition DEFAULT_PAYLOAD :: string where
  "DEFAULT_PAYLOAD = ''{'' @ [CHR 0x0A] @ ''  '' @ [CHR 0x22] @ ''incidentId'' @ [CHR 0x22] @ '': '' @ [CHR 0x22] @ ''inc_456'' @ [CHR 0x22] @ '','' @ [CHR 0x0A] @ ''  '' @ [CHR 0x22] @ ''severity'' @ [CHR 0x22] @ '': '' @ [CHR 0x22] @ ''high'' @ [CHR 0x22, CHR 0x0A] @ ''}''"

record submit_form =
  sf_eventId :: string
  sf_type :: string
  sf_payload :: string
  sf_results :: "CreateResponse list"
  sf_error :: "string option"
  sf_busy :: bool

definition opened_form :: "string \<Rightarrow> submit_form" where
  "opened_form random =
     \<lparr>sf_eventId = suggestEventId random, sf_type = ''incident.created'', sf_payload = DEFAULT_PAYLOAD,
      sf_results = [], sf_error = None, sf_busy = False\<rparr>"

definition submit_body :: "string \<Rightarrow> string \<Rightarrow> int \<Rightarrow> json \<Rightarrow> json" where
  "submit_body eventId type now parsed =
     JObj [(''eventId'', JStr eventId), (''type'', JStr type), (''occurredAt'', JStr (toISOString now)),
           (''payload'', parsed)]"

definition submit_failed :: "string \<Rightarrow> submit_form \<Rightarrow> submit_form" where
  "submit_failed message form = form\<lparr>sf_error := Some message, sf_busy := False\<rparr>"

definition submit_done :: "CreateResponse \<Rightarrow> submit_form \<Rightarrow> submit_form" where
  "submit_done response form =
     form\<lparr>sf_results := add_result response (sf_results form), sf_busy := False\<rparr>"

text \<open>
  \<open>submit\<close> up to its request: the body to post, or none when the payload does not parse. The message
  of a \<open>SyntaxError\<close> is the browser's, a parameter.
\<close>

definition submit_start ::
  "(string \<Rightarrow> string) \<Rightarrow> string \<Rightarrow> int \<Rightarrow> bool \<Rightarrow> submit_form \<Rightarrow> submit_form \<times> json option" where
  "submit_start syntaxError random now reuseId form =
     (let form' = form\<lparr>sf_busy := True, sf_error := None\<rparr>
      in case json_parse (sf_payload form) of
           None \<Rightarrow>
             (submit_failed (''Payload is not valid JSON: '' @ syntaxError (sf_payload form)) form', None)
         | Some parsed \<Rightarrow>
             (let eventId = (if reuseId then sf_eventId form else suggestEventId random)
              in ((if reuseId then form' else form'\<lparr>sf_eventId := eventId\<rparr>),
                  Some (submit_body eventId (sf_type form) now parsed))))"

definition submitEvent ::
  "(string \<rightharpoonup> string) \<Rightarrow> (string \<Rightarrow> fetch_init \<Rightarrow> string + fetch_response) \<Rightarrow> json \<Rightarrow> string + json" where
  "submitEvent processEnv fetch body = call processEnv fetch ''/events'' ''POST'' (Some (stringify body))"

text \<open>A line of the list of results: the icon, its colour, the id and the text.\<close>

definition result_line :: "CreateResponse \<Rightarrow> string \<times> string \<times> string \<times> string" where
  "result_line result =
     (if cr_duplicate result
      then ([CHR 0xE2, CHR 0xA7, CHR 0x89], ''var(--text-secondary)'', cr_eventId result, ''existing event detected '' @ [CHR 0xE2, CHR 0x80, CHR 0x94] @ '' no new delivery job'')
      else ([CHR 0xEF, CHR 0xBC, CHR 0x8B], ''var(--status-good)'', cr_eventId result, ''accepted '' @ [CHR 0xE2, CHR 0x80, CHR 0x94] @ '' delivery scheduled''))"

section \<open>The receiver's settings\<close>

definition MODES :: "(ReceiverMode \<times> string) list" where
  "MODES =
     [(SUCCESS_mode, ''Always answers 200. Delivery completes on attempt 1.''),
      (FAIL_ONCE, ''Fails the first delivery of an event, then succeeds.''),
      (FAIL_ALWAYS, ''Fails every delivery until the retry budget is spent.'')]"

definition FAILURE_STATUSES :: "(int \<times> string) list" where
  "FAILURE_STATUSES =
     [(503, ''503 Service Unavailable '' @ [CHR 0xE2, CHR 0x80, CHR 0x94] @ '' retryable''),
      (500, ''500 Internal Server Error '' @ [CHR 0xE2, CHR 0x80, CHR 0x94] @ '' retryable''),
      (429, ''429 Too Many Requests '' @ [CHR 0xE2, CHR 0x80, CHR 0x94] @ '' retryable''),
      (408, ''408 Request Timeout '' @ [CHR 0xE2, CHR 0x80, CHR 0x94] @ '' retryable''),
      (400, ''400 Bad Request '' @ [CHR 0xE2, CHR 0x80, CHR 0x94] @ '' permanent''),
      (401, ''401 Unauthorized '' @ [CHR 0xE2, CHR 0x80, CHR 0x94] @ '' permanent''),
      (404, ''404 Not Found '' @ [CHR 0xE2, CHR 0x80, CHR 0x94] @ '' permanent''),
      (422, ''422 Unprocessable Entity '' @ [CHR 0xE2, CHR 0x80, CHR 0x94] @ '' permanent'')]"

definition mode_description :: "ReceiverMode \<Rightarrow> string option" where
  "mode_description currentMode =
     map_option snd (find (\<lambda>option. fst option = currentMode) MODES)"

text \<open>The three figures below the form.\<close>

definition receiver_figures :: "(ReceiverConfig \<times> ReceiverStats) option \<Rightarrow> (string \<times> int) list" where
  "receiver_figures receiver =
     (case receiver of
        None \<Rightarrow> []
      | Some (_, stats) \<Rightarrow>
          [(''Received'', int (rs_totalReceived stats)), (''Unique'', int (rs_uniqueEvents stats)),
           (''Duplicates'', int (rs_duplicateDeliveries stats))])"

section \<open>The tables\<close>

record table_row =
  tr_link :: string
  tr_id :: string
  tr_type :: string
  tr_badge :: StatusPresentation
  tr_attempts :: string
  tr_created :: string
  tr_next :: "string \<times> string option"
  tr_error :: string
  tr_message :: "string option"

text \<open>A null error of an error is drawn as nothing.\<close>

definition table_row_of :: "browser \<Rightarrow> int \<Rightarrow> EventSummary \<Rightarrow> table_row" where
  "table_row_of br now event =
     \<lparr>tr_link = ''/events/'' @ encodeURIComponent (es_eventId event),
      tr_id = es_eventId event, tr_type = es_type event,
      tr_badge = STATUS_PRESENTATION (es_status event),
      tr_attempts = show_int (es_attemptCount event) @ '' / '' @ show_num (es_maxAttempts event),
      tr_created = formatClock br (Some (es_createdAt event)),
      tr_next =
        (if truthy (es_nextAttemptAt event)
         then (formatClock br (es_nextAttemptAt event),
               map_option (\<lambda>countdown. formatCountdown (Some countdown)) (event_countdown br now event))
         else (dash, None)),
      tr_error =
        (case es_lastError event of
           None \<Rightarrow> dash
         | Some e \<Rightarrow> (case le_httpStatus e of
             Some status \<Rightarrow> show_int status
           | None \<Rightarrow> (case le_errorType e of Some t \<Rightarrow> error_type_name t | None \<Rightarrow> []))),
      tr_message =
        (case es_lastError event of
           None \<Rightarrow> None
         | Some e \<Rightarrow> (if truthy (le_message e) then le_message e else None))\<rparr>"

definition attempt_presentation :: "AttemptStatus \<Rightarrow> string \<times> string \<times> string" where
  "attempt_presentation status =
     (case status of
        SUCCESS \<Rightarrow> ([CHR 0xE2, CHR 0x9C, CHR 0x93], ''var(--status-good)'', ''Success'')
      | AttemptStatus.FAILED \<Rightarrow> ([CHR 0xE2, CHR 0x9C, CHR 0x95], ''var(--status-critical)'', ''Failed'')
      | IN_PROGRESS \<Rightarrow> ([CHR 0xE2, CHR 0x97, CHR 0x86], ''var(--series-1)'', ''In flight''))"

record timeline_row =
  tl_icon :: string
  tl_color :: string
  tl_title :: string
  tl_label :: string
  tl_http :: "string option"
  tl_error :: "string option"
  tl_times :: string
  tl_message :: "string option"

definition timeline_row_of :: "browser \<Rightarrow> attempt_row \<Rightarrow> timeline_row" where
  "timeline_row_of br attempt =
     (let (icon, color, label) = attempt_presentation (ar_status attempt)
      in \<lparr>tl_icon = icon, tl_color = color, tl_title = ''Attempt '' @ show_int (ar_attemptNumber attempt),
          tl_label = label,
          tl_http = map_option (\<lambda>status. ''HTTP '' @ show_int status) (ar_httpStatus attempt),
          tl_error = map_option error_type_name (ar_errorType attempt),
          tl_times = timeline_times br attempt,
          tl_message = (if truthy (ar_errorMessage attempt) then ar_errorMessage attempt else None)\<rparr>)"

section \<open>The chart and the feed\<close>

definition LEGEND :: "StatusRole list" where
  "LEGEND =
     [\<lparr>role_color = ''var(--status-good)'', role_label = ''Success (2xx)''\<rparr>,
      \<lparr>role_color = ''var(--status-warning)'', role_label = ''Retryable (408, 429, 5xx)''\<rparr>,
      \<lparr>role_color = ''var(--status-critical)'', role_label = ''Permanent (other 4xx)''\<rparr>]"

text \<open>A bar: its code, what the code means, its width in percent and its count.\<close>

definition chart_bars :: "DashboardStats option \<Rightarrow> (string \<times> StatusRole \<times> rat \<times> int) list" where
  "chart_bars stats =
     (let entries = chart_entries stats; peak = chart_peak entries
      in map (\<lambda>(code, n). (code, httpStatusRole \<lfloor>code_number code\<rfloor>, bar_width peak n, n)) entries)"

fun feed_presentation :: "RealtimeEventType \<Rightarrow> string \<times> string" where
  "feed_presentation EVENT_ACCEPTED = ([CHR 0xEF, CHR 0xBC, CHR 0x8B], ''var(--series-1)'')"
| "feed_presentation DUPLICATE_EVENT = ([CHR 0xE2, CHR 0xA7, CHR 0x89], ''var(--text-secondary)'')"
| "feed_presentation DELIVERY_STARTED = ([CHR 0xE2, CHR 0x86, CHR 0x92], ''var(--series-1)'')"
| "feed_presentation DELIVERY_SUCCEEDED = ([CHR 0xE2, CHR 0x9C, CHR 0x93], ''var(--status-good)'')"
| "feed_presentation DELIVERY_FAILED = ([CHR 0xE2, CHR 0x9C, CHR 0x95], ''var(--status-critical)'')"
| "feed_presentation DELIVERY_RETRY_SCHEDULED = ([CHR 0xE2, CHR 0x86, CHR 0xBB], ''var(--status-warning)'')"
| "feed_presentation DELIVERY_EXHAUSTED = ([CHR 0xE2, CHR 0x8A, CHR 0x98], ''var(--status-critical)'')"
| "feed_presentation DELIVERY_RECOVERED = ([CHR 0xE2, CHR 0x9A, CHR 0x91], ''var(--status-serious)'')"
| "feed_presentation RECEIVER_DELIVERY_RECEIVED = ([CHR 0xE2, CHR 0x97, CHR 0x87], ''var(--text-muted)'')"
| "feed_presentation RECEIVER_CONFIG_CHANGED = ([CHR 0xE2, CHR 0x9A, CHR 0x99], ''var(--text-muted)'')"

record feed_row =
  fd_divider :: "string option"
  fd_faded :: bool
  fd_clock :: string
  fd_icon :: "string \<times> string"
  fd_id :: "string option"
  fd_message :: string

definition feed_row_of :: "browser \<Rightarrow> FeedEntry list \<Rightarrow> nat \<Rightarrow> feed_row" where
  "feed_row_of br feed index =
     (let entry = feed ! index
      in \<lparr>fd_divider =
            (if startsHistory feed index
             then Some (if index = 0 then ''Recent history'' else ''Earlier '' @ [CHR 0xE2, CHR 0x80, CHR 0x94] @ '' from event history'')
             else None),
          fd_faded = fe_historical entry, fd_clock = formatClock br (re_emittedAt entry),
          fd_icon = feed_presentation (re_type entry),
          fd_id = (if re_eventId entry \<noteq> ''-'' then Some (re_eventId entry) else None),
          fd_message = re_message entry\<rparr>)"

definition feed_rows :: "browser \<Rightarrow> FeedEntry list \<Rightarrow> feed_row list" where
  "feed_rows br feed = map (feed_row_of br feed) [0 ..< length feed]"

section \<open>The pages\<close>

fun connection_presentation :: "ConnectionState \<Rightarrow> string \<times> string \<times> string" where
  "connection_presentation live =
     (''Live'', ''var(--status-good)'', ''Receiving real-time updates over the websocket'')"
| "connection_presentation connecting =
     (''Connecting'', ''var(--status-warning)'', ''Establishing the websocket connection'')"
| "connection_presentation offline =
     (''Offline'', ''var(--status-critical)'',
      ''Websocket disconnected. Delivery continues on the server; state is re-read from REST on reconnect.'')"

text \<open>The banners of the overview: their tone, title and body.\<close>

definition banners :: "(string \<rightharpoonup> string) \<Rightarrow> engine \<Rightarrow> (string \<times> string \<times> string) list" where
  "banners processEnv s =
     (if en_connection s = offline
      then [(''var(--status-warning)'', ''Live updates paused'',
             ''The websocket is disconnected. The engine keeps delivering; this view re-reads the authoritative state from REST as soon as it reconnects.'')]
      else []) @
     (if truthy (en_error s)
      then [(''var(--status-critical)'', ''Cannot reach the engine'',
             the (en_error s) @ '' '' @ [CHR 0xE2, CHR 0x80, CHR 0x94] @ '' expected the API at '' @ API_URL processEnv @
             ''. Check that the server is running.'')]
      else [])"

text \<open>The rows of the detail page above the payload.\<close>

definition detail_rows :: "browser \<Rightarrow> int \<Rightarrow> EventDetail \<Rightarrow> (string \<times> string) list" where
  "detail_rows br now event =
     [(''Type'', es_type event),
      (''Occurred at'', formatDateTime br (Some (es_occurredAt event))),
      (''Ingested at'', formatDateTime br (Some (es_createdAt event))),
      (''Attempts'', show_int (es_attemptCount event) @ '' of '' @ show_num (es_maxAttempts event)),
      (''Attempts remaining'', show_num (ed_attemptsRemaining event)),
      (''Next attempt'',
       (if truthy (es_nextAttemptAt event)
        then formatDateTime br (es_nextAttemptAt event) @ middle_dot @
             formatCountdown (secondsUntil br (es_nextAttemptAt event) now)
        else ''none scheduled''))]"

text \<open>The state of the theme button, and what is kept in the local storage and on the root element.\<close>

record theme_state =
  th_theme :: Theme
  th_stored :: "Theme option"
  th_attribute :: "Theme option"

definition applyTheme :: "Theme \<Rightarrow> theme_state \<Rightarrow> theme_state" where
  "applyTheme theme s = s\<lparr>th_attribute := (if theme = system_theme then None else Some theme)\<rparr>"

definition update_theme :: "Theme \<Rightarrow> theme_state \<Rightarrow> theme_state" where
  "update_theme next_value s = (applyTheme next_value (s\<lparr>th_theme := next_value\<rparr>))\<lparr>th_stored := Some next_value\<rparr>"

definition theme_effect :: "theme_state \<Rightarrow> theme_state" where
  "theme_effect s =
     (case th_stored s of
        Some stored \<Rightarrow> (applyTheme stored s)\<lparr>th_theme := stored\<rparr>
      | None \<Rightarrow> s\<lparr>th_theme := system_theme\<rparr>)"

definition theme_click :: "theme_state \<Rightarrow> theme_state" where
  "theme_click s = update_theme (next_theme (th_theme s)) s"

section \<open>What the forms guarantee\<close>

text \<open>An id the form suggests is one the server accepts.\<close>

lemma base36_digit_id_char: "base36_digit c \<Longrightarrow> id_char c"
  unfolding base36_digit_def id_char_def Let_def by blast

lemma suggested_id_is_accepted:
  assumes "base36_fraction random"
  shows "valid_event_id (suggestEventId random)"
proof -
  have "list_all base36_digit (drop 2 random)" using assms by (auto simp: base36_fraction_def)
  then have "list_all id_char (take 6 (drop 2 random))"
    using set_take_subset [of 6 "drop 2 random"] base36_digit_id_char unfolding list_all_iff by blast
  moreover have "list_all id_char ''evt_''" by code_simp
  moreover have "length (suggestEventId random) \<le> 128" by (simp add: suggestEventId_def)
  ultimately show ?thesis by (simp add: valid_event_id_def suggestEventId_def)
qed

text \<open>The form keeps the last five results, and the effect of a page load is what was last chosen.\<close>

lemma results_bounded: "length (sf_results form) \<le> 5 \<Longrightarrow> length (sf_results (submit_done response form)) \<le> 5"
  by (simp add: submit_done_def add_result_def)

lemma theme_survives_reload:
  "th_theme (theme_effect (s'\<lparr>th_stored := th_stored (theme_click s)\<rparr>)) = th_theme (theme_click s) \<and>
   (th_attribute s' = None \<longrightarrow>
    th_attribute (theme_effect (s'\<lparr>th_stored := th_stored (theme_click s)\<rparr>)) = th_attribute (theme_click s))"
  by (simp add: theme_effect_def theme_click_def update_theme_def applyTheme_def)

text \<open>The offered settings are settings the server accepts.\<close>

lemma offered_update_is_accepted:
  assumes "rf_failureStatus form \<in> Some ` fst ` set FAILURE_STATUSES"
    and "rf_latencyMs form = Some l" "0 \<le> l" "l \<le> 60000"
  shows "valid_update (receiver_update form receiver resetState)"
proof -
  from assms(1) obtain s where s: "rf_failureStatus form = Some s" "s \<in> fst ` set FAILURE_STATUSES" by blast
  have "list_all (\<lambda>p. 400 \<le> fst p \<and> fst p \<le> 599) FAILURE_STATUSES" by (simp add: FAILURE_STATUSES_def)
  with s(2) have "400 \<le> s \<and> s \<le> 599" unfolding list_all_iff by blast
  then show ?thesis
    using assms(2-4) s(1) unfolding valid_update_def receiver_update_def UpdateReceiverConfigDto_def Let_def by simp
qed

text \<open>
  Property C38. The dashboard tells retryable from permanent as the engine does: the role the client
  gives an HTTP status is, for every status, the classification the retry policy acts on, and each
  failure status offered for the receiver is labelled with the classification it provokes.
\<close>

theorem client_labels_are_the_policy:
  "role_label (httpStatusRole code) =
     (case classifyHttpStatus code of
        Delivered_2xx \<Rightarrow> ''Success'' | Failure RETRYABLE \<Rightarrow> ''Retryable'' | Failure PERMANENT \<Rightarrow> ''Permanent'') \<and>
   role_color (httpStatusRole code) =
     (case classifyHttpStatus code of
        Delivered_2xx \<Rightarrow> sp_color (STATUS_PRESENTATION DELIVERED)
      | Failure RETRYABLE \<Rightarrow> sp_color (STATUS_PRESENTATION RETRYING)
      | Failure PERMANENT \<Rightarrow> sp_color (STATUS_PRESENTATION DeliveryStatus.FAILED)) \<and>
   list_all (\<lambda>(status, label).
      drop (length label - 9) label =
        (case classifyHttpStatus status of
           Delivered_2xx \<Rightarrow> [] | Failure RETRYABLE \<Rightarrow> ''retryable'' | Failure PERMANENT \<Rightarrow> ''permanent'') \<and>
      take 3 label = show_int status) FAILURE_STATUSES"
proof (intro conjI)
  show "list_all (\<lambda>(status, label).
      drop (length label - 9) label =
        (case classifyHttpStatus status of
           Delivered_2xx \<Rightarrow> [] | Failure RETRYABLE \<Rightarrow> ''retryable'' | Failure PERMANENT \<Rightarrow> ''permanent'') \<and>
      take 3 label = show_int status) FAILURE_STATUSES"
    by code_simp
qed (use status_role_is_the_policy [of code] in simp_all)

lemma submit_start_id:
  "submit_start syntaxError random now reuseId form = (form', Some body) \<Longrightarrow>
   json_field body ''eventId'' = Some (JStr (sf_eventId form')) \<and>
   sf_eventId form' = (if reuseId then sf_eventId form else suggestEventId random)"
  by (auto simp: submit_start_def submit_failed_def submit_body_def json_field_def Let_def split: option.splits)

section \<open>From the form to the database\<close>

text \<open>
  The server's validation pipe (\<open>main.ts\<close>: class-validator and class-transformer) is a parameter that
  turns the parsed body of a request into a DTO, or refuses it. What the program relies on: a body
  that has the fields of a valid DTO, the time as an ISO string, becomes that DTO.
\<close>

definition create_json :: "CreateEventDto \<Rightarrow> json" where
  "create_json dto =
     submit_body (dto_eventId dto) (dto_type dto) (dto_occurredAt dto) (coalesce (dto_payload dto) JNull)"

definition pipe_ok :: "(json \<Rightarrow> CreateEventDto option) \<Rightarrow> bool" where
  "pipe_ok pipe \<longleftrightarrow>
     (\<forall>dto. valid_create dto \<and> date_range (dto_occurredAt dto) \<longrightarrow> pipe (create_json dto) = Some dto)"

definition received :: "(json \<Rightarrow> CreateEventDto option) \<Rightarrow> string \<Rightarrow> CreateEventDto option" where
  "received pipe posted = Option.bind (json_parse posted) pipe"

text \<open>A form that is ready to be sent: its payload is the text of an object, its type fits.\<close>

definition sendable :: "submit_form \<Rightarrow> (string \<times> json) list \<Rightarrow> bool" where
  "sendable form kvs \<longleftrightarrow>
     json_parse (sf_payload form) = Some (JObj kvs) \<and> wf_json (JObj kvs) \<and>
     sf_type form \<noteq> [] \<and> length (sf_type form) \<le> 128"

lemma submission_is_received:
  assumes "pipe_ok pipe" and "sendable form kvs" and "date_range now"
    and "submit_start syntaxError random now reuseId form = (form', Some body)"
    and "valid_event_id (sf_eventId form')"
  shows "received pipe (stringify body) =
    Some \<lparr>dto_eventId = sf_eventId form', dto_type = sf_type form, dto_occurredAt = now, dto_payload = Some (JObj kvs)\<rparr>"
    (is "_ = Some ?dto")
proof -
  have "body = create_json ?dto"
    using assms(2,4) by (auto simp: submit_start_def sendable_def create_json_def Let_def coalesce_def)
  moreover from this have "json_parse (stringify body) = Some body"
    using assms(2) by (intro parse_stringify) (simp add: create_json_def submit_body_def sendable_def)
  moreover have "valid_create ?dto" using assms(2,5) by (simp add: valid_create_def sendable_def)
  ultimately show ?thesis using assms(1,3) by (simp add: received_def pipe_ok_def)
qed

text \<open>
  Property C13. "Submit same ID again" demonstrates idempotence end to end, from the text a user typed
  to the rows of the database: a sendable form with a fresh suggested id is accepted and adds one
  event, as typed, and one job; the next submission of the form with its id - whatever else was
  edited, and at whatever time - is answered as a duplicate of that event and changes nothing.
\<close>

theorem resubmission_is_a_duplicate:
  assumes "pipe_ok pipe" and "no_faults env" and "no_faults env'" and "sane_env env'" and "e_fold env' = e_fold env"
    and "wf_db (e_fold env) (w_db w)" and "fresh_uuids env (w_db w)"
    and "sendable form kvs" and "base36_fraction random" and "date_range now"
    and "submit_start syntaxError random now False form = (form1, Some body)"
    and "\<not> known_event env (sf_eventId form1) (w_db w)"
    and "sendable form2 kvs'" and "sf_eventId form2 = sf_eventId form1" and "date_range now'"
    and "submit_start syntaxError random' now' True form2 = (form3, Some body')"
  shows "\<exists>dto dto' w1. received pipe (stringify body) = Some dto \<and> w1 = snd (run (create env dto) w) \<and>
    received pipe (stringify body') = Some dto' \<and>
    (\<exists>e r. w_db w1 = (w_db w)\<lparr>events := events (w_db w) @ [e], jobs := jobs (w_db w) @ [r]\<rparr> \<and>
       er_eventId e = suggestEventId random \<and> er_type e = sf_type form \<and> er_occurredAt e = now \<and>
       er_payload e = JObj kvs \<and> jr_eventId r = er_eventId e \<and> jr_status r = PENDING) \<and>
    (\<exists>r. fst (run (create env dto) w) = Inr r \<and> \<not> cr_duplicate r \<and> cr_eventId r = suggestEventId random) \<and>
    w_db (snd (run (create env' dto') w1)) = w_db w1 \<and>
    (\<exists>r. fst (run (create env' dto') w1) = Inr r \<and> cr_duplicate r \<and> cr_eventId r = suggestEventId random)"
proof -
  have id: "sf_eventId form1 = suggestEventId random" "sf_eventId form3 = suggestEventId random"
    using submit_start_id [OF assms(11)] submit_start_id [OF assms(16)] assms(14) by simp_all
  then have valid: "valid_event_id (sf_eventId form1)" "valid_event_id (sf_eventId form3)"
    using suggested_id_is_accepted [OF assms(9)] by simp_all
  let ?dto = "\<lparr>dto_eventId = suggestEventId random, dto_type = sf_type form, dto_occurredAt = now, dto_payload = Some (JObj kvs)\<rparr>"
  let ?dto' = "\<lparr>dto_eventId = suggestEventId random, dto_type = sf_type form2, dto_occurredAt = now', dto_payload = Some (JObj kvs')\<rparr>"
  have first: "received pipe (stringify body) = Some ?dto"
    using submission_is_received [OF assms(1,8,10,11) valid(1)] id by simp
  have again: "received pipe (stringify body') = Some ?dto'"
    using submission_is_received [OF assms(1,13,15,16) valid(2)] id by simp
  define w1 where "w1 = snd (run (create env ?dto) w)"
  have unknown: "\<not> known_event env (dto_eventId ?dto) (w_db w)" using assms(12) id by simp
  from runs_create_new [OF assms(2,6,7) unknown] obtain t where new:
    "w_db w1 = (w_db w)\<lparr>events := events (w_db w) @ [new_event env ?dto t],
       jobs := jobs (w_db w) @ [new_job env (dto_eventId ?dto) (e_clock env t) t]\<rparr>"
    "\<exists>r. fst (run (create env ?dto) w) = Inr r \<and> \<not> cr_duplicate r \<and> cr_eventId r = suggestEventId random"
    unfolding runs_def w1_def by fastforce
  have row: "er_eventId (new_event env ?dto t) = suggestEventId random \<and> er_type (new_event env ?dto t) = sf_type form \<and>
      er_occurredAt (new_event env ?dto t) = now \<and> er_payload (new_event env ?dto t) = JObj kvs \<and>
      jr_eventId (new_job env (dto_eventId ?dto) (e_clock env t) t) = er_eventId (new_event env ?dto t) \<and>
      jr_status (new_job env (dto_eventId ?dto) (e_clock env t) t) = PENDING"
    by (simp add: new_event_def new_job_def payload_or_empty_def coalesce_def)
  have only: "er_eventId ev = suggestEventId random"
    if "ev \<in> set (events (w_db w1))" "sql_eq env' (er_eventId ev) (dto_eventId ?dto')" for ev
    using that unknown by (auto simp: new(1) known_event_def new_event_def sql_eq_def assms(5))
  have "known_event env' (dto_eventId ?dto') (w_db w1)"
    by (simp add: new(1) known_event_def sql_eq_def new_event_def)
  from runs_create_duplicate [OF assms(3,4) this] obtain ev where dup:
    "w_db (snd (run (create env' ?dto') w1)) = w_db w1" "ev \<in> set (events (w_db w1))"
    "sql_eq env' (er_eventId ev) (dto_eventId ?dto')"
    "\<exists>r. fst (run (create env' ?dto') w1) = Inr r \<and> cr_duplicate r \<and> cr_eventId r = er_eventId ev"
    unfolding runs_def by fastforce
  show ?thesis
    using first again new row dup(1,4) only [OF dup(2,3)] w1_def by (intro exI [of _ ?dto] exI [of _ ?dto'] exI [of _ w1]) metis
qed

text \<open>A pipe that meets the requirement.\<close>

definition demo_pipe :: "json \<Rightarrow> CreateEventDto option" where
  "demo_pipe body =
     (case (json_field body ''eventId'', json_field body ''type'', json_field body ''occurredAt'') of
        (Some (JStr e), Some (JStr k), Some (JStr s)) \<Rightarrow>
          map_option (\<lambda>t. \<lparr>dto_eventId = e, dto_type = k, dto_occurredAt = t, dto_payload = json_field body ''payload''\<rparr>)
            (iso_time s)
      | _ \<Rightarrow> None)"

lemma demo_pipe: "pipe_ok demo_pipe"
  using iso_roundtrip
  by (auto simp: pipe_ok_def demo_pipe_def create_json_def submit_body_def json_field_def valid_create_def coalesce_def
      split: option.splits)

definition demo_payload :: "(string \<times> json) list" where
  "demo_payload = [(''incidentId'', JStr ''inc_456''), (''severity'', JStr ''high'')]"

lemma default_payload_parses: "json_parse DEFAULT_PAYLOAD = Some (JObj demo_payload)"
  by code_simp

theorem resubmission_is_a_duplicate_witness:
  "\<exists>dto dto'. dto_eventId dto = ''evt_4fzyo8'' \<and> dto_eventId dto' = ''evt_4fzyo8'' \<and>
     (let w1 = snd (run (create (demo_env 0 7 (demo_reply 200)) dto) demo_world) in
      length (jobs (w_db w1)) = 1 \<and>
      w_db (snd (run (create (demo_env 1 9 (demo_reply 200)) dto') w1)) = w_db w1)"
proof -
  let ?env = "demo_env 0 7 (demo_reply 200)" and ?env' = "demo_env 1 9 (demo_reply 200)"
  let ?form = "opened_form ''0.x''" and ?random = "''0.4fzyo82mvyr''"
  have start: "submit_start (\<lambda>_. []) ?random 5 False ?form =
      (?form\<lparr>sf_busy := True, sf_eventId := ''evt_4fzyo8''\<rparr>,
       Some (submit_body ''evt_4fzyo8'' (sf_type ?form) 5 (JObj demo_payload)))" (is "_ = (?form1, Some ?body)")
    by (simp add: submit_start_def default_payload_parses suggestEventId_def opened_form_def Let_def)
  have again: "submit_start (\<lambda>_. []) ?random 6 True ?form1 =
      (?form1, Some (submit_body ''evt_4fzyo8'' (sf_type ?form1) 6 (JObj demo_payload)))" (is "_ = (_, Some ?body')")
    by (simp add: submit_start_def default_payload_parses opened_form_def Let_def)
  have ready: "sendable ?form demo_payload" "sendable ?form1 demo_payload"
    by (simp_all add: sendable_def opened_form_def default_payload_parses) (simp_all add: demo_payload_def)
  have random: "base36_fraction ?random" by code_simp
  have now: "date_range 5" "date_range 6" by (simp_all add: date_range_def)
  have db: "wf_db (e_fold ?env) (w_db demo_world)" "fresh_uuids ?env (w_db demo_world)"
    "\<not> known_event ?env (sf_eventId ?form1) (w_db demo_world)" "e_fold ?env' = e_fold ?env"
    by (simp_all add: demo_world_db wf_empty fresh_uuids_def known_event_def) (simp_all add: empty_db_def)
  from resubmission_is_a_duplicate [OF demo_pipe demo_sane(2) demo_sane(2) demo_env_rules(1) db(4) db(1,2) ready(1)
      random now(1) start db(3) ready(2) refl now(2) again]
  obtain dto dto' w1 e r where x: "received demo_pipe (stringify ?body) = Some dto"
    "w1 = snd (run (create ?env dto) demo_world)" "received demo_pipe (stringify ?body') = Some dto'"
    "w_db w1 = (w_db demo_world)\<lparr>events := events (w_db demo_world) @ [e], jobs := jobs (w_db demo_world) @ [r]\<rparr>"
    "w_db (snd (run (create ?env' dto') w1)) = w_db w1"
    by blast
  have "dto_eventId dto = ''evt_4fzyo8''" "dto_eventId dto' = ''evt_4fzyo8''"
    using x(1,3) submission_is_received [OF demo_pipe ready(1) now(1) start]
      submission_is_received [OF demo_pipe ready(2) now(2) again] suggested_id_is_accepted [OF random]
    by (simp_all add: suggestEventId_def opened_form_def)
  moreover have "length (jobs (w_db w1)) = 1" by (simp add: x(4) demo_world_db empty_db_def)
  ultimately show ?thesis using x(2,5) by (intro exI [of _ dto] exI [of _ dto']) (simp add: Let_def)
qed

end
