(* ===== verification/Views.thy ===== *)
theory Views
  imports ClientForms
begin

text \<open>
  What the dashboard draws, as trees: \<open>apps/client/components\<close> and the two pages of \<open>apps/client/app\<close>.
  An element has its tag, its attributes and its children; class names, keys and handlers are left out,
  and a style is the attributes of its colours. The theorems read the trees: where the links lead, what
  is said without colours and icons, and which buttons can be pressed.
\<close>

section \<open>Trees\<close>

datatype view = Text string | El string "(string \<times> string) list" "view list"

definition hidden :: "string \<times> string" where
  "hidden = (''aria-hidden'', ''true'')"

text \<open>What a screen reader reads: the text outside hidden elements.\<close>

fun spoken :: "view \<Rightarrow> string" where
  "spoken (Text s) = s"
| "spoken (El tag attrs vs) = (if hidden \<in> set attrs then [] else concat (map spoken vs))"

text \<open>Where the links lead, in the order they are drawn.\<close>

fun hrefs :: "view \<Rightarrow> string list" where
  "hrefs (Text s) = []"
| "hrefs (El tag attrs vs) =
     (if tag = ''a'' then List.map_filter (\<lambda>(k, v). if k = ''href'' then Some v else None) attrs else []) @
     concat (map hrefs vs)"

text \<open>The buttons: their text, and whether they can be pressed.\<close>

fun buttons :: "view \<Rightarrow> (string \<times> bool) list" where
  "buttons (Text s) = []"
| "buttons (El tag attrs vs) =
     (if tag = ''button'' then [(concat (map spoken vs), \<forall>v. (''disabled'', v) \<notin> set attrs)]
      else concat (map buttons vs))"

text \<open>\<open>{condition && view}\<close> and \<open>disabled={condition}\<close>.\<close>

definition shown :: "bool \<Rightarrow> view \<Rightarrow> view list" where
  "shown c v = (if c then [v] else [])"

definition flag :: "string \<Rightarrow> bool \<Rightarrow> (string \<times> string) list" where
  "flag name c = (if c then [(name, '''')] else [])"

definition titled :: "string option \<Rightarrow> (string \<times> string) list" where
  "titled hint = (case hint of None \<Rightarrow> [] | Some h \<Rightarrow> [(''title'', h)])"

definition inline :: "(string \<times> string) list \<Rightarrow> string \<Rightarrow> view" where
  "inline attrs s = El ''span'' attrs [Text s]"

definition ellipsis :: string where
  "ellipsis = [CHR 0xE2, CHR 0x80, CHR 0xA6]"

text \<open>The header every card has.\<close>

definition card :: "string \<Rightarrow> string \<Rightarrow> view list \<Rightarrow> view list \<Rightarrow> view" where
  "card label title side body =
     El ''section'' [(''aria-label'', label)]
       (El ''header'' [] (El ''h2'' [] [Text title] # side) # body)"

text \<open>What the browser gives beside \<open>browser\<close>: dates rendered without options, and the build's variables.\<close>

record page_env =
  pe_browser :: browser
  pe_dateTime :: "string \<Rightarrow> string"
  pe_time :: "string \<Rightarrow> string"
  pe_process :: "string \<rightharpoonup> string"

section \<open>Badges\<close>

definition StatusBadge :: "DeliveryStatus \<Rightarrow> string option \<Rightarrow> view" where
  "StatusBadge status title =
     (let presentation = STATUS_PRESENTATION status
      in El ''span''
           [(''color'', sp_color presentation), (''background'', sp_tint presentation),
            (''borderColor'', sp_border presentation), (''title'', coalesce title (sp_description presentation))]
           [inline [hidden] (sp_icon presentation), Text (sp_label presentation)])"

definition mix :: "string \<Rightarrow> string \<Rightarrow> string" where
  "mix color share = ''color-mix(in srgb, '' @ color @ '' '' @ share @ ''%, transparent)''"

definition ConnectionIndicator :: "ConnectionState \<Rightarrow> view" where
  "ConnectionIndicator state =
     (let (label, color, hint) = connection_presentation state
      in El ''span''
           [(''color'', color), (''borderColor'', mix color ''40''), (''background'', mix color ''12''), (''title'', hint)]
           [inline [hidden] [CHR 0xE2, CHR 0x97, CHR 0x8F], Text label])"

section \<open>The table of events\<close>

definition EventTable_row :: "page_env \<Rightarrow> int \<Rightarrow> EventSummary \<Rightarrow> view" where
  "EventTable_row pe now event =
     (let row = table_row_of (pe_browser pe) now event
      in El ''tr'' []
           [El ''td'' [] [El ''a'' [(''href'', tr_link row)] [Text (tr_id row)]],
            El ''td'' [] [Text (tr_type row)],
            El ''td'' [] [StatusBadge (es_status event) None],
            El ''td'' [] [Text (tr_attempts row)],
            El ''td'' [] [Text (tr_created row)],
            El ''td'' []
              [if truthy (es_nextAttemptAt event)
               then El ''span'' [(''title'', pe_dateTime pe (the (es_nextAttemptAt event)))]
                      (Text (fst (tr_next row)) #
                       (case snd (tr_next row) of None \<Rightarrow> [] | Some countdown \<Rightarrow> [inline [] countdown]))
               else inline [] dash],
            El ''td''
              [(''title'', coalesce (Option.bind (es_lastError event) le_message) '''')]
              ((if es_lastError event \<noteq> None
                then inline [(''color'', ''var(--status-critical)'')] (tr_error row)
                else inline [] dash) #
               (case tr_message row of None \<Rightarrow> [] | Some m \<Rightarrow> [inline [] m]))])"

definition EventTable :: "page_env \<Rightarrow> int \<Rightarrow> EventSummary list \<Rightarrow> view" where
  "EventTable pe now rows =
     card ''Events'' ''Events'' [inline [] (show_nat (length rows) @ '' shown'')]
       [El ''table'' []
          [El ''thead'' []
             [El ''tr'' []
                (map (\<lambda>heading. El ''th'' [] [Text heading])
                   [''Event ID'', ''Type'', ''Status'', ''Attempts'', ''Created'', ''Next attempt'', ''Last error''])],
           El ''tbody'' []
             (shown (length rows = 0)
                (El ''tr'' [] [El ''td'' [(''colSpan'', ''7'')]
                   [Text ''No events yet. Submit one to watch it move through the pipeline.'']]) @
              map (EventTable_row pe now) rows)]]"

section \<open>Attempts and the feed\<close>

definition AttemptTimeline_item :: "page_env \<Rightarrow> attempt_row \<Rightarrow> view" where
  "AttemptTimeline_item pe attempt =
     (let row = timeline_row_of (pe_browser pe) attempt
      in El ''li'' []
           [inline [hidden, (''color'', tl_color row), (''background'', mix (tl_color row) ''14'')] (tl_icon row),
            El ''div'' []
              ([El ''div'' []
                 ([inline [] (tl_title row), inline [(''color'', tl_color row)] (tl_label row)] @
                  (case tl_http row of None \<Rightarrow> [] | Some h \<Rightarrow> [inline [] h]) @
                  (case tl_error row of None \<Rightarrow> [] | Some e \<Rightarrow> [inline [] e])),
                El ''div'' [] [Text (tl_times row)]] @
               (case tl_message row of None \<Rightarrow> [] | Some m \<Rightarrow> [El ''p'' [] [Text m]]))])"

definition AttemptTimeline :: "page_env \<Rightarrow> attempt_row list \<Rightarrow> view" where
  "AttemptTimeline pe rows =
     card ''Attempt history'' ''Attempt history'' [inline [] (show_nat (length rows) @ '' recorded'')]
       [if length rows = 0 then El ''p'' [] [Text ''No attempts yet.'']
        else El ''ol'' [] (map (AttemptTimeline_item pe) rows)]"

definition ActivityFeed_entry :: "feed_row \<Rightarrow> view list" where
  "ActivityFeed_entry row =
     (case fd_divider row of None \<Rightarrow> [] | Some d \<Rightarrow> [El ''li'' [] [Text d]]) @
     [El ''li''
        (if fd_faded row then [(''opacity'', ''0.65''), (''title'', ''Reconstructed from the event history'')] else [])
        [inline [] (fd_clock row), inline [hidden, (''color'', snd (fd_icon row))] (fst (fd_icon row)),
         El ''span'' []
           ((case fd_id row of None \<Rightarrow> [] | Some e \<Rightarrow> [inline [] e]) @ [Text (fd_message row)])]]"

definition ActivityFeed :: "page_env \<Rightarrow> FeedEntry list \<Rightarrow> view" where
  "ActivityFeed pe feed =
     card ''Live activity'' ''Live activity'' [inline [] ''websocket'']
       [El ''ol'' []
          (shown (length feed = 0) (El ''li'' [] [Text (''Waiting for engine activity'' @ ellipsis)]) @
           concat (map ActivityFeed_entry (feed_rows (pe_browser pe) feed)))]"

section \<open>The overview\<close>

definition Metric :: "string \<Rightarrow> string \<Rightarrow> string \<Rightarrow> view" where
  "Metric label value hint =
     El ''div'' [(''title'', hint)] [El ''div'' [] [Text label], El ''div'' [] [Text value]]"

text \<open>A tile: its label, its figure, and the presentation of its status when it has one.\<close>

definition StatsOverview_tile :: "DashboardStats option \<Rightarrow> string \<times> (StatusTotals \<Rightarrow> nat) \<times> DeliveryStatus option \<Rightarrow> view" where
  "StatsOverview_tile stats tile =
     (let (label, key, status) = tile;
          presentation = map_option STATUS_PRESENTATION status
      in El ''div'' (titled (map_option sp_description presentation))
           [El ''div'' []
              ((case presentation of None \<Rightarrow> [] | Some p \<Rightarrow> [inline [hidden, (''color'', sp_color p)] (sp_icon p)]) @
               [inline [] label]),
            El ''div'' [] [Text (case stats of None \<Rightarrow> dash | Some s \<Rightarrow> show_nat (key (ds_totals s)))]])"

definition overview_hints :: "DashboardStats option \<Rightarrow> string list" where
  "overview_hints stats =
     [''Delivered as a share of events that reached a terminal state'',
      ''Ingestion to successful delivery, retries included'',
      show_nat (case stats of None \<Rightarrow> 0 | Some s \<Rightarrow> at_total (ds_attempts s)) @ '' HTTP attempts recorded in total'',
      ''Repeat submissions that did not create a second event or delivery job'']"

definition StatsOverview :: "DashboardStats option \<Rightarrow> view" where
  "StatsOverview stats =
     El ''section'' [(''aria-label'', ''Webhook delivery overview'')]
       [El ''div'' [] (map (StatsOverview_tile stats) TILES),
        El ''div'' [] (map2 (\<lambda>(label, value) hint. Metric label value hint) (overview_metrics stats) (overview_hints stats))]"

section \<open>The chart\<close>

definition HttpStatusChart_bar :: "string \<times> StatusRole \<times> rat \<times> int \<Rightarrow> view" where
  "HttpStatusChart_bar bar =
     (let (code, role, width, count) = bar
      in El ''li'' []
           [inline [(''title'', role_label role)] code,
            El ''span'' []
              [El ''span''
                 [(''width'', show_num width @ ''%''), (''background'', role_color role),
                  (''title'', code @ middle_dot @ role_label role @ middle_dot @ show_int count)] []],
            inline [] (show_int count)])"

definition HttpStatusChart :: "DashboardStats option \<Rightarrow> view" where
  "HttpStatusChart stats =
     card ''HTTP status distribution'' ''Receiver responses''
       [inline [] (show_nat (case stats of None \<Rightarrow> 0 | Some s \<Rightarrow> at_total (ds_attempts s)) @ '' attempts'')]
       [El ''div'' []
          [if length (chart_entries stats) = 0
           then El ''p'' [] [Text ''No delivery attempts yet. Submit an event to see responses here.'']
           else El ''ul'' [] (map HttpStatusChart_bar (chart_bars stats)),
           El ''ul'' []
             (map (\<lambda>item. El ''li'' []
                [El ''span'' [hidden, (''background'', role_color item)] [], Text (role_label item)]) LEGEND)]]"

section \<open>The lifecycle\<close>

definition RetryFlow_node :: "nat \<Rightarrow> nat \<Rightarrow> FlowNode \<Rightarrow> view" where
  "RetryFlow_node number index node =
     El ''li'' []
       (El ''div''
          [(''borderColor'', mix (fn_color node) ''45''), (''background'', mix (fn_color node) ''10''),
           (''borderStyle'', if fn_pending node then ''dashed'' else ''solid'')]
          [El ''div'' [(''color'', fn_color node)] [inline [hidden] (fn_icon node), Text (fn_title node)],
           El ''div'' [] [Text (fn_detail node)]] #
        shown (int index < int number - 1) (inline [hidden] [CHR 0xE2, CHR 0x86, CHR 0x92]))"

definition RetryFlow :: "page_env \<Rightarrow> int \<Rightarrow> EventDetail \<Rightarrow> view" where
  "RetryFlow pe now event =
     (let nodes = buildNodes (pe_browser pe) event now
      in card ''Delivery lifecycle'' ''Delivery lifecycle''
           [inline [] (show_int (es_attemptCount event) @ '' of '' @ show_num (es_maxAttempts event) @ '' attempts used'')]
           [El ''ol'' [] (map2 (RetryFlow_node (length nodes)) [0 ..< length nodes] nodes),
            El ''p'' [] [Text (explain (pe_browser pe) event now)]])"

section \<open>The receiver's form\<close>

text \<open>The form's state: the choices, whether an update is under way, and the error of the last one.\<close>

record receiver_controls = receiver_form +
  rf_busy :: bool
  rf_error :: "string option"

definition current_mode :: "receiver_controls \<Rightarrow> (ReceiverConfig \<times> ReceiverStats) option \<Rightarrow> ReceiverMode" where
  "current_mode form receiver = coalesce (rf_mode form) (coalesce (known_setting receiver rc_mode) SUCCESS_mode)"

definition current_status :: "receiver_controls \<Rightarrow> (ReceiverConfig \<times> ReceiverStats) option \<Rightarrow> int" where
  "current_status form receiver =
     coalesce (rf_failureStatus form) (coalesce (known_setting receiver rc_failureStatus) 503)"

definition current_latency :: "receiver_controls \<Rightarrow> (ReceiverConfig \<times> ReceiverStats) option \<Rightarrow> int" where
  "current_latency form receiver = coalesce (rf_latencyMs form) (coalesce (known_setting receiver rc_latencyMs) 0)"

text \<open>\<open>apply\<close>: up to its request, with the update it sends, and its two ends.\<close>

definition apply_start ::
  "bool \<Rightarrow> (ReceiverConfig \<times> ReceiverStats) option \<Rightarrow> receiver_controls \<Rightarrow> receiver_controls \<times> ReceiverPatch" where
  "apply_start resetState receiver form =
     (form\<lparr>rf_busy := True, rf_error := None\<rparr>, receiver_update (receiver_form.truncate form) receiver resetState)"

definition apply_done :: "receiver_controls \<Rightarrow> receiver_controls" where
  "apply_done form = form\<lparr>rf_busy := False\<rparr>"

definition apply_failed :: "string \<Rightarrow> receiver_controls \<Rightarrow> receiver_controls" where
  "apply_failed message form = form\<lparr>rf_error := Some message, rf_busy := False\<rparr>"

definition Stat :: "string \<Rightarrow> int \<Rightarrow> string option \<Rightarrow> view" where
  "Stat label value hint = El ''div'' (titled hint) [El ''dt'' [] [Text label], El ''dd'' [] [Text (show_int value)]]"

definition critical_note :: "string option \<Rightarrow> view list" where
  "critical_note error = shown (truthy error) (El ''p'' [(''color'', ''var(--status-critical)'')] [Text (coalesce error [])])"

definition ReceiverControls :: "receiver_controls \<Rightarrow> (ReceiverConfig \<times> ReceiverStats) option \<Rightarrow> view" where
  "ReceiverControls form receiver =
     card ''Test receiver'' ''Test receiver'' [inline [] ''demo control'']
       [El ''div'' []
          ([El ''label'' []
             [inline [] ''Mode'',
              El ''select'' [(''value'', mode_name (current_mode form receiver))]
                (map (\<lambda>(m, _). El ''option'' [(''value'', mode_name m)] [Text (mode_name m)]) MODES),
              inline [] (coalesce (mode_description (current_mode form receiver)) [])],
            El ''label'' []
             [inline [] ''Failure status'',
              El ''select''
                ((''value'', show_int (current_status form receiver)) #
                 flag ''disabled'' (current_mode form receiver = SUCCESS_mode))
                (map (\<lambda>(s, label). El ''option'' [(''value'', show_int s)] [Text label]) FAILURE_STATUSES),
              inline [] ''Retryable codes consume the retry budget; permanent codes stop after one attempt.''],
            El ''label'' []
             [inline [] ''Response delay (ms)'',
              El ''input''
                [(''type'', ''number''), (''min'', ''0''), (''max'', ''60000''), (''step'', ''100''),
                 (''value'', show_int (current_latency form receiver))] [],
              inline [] (''Exceed the engine'' @ [CHR 0x27] @ ''s HTTP timeout to demonstrate transport-level retries.'')],
            El ''div'' []
             [El ''button'' (flag ''disabled'' (rf_busy form))
                [Text (if rf_busy form then ''Applying'' @ ellipsis else ''Apply'')],
              El ''button''
                (flag ''disabled'' (rf_busy form) @
                 [(''title'', ''Also clears the receiver'' @ [CHR 0x27] @ ''s memory of which events it has already seen'')])
                [Text ''Apply & reset'']]] @
           critical_note (rf_error form) @
           (if receiver = None then []
            else [El ''dl'' []
              (map2 (\<lambda>(label, value) hint. Stat label value hint) (receiver_figures receiver)
                 [None, None, Some (''Deliveries the receiver had already seen '' @ dash @ '' at-least-once in action'')])]))]"

section \<open>The form for events\<close>

definition SubmitEventForm_result :: "CreateResponse \<Rightarrow> view" where
  "SubmitEventForm_result result =
     (let (icon, color, eventId, message) = result_line result
      in El ''li'' []
           [inline [hidden, (''color'', color)] icon,
            El ''span'' [] [inline [] eventId, Text '' '', Text message]])"

definition SubmitEventForm :: "submit_form \<Rightarrow> view" where
  "SubmitEventForm form =
     card ''Submit event'' ''Submit an event'' [inline [] ''POST /events'']
       [El ''div'' []
          ([El ''label'' [] [inline [] ''Event ID (idempotency key)'', El ''input'' [(''value'', sf_eventId form)] []],
            El ''label'' [] [inline [] ''Type'', El ''input'' [(''value'', sf_type form)] []],
            El ''label'' []
              [inline [] ''Payload'', El ''textarea'' [(''value'', sf_payload form), (''spellCheck'', ''false'')] []],
            El ''div'' []
              [El ''button'' (flag ''disabled'' (sf_busy form)) [Text ''Submit new event''],
               El ''button''
                 (flag ''disabled'' (sf_busy form) @
                  [(''title'', ''Re-send the same eventId to prove that duplicates create no second delivery'')])
                 [Text ''Submit same ID again'']]] @
           critical_note (sf_error form) @
           shown (0 < length (sf_results form)) (El ''ul'' [] (map SubmitEventForm_result (sf_results form))))]"

section \<open>The pages\<close>

definition theme_name :: "Theme \<Rightarrow> string" where
  "theme_name theme =
     (case theme of system_theme \<Rightarrow> ''system'' | light_theme \<Rightarrow> ''light'' | dark_theme \<Rightarrow> ''dark'')"

definition theme_icon :: "Theme \<Rightarrow> string" where
  "theme_icon theme =
     (case theme of
        system_theme \<Rightarrow> [CHR 0xE2, CHR 0x97, CHR 0x91]
      | light_theme \<Rightarrow> [CHR 0xE2, CHR 0x98, CHR 0x80]
      | dark_theme \<Rightarrow> [CHR 0xE2, CHR 0x98, CHR 0xBE])"

definition ThemeToggle :: "Theme \<Rightarrow> view" where
  "ThemeToggle theme =
     El ''button'' [(''title'', ''Theme: '' @ theme_name theme @ ''. Click to change.'')]
       [inline [hidden] (theme_icon theme), inline [] (theme_name theme)]"

definition Banner :: "string \<times> string \<times> string \<Rightarrow> view" where
  "Banner banner =
     (let (tone, title, body) = banner
      in El ''div'' [(''borderColor'', mix tone ''45''), (''background'', mix tone ''10''), (''role'', ''status'')]
           [El ''p'' [(''color'', tone)] [Text title], El ''p'' [] [Text body]])"



definition Row :: "string \<times> string \<Rightarrow> view" where
  "Row row = El ''div'' [] [El ''dt'' [] [Text (fst row)], El ''dd'' [] [Text (snd row)]]"

text \<open>\<open>JSON.stringify(value, null, 2)\<close>.\<close>

definition indent :: "nat \<Rightarrow> string" where
  "indent n = CHR 0x0A # replicate n (CHR '' '')"

fun joined :: "string \<Rightarrow> string list \<Rightarrow> string" where
  "joined sep [] = []"
| "joined sep [s] = s"
| "joined sep (s # ss) = s @ sep @ joined sep ss"

fun stringify_indented :: "nat \<Rightarrow> json \<Rightarrow> string" where
  "stringify_indented n (JArr js) =
     (if js = [] then ''[]''
      else ''['' @ indent (n + 2) @ joined ('','' @ indent (n + 2)) (map (stringify_indented (n + 2)) js) @ indent n @ '']'')"
| "stringify_indented n (JObj kvs) =
     (if kvs = [] then ''{}''
      else ''{'' @ indent (n + 2) @
        joined ('','' @ indent (n + 2)) (map (\<lambda>(k, j). quote k @ '': '' @ stringify_indented (n + 2) j) kvs) @
        indent n @ ''}'')"
| "stringify_indented n j = stringify j"

text \<open>The timeline is drawn newest first, as the feed; its entries are live ones.\<close>

definition live_entries :: "RealtimeEvent list \<Rightarrow> FeedEntry list" where
  "live_entries timeline = map (\<lambda>e. RealtimeEvent.extend e \<lparr>fe_historical = False\<rparr>) (rev timeline)"

definition EventDetailPage :: "page_env \<Rightarrow> int \<Rightarrow> Theme \<Rightarrow> string \<Rightarrow> detail_state \<Rightarrow> view" where
  "EventDetailPage pe now theme eventId s =
     El ''main'' []
       ([El ''header'' []
          [El ''div'' []
            [El ''a'' [(''href'', ''/'')] [Text ([CHR 0xE2, CHR 0x86, CHR 0x90] @ '' Back to overview'')],
             El ''h1'' [] [Text (decode_segment eventId)]],
           El ''div'' []
            ((case dt_event s of None \<Rightarrow> [] | Some event \<Rightarrow> [StatusBadge (es_status event) None]) @ [ThemeToggle theme])]] @
        shown (dt_loading s) (El ''p'' [] [Text (''Loading event'' @ ellipsis)]) @
        critical_note (dt_error s) @
        (case dt_event s of
           None \<Rightarrow> []
         | Some event \<Rightarrow>
             [El ''div'' []
               ([RetryFlow pe now event,
                 El ''div'' []
                  [El ''section'' [(''aria-label'', ''Event information'')]
                    [El ''header'' [] [El ''h2'' [] [Text ''Event information'']],
                     El ''dl'' []
                      (map Row (detail_rows (pe_browser pe) now event) @
                       [El ''div'' []
                         [El ''dt'' [] [Text ''Payload''],
                          El ''dd'' [] [El ''pre'' [] [Text (stringify_indented 0 (ed_payload event))]]]])],
                   AttemptTimeline pe (ed_attempts event)]] @
                shown (0 < length (dt_timeline s)) (ActivityFeed pe (live_entries (dt_timeline s))))]))"

section \<open>Where the links lead\<close>

lemma hrefs_leaves [simp]:
  "hrefs (inline attrs s) = []" "hrefs (StatusBadge status title) = []" "hrefs (ConnectionIndicator state) = []"
  "hrefs (ThemeToggle theme) = []" "hrefs (Banner b) = []" "hrefs (Row r) = []" "hrefs (Stat label n hint) = []"
  "hrefs (Metric label value h) = []" "hrefs (StatsOverview_tile stats tile) = []"
  "hrefs (HttpStatusChart_bar bar) = []" "hrefs (RetryFlow_node number index node) = []"
  "hrefs (SubmitEventForm_result result) = []"
  by (auto simp: inline_def StatusBadge_def ConnectionIndicator_def ThemeToggle_def Banner_def Row_def Stat_def
      Metric_def StatsOverview_tile_def HttpStatusChart_bar_def RetryFlow_node_def SubmitEventForm_result_def Let_def
      split_beta shown_def split: option.split)

lemma no_hrefs: "(\<And>v. v \<in> set vs \<Longrightarrow> hrefs v = []) \<Longrightarrow> concat (map hrefs vs) = []"
  by (induction vs) auto

lemma hrefs_El: "tag \<noteq> ''a'' \<Longrightarrow> hrefs (El tag attrs vs) = concat (map hrefs vs)"
  by simp

lemma hrefs_shown [simp]: "concat (map hrefs (shown c v)) = (if c then hrefs v else [])"
  "concat (map hrefs (critical_note e)) = []"
  by (simp_all add: shown_def critical_note_def)

lemma hrefs_card [simp]:
  "hrefs (card label title side body) = concat (map hrefs side) @ concat (map hrefs body)"
  by (simp add: card_def)

lemma hrefs_feed [simp]: "hrefs (ActivityFeed pe feed) = []"
proof -
  have "concat (map hrefs (ActivityFeed_entry row)) = []" for row
    by (auto simp: ActivityFeed_entry_def split: option.split)
  then have "concat (map hrefs (concat (map ActivityFeed_entry rows))) = []" for rows
    by (induction rows) simp_all
  then show ?thesis by (simp add: ActivityFeed_def)
qed

lemma hrefs_overview [simp]: "hrefs (StatsOverview stats) = []" "hrefs (HttpStatusChart stats) = []"
  by (auto simp: StatsOverview_def HttpStatusChart_def comp_def split_beta intro!: no_hrefs)

lemma hrefs_forms [simp]: "hrefs (ReceiverControls form receiver) = []" "hrefs (SubmitEventForm form') = []"
  by (auto simp: ReceiverControls_def SubmitEventForm_def split_beta intro!: no_hrefs)

lemma hrefs_row [simp]: "hrefs (EventTable_row pe now event) = [event_path (es_eventId event)]"
  by (auto simp: EventTable_row_def Let_def table_row_of_def event_path_def map_filter_simps split: option.split)

lemma hrefs_table [simp]: "hrefs (EventTable pe now rows) = map (\<lambda>e. event_path (es_eventId e)) rows"
  by (simp add: EventTable_def comp_def)



section \<open>What is said without colours\<close>

lemma spoken_inline [simp]: "spoken (inline attrs s) = (if hidden \<in> set attrs then [] else s)"
  by (simp add: inline_def)

text \<open>
  A state is never shown by colour or icon alone: what is left of a badge without its colours and
  hidden icons is a text that differs between any two statuses, and so for the state of the connection;
  an attempt says its number and its result, and a bar of the chart its code and its count.
\<close>

theorem states_are_spoken:
  "(spoken (StatusBadge s t) = spoken (StatusBadge s' t') \<longleftrightarrow> s = s') \<and>
   (spoken (ConnectionIndicator c) = spoken (ConnectionIndicator c') \<longleftrightarrow> c = c') \<and>
   (\<exists>rest. spoken (AttemptTimeline_item pe a) =
      ''Attempt '' @ show_int (ar_attemptNumber a) @ snd (snd (attempt_presentation (ar_status a))) @ rest) \<and>
   (snd (snd (attempt_presentation r)) = snd (snd (attempt_presentation r')) \<longleftrightarrow> r = r') \<and>
   spoken (HttpStatusChart_bar (code, role, width, n)) = code @ show_int n"
proof (intro conjI)
  have "hidden \<notin> {(''color'', x), (''background'', x), (''borderColor'', x), (''title'', x)}" for x by (simp add: hidden_def)
  then have badge: "spoken (StatusBadge s t) = sp_label (STATUS_PRESENTATION s)" for s t
    by (simp add: StatusBadge_def Let_def)
  show "spoken (StatusBadge s t) = spoken (StatusBadge s' t') \<longleftrightarrow> s = s'"
    unfolding badge by (cases s; cases s') simp_all
  have state: "spoken (ConnectionIndicator c) = fst (connection_presentation c)" for c
    by (simp add: ConnectionIndicator_def hidden_def split_beta)
  show "spoken (ConnectionIndicator c) = spoken (ConnectionIndicator c') \<longleftrightarrow> c = c'"
    unfolding state by (cases c; cases c') simp_all
  show "\<exists>rest. spoken (AttemptTimeline_item pe a) =
      ''Attempt '' @ show_int (ar_attemptNumber a) @ snd (snd (attempt_presentation (ar_status a))) @ rest"
    by (simp add: AttemptTimeline_item_def timeline_row_of_def Let_def split_beta hidden_def)
  show "snd (snd (attempt_presentation r)) = snd (snd (attempt_presentation r')) \<longleftrightarrow> r = r'"
    by (cases r; cases r') (simp_all add: attempt_presentation_def)
  show "spoken (HttpStatusChart_bar (code, role, width, n)) = code @ show_int n"
    by (simp add: HttpStatusChart_bar_def hidden_def)
qed

section \<open>One request at a time\<close>

text \<open>
  A form in use: it is edited; one of its buttons, where one can be pressed, starts a request or is refused before
  one is sent; a request that is under way settles. The number is that of the requests under way.
\<close>

inductive form_session ::
  "('s \<Rightarrow> view) \<Rightarrow> ('s \<Rightarrow> 's \<Rightarrow> bool) \<Rightarrow> ('s \<Rightarrow> 's \<Rightarrow> bool) \<Rightarrow> ('s \<Rightarrow> 's \<Rightarrow> bool) \<Rightarrow> ('s \<Rightarrow> 's \<Rightarrow> bool) \<Rightarrow> 's \<Rightarrow> 's \<Rightarrow>
   nat \<Rightarrow> bool"
  for render edited requested refused settled opened where
  opened: "form_session render edited requested refused settled opened opened 0"
| edited: "form_session render edited requested refused settled opened s n \<Longrightarrow> edited s t \<Longrightarrow>
    form_session render edited requested refused settled opened t n"
| requested: "form_session render edited requested refused settled opened s n \<Longrightarrow> list_ex snd (buttons (render s)) \<Longrightarrow>
    requested s t \<Longrightarrow> form_session render edited requested refused settled opened t (Suc n)"
| refused: "form_session render edited requested refused settled opened s n \<Longrightarrow> list_ex snd (buttons (render s)) \<Longrightarrow>
    refused s t \<Longrightarrow> form_session render edited requested refused settled opened t n"
| settled: "form_session render edited requested refused settled opened s (Suc n) \<Longrightarrow> settled s t \<Longrightarrow>
    form_session render edited requested refused settled opened t n"

text \<open>A form whose buttons are disabled while it is busy, and that is busy from a request until it settles.\<close>

locale guarded_form =
  fixes render :: "'s \<Rightarrow> view" and busy :: "'s \<Rightarrow> bool"
    and edited requested refused settled :: "'s \<Rightarrow> 's \<Rightarrow> bool" and opened :: 's
  assumes guarded: "list_ex snd (buttons (render s)) \<longleftrightarrow> \<not> busy s"
    and keeps: "edited s t \<Longrightarrow> busy t = busy s"
    and sets: "requested s t \<Longrightarrow> busy t"
    and clears: "refused s t \<Longrightarrow> \<not> busy t" "settled s t \<Longrightarrow> \<not> busy t" "\<not> busy opened"
begin

lemma one_at_a_time:
  "form_session render edited requested refused settled opened s n \<Longrightarrow> n = (if busy s then 1 else 0)"
proof (induction rule: form_session.induct)
  case (edited s n t)
  then show ?case by (simp add: keeps)
next
  case (requested s n t)
  then show ?case using guarded [of s] sets [of s t] by simp
next
  case (refused s n t)
  then show ?case using guarded [of s] clears(1) [of s t] by simp
next
  case (settled s n t)
  then show ?case using clears(2) [of s t] by (simp split: if_splits)
qed (simp add: clears)

end

definition submit_edited :: "submit_form \<Rightarrow> submit_form \<Rightarrow> bool" where
  "submit_edited form form' \<longleftrightarrow>
     (\<exists>e k p. form' = form\<lparr>sf_eventId := e, sf_type := k, sf_payload := p\<rparr>)"

definition submit_requested :: "submit_form \<Rightarrow> submit_form \<Rightarrow> bool" where
  "submit_requested form form' \<longleftrightarrow>
     (\<exists>syntaxError random now reuseId body. submit_start syntaxError random now reuseId form = (form', Some body))"

definition submit_refused :: "submit_form \<Rightarrow> submit_form \<Rightarrow> bool" where
  "submit_refused form form' \<longleftrightarrow>
     (\<exists>syntaxError random now reuseId. submit_start syntaxError random now reuseId form = (form', None))"

definition submit_settled :: "submit_form \<Rightarrow> submit_form \<Rightarrow> bool" where
  "submit_settled form form' \<longleftrightarrow>
     (\<exists>response. form' = submit_done response form) \<or> (\<exists>message. form' = submit_failed message form)"

definition controls_opened :: receiver_controls where
  "controls_opened =
     \<lparr>rf_mode = None, rf_failureStatus = None, rf_latencyMs = None, rf_busy = False, rf_error = None\<rparr>"

definition controls_edited :: "receiver_controls \<Rightarrow> receiver_controls \<Rightarrow> bool" where
  "controls_edited form form' \<longleftrightarrow>
     (\<exists>m s l. form' = form\<lparr>rf_mode := m, rf_failureStatus := s, rf_latencyMs := l\<rparr>)"

definition controls_requested :: "receiver_controls \<Rightarrow> receiver_controls \<Rightarrow> bool" where
  "controls_requested form form' \<longleftrightarrow> (\<exists>resetState receiver. form' = fst (apply_start resetState receiver form))"

definition controls_settled :: "receiver_controls \<Rightarrow> receiver_controls \<Rightarrow> bool" where
  "controls_settled form form' \<longleftrightarrow> form' = apply_done form \<or> (\<exists>message. form' = apply_failed message form)"

lemma buttons_simps [simp]:
  "buttons (inline attrs s) = []" "concat (map buttons (critical_note e)) = []"
  "buttons (Stat label n h) = []" "buttons (SubmitEventForm_result r) = []"
  "buttons (card label title side body) = concat (map buttons side) @ concat (map buttons body)"
  by (simp_all add: inline_def critical_note_def shown_def Stat_def SubmitEventForm_result_def card_def split_beta)

lemma no_buttons: "(\<And>v. v \<in> set vs \<Longrightarrow> buttons v = []) \<Longrightarrow> concat (map buttons vs) = []"
  by (induction vs) auto

lemma submit_buttons:
  "buttons (SubmitEventForm form) =
     [(''Submit new event'', \<not> sf_busy form), (''Submit same ID again'', \<not> sf_busy form)]"
  by (simp add: SubmitEventForm_def flag_def shown_def no_buttons comp_def)

lemma controls_buttons:
  "buttons (ReceiverControls form receiver) =
     [(if rf_busy form then ''Applying'' @ ellipsis else ''Apply'', \<not> rf_busy form), (''Apply & reset'', \<not> rf_busy form)]"
proof -
  have figures: "concat (map buttons (map2 (\<lambda>(label, value). Stat label value) figures hints)) = []" for figures hints
    by (rule no_buttons) auto
  have options: "concat (map buttons (map (\<lambda>(m, _). El ''option'' [(''value'', mode_name m)] [Text (mode_name m)]) ms)) = []"
    "concat (map buttons (map (\<lambda>(s, label). El ''option'' [(''value'', show_int s)] [Text label]) ss)) = []" for ms ss
    by (rule no_buttons, auto)+
  show ?thesis
    by (simp add: ReceiverControls_def flag_def figures options del: map_map)
qed

interpretation submitting: guarded_form SubmitEventForm sf_busy submit_edited submit_requested submit_refused submit_settled
  "opened_form random"
proof
  fix s t :: submit_form
  show "list_ex snd (buttons (SubmitEventForm s)) \<longleftrightarrow> \<not> sf_busy s" by (simp add: submit_buttons)
  show "submit_edited s t \<Longrightarrow> sf_busy t = sf_busy s" by (auto simp: submit_edited_def)
  show "submit_requested s t \<Longrightarrow> sf_busy t" "submit_refused s t \<Longrightarrow> \<not> sf_busy t"
    by (auto simp: submit_requested_def submit_refused_def submit_start_def submit_failed_def Let_def split: option.splits if_splits)
  show "submit_settled s t \<Longrightarrow> \<not> sf_busy t" by (auto simp: submit_settled_def submit_done_def submit_failed_def)
  show "\<not> sf_busy (opened_form random)" by (simp add: opened_form_def)
qed

interpretation controlling: guarded_form "\<lambda>form. ReceiverControls form receiver" rf_busy controls_edited controls_requested
  "\<lambda>_ _. False" controls_settled controls_opened
  by unfold_locales
     (auto simp: controls_buttons controls_edited_def controls_requested_def controls_settled_def apply_start_def
       apply_done_def apply_failed_def controls_opened_def)

text \<open>
  Property C36. A form has one request under way at most: however it is edited, whichever of its buttons is
  pressed whenever it can be pressed, and however its requests end, there is exactly one request under
  way while the form is busy and none otherwise - for the form that submits events and for the
  receiver's.
\<close>

theorem one_request_at_a_time:
  "(form_session SubmitEventForm submit_edited submit_requested submit_refused submit_settled (opened_form random) form n \<longrightarrow>
      n = (if sf_busy form then 1 else 0)) \<and>
   (form_session (\<lambda>c. ReceiverControls c receiver) controls_edited controls_requested (\<lambda>_ _. False) controls_settled
      controls_opened controls k \<longrightarrow> k = (if rf_busy controls then 1 else 0))"
  using submitting.one_at_a_time controlling.one_at_a_time by blast

lemma parsed_is_requested:
  assumes "json_parse (sf_payload form) = Some parsed"
  shows "submit_requested form (fst (submit_start syntaxError random now reuseId form))"
proof -
  have "\<exists>body. submit_start syntaxError random now reuseId form = (fst (submit_start syntaxError random now reuseId form), Some body)"
    using assms by (simp add: submit_start_def Let_def)
  then show ?thesis unfolding submit_requested_def by blast
qed

theorem one_request_at_a_time_witness:
  "\<exists>form. form_session SubmitEventForm submit_edited submit_requested submit_refused submit_settled (opened_form ''0.abc'') form 1 \<and>
     sf_busy form"
proof -
  let ?form = "fst (submit_start (\<lambda>s. s) ''0.abc'' 0 True ((opened_form ''0.abc'')\<lparr>sf_payload := ''{}''\<rparr>))"
  have parsed: "json_parse ''{}'' = Some (JObj [])" by code_simp
  have session: "form_session SubmitEventForm submit_edited submit_requested submit_refused submit_settled
      (opened_form ''0.abc'') ((opened_form ''0.abc'')\<lparr>sf_payload := ''{}''\<rparr>) 0"
    by (rule form_session.edited [OF form_session.opened])
      (unfold submit_edited_def, intro exI [of _ "sf_eventId (opened_form ''0.abc'')"] exI [of _ "sf_type (opened_form ''0.abc'')"]
        exI [of _ "''{}''"], simp)
  have requested: "submit_requested ((opened_form ''0.abc'')\<lparr>sf_payload := ''{}''\<rparr>) ?form"
    by (rule parsed_is_requested [of _ "JObj []"]) (use parsed in simp)
  have idle: "\<not> sf_busy ((opened_form ''0.abc'')\<lparr>sf_payload := ''{}''\<rparr>)" by (simp add: opened_form_def)
  then have can_press: "list_ex snd (buttons (SubmitEventForm ((opened_form ''0.abc'')\<lparr>sf_payload := ''{}''\<rparr>)))"
    by (rule submitting.guarded [THEN iffD2])
  have "form_session SubmitEventForm submit_edited submit_requested submit_refused submit_settled
      (opened_form ''0.abc'') ?form (Suc 0)"
    by (rule form_session.requested, rule session, rule can_press, rule requested)
  then have busy: "sf_busy ?form"
    using one_request_at_a_time [of "''0.abc''" ?form "Suc 0", THEN conjunct1, THEN mp] by (metis nat.distinct(1))
  with \<open>form_session SubmitEventForm submit_edited submit_requested submit_refused submit_settled
      (opened_form ''0.abc'') ?form (Suc 0)\<close>
  show ?thesis unfolding One_nat_def by blast
qed

end
