(* ===== verification/Wiring.thy ===== *)
theory Wiring
  imports Config Worker ClientLib
begin

text \<open>
  How the server is put together: the modules (\<open>*.module.ts\<close>) with what they provide and export, what every
  constructor asks for, and the start in \<open>main.ts\<close>. Nest is read as its documentation states it: a class is
  constructed once per module that provides it; a constructor is given what its module provides, what the
  modules it imports export, and what global modules export. The theorems: the container can
  build the application, in an order that exists, and every service that keeps state is one object -
  which is why a node of the model has one worker, one gateway, one set of counters and one receiver.
\<close>

section \<open>Modules\<close>


















section \<open>Constructors\<close>


section \<open>Resolution\<close>












section \<open>The start\<close>

text \<open>dotenv: a variable that is set already keeps its value; the first file is read first.\<close>

definition loadEnv :: "process_env \<Rightarrow> process_env \<Rightarrow> process_env" where
  "loadEnv file env key = (case env key of Some v \<Rightarrow> Some v | None \<Rightarrow> file key)"

datatype cors_origin = Any_origin | Origins "string list"

definition cors_origin_of :: "string \<Rightarrow> cors_origin" where
  "cors_origin_of s = (if s = ''*'' then Any_origin else Origins (js_split (CHR '','') s))"

record validation_options =
  vo_whitelist :: bool
  vo_forbidNonWhitelisted :: bool
  vo_transform :: bool
  vo_enableImplicitConversion :: bool

record server_setup =
  ss_pipe :: validation_options
  ss_cors :: cors_origin
  ss_shutdownHooks :: bool
  ss_port :: rat
  ss_log :: "string list"

definition bootstrap :: "AppConfiguration \<Rightarrow> server_setup" where
  "bootstrap config =
     \<lparr>ss_pipe = \<lparr>vo_whitelist = True, vo_forbidNonWhitelisted = True, vo_transform = True,
                 vo_enableImplicitConversion = False\<rparr>,
      ss_cors = cors_origin_of (corsOrigin (cfg_http config)), ss_shutdownHooks = True,
      ss_port = http_port (cfg_http config),
      ss_log =
        [''Webhook retry engine listening on http://localhost:'' @ show_num (http_port (cfg_http config)),
         ''Delivering to '' @ targetUrl (cfg_webhook config),
         ''Retry policy: '' @ show_num (maxAttempts (cfg_retry config)) @ '' attempts, backoff ['' @
           js_join '', '' (map show_num (delaysMs (cfg_retry config))) @ ''] ms'']\<rparr>"

text \<open>The whole of \<open>main.ts\<close>: the left value is what \<open>buildConfiguration\<close> throws, and nothing listens.\<close>

definition main :: "process_env \<Rightarrow> process_env \<Rightarrow> process_env \<Rightarrow> int \<Rightarrow> config_error + server_setup" where
  "main file rootFile env pid =
     sum_bind (buildConfiguration (loadEnv rootFile (loadEnv file env)) pid) (\<lambda>config. Inr (bootstrap config))"

text \<open>The cors package compares the request's origin with the entries as they are.\<close>

definition cors_admits :: "cors_origin \<Rightarrow> string \<Rightarrow> bool" where
  "cors_admits c origin = (case c of Any_origin \<Rightarrow> True | Origins entries \<Rightarrow> origin \<in> set entries)"

lemma js_split_plain: "c \<notin> set a \<Longrightarrow> js_split c a = [a]"
  by (induction a) auto

lemma js_split_first: "c \<notin> set a \<Longrightarrow> js_split c (a @ c # b) = a # js_split c b"
  by (induction a) auto

text \<open>
  A list of origins has to be written without spaces: of \<open>a, b\<close> only \<open>a\<close> is admitted, as the entries are not
  trimmed (those of \<open>RETRY_DELAYS_MS\<close> are).
\<close>

theorem spaced_origin_is_refused:
  assumes "CHR '','' \<notin> set a" and "CHR '','' \<notin> set b" and "hd origin \<noteq> CHR '' ''"
  shows "cors_admits (cors_origin_of (a @ '', '' @ b)) origin \<longleftrightarrow> origin = a"
proof -
  have "js_split (CHR '','') (a @ '', '' @ b) = [a, CHR '' '' # b]"
    using js_split_first [OF assms(1), of "CHR '' '' # b"] js_split_plain [of "CHR '',''" "CHR '' '' # b"] assms(2) by simp
  moreover have "a @ '', '' @ b \<noteq> ''*''" by (cases a) auto
  ultimately show ?thesis using assms(3) by (auto simp: cors_admits_def cors_origin_of_def)
qed

end
