(* ===== verification/Spec2Isabelle.thy ===== *)
theory Spec2Isabelle
  imports WriteQueue Lease Batch Announcements Http Views Wiring
begin

text \<open>
  A webhook delivery engine: a NestJS server (\<open>apps/server/src\<close>) that accepts events, stores each
  with a delivery job in one transaction, and delivers it to a webhook by a polling worker with
  bounded retries; and a Next.js client (\<open>apps/client\<close>) that shows what the server reports.

  Parts and their interaction.

  An event arrives at \<open>POST /events\<close> and is checked by the DTO's decorators (\<open>theory Api\<close>).
  \<open>EventsService.ingest\<close> inserts the event and its job in one unit of work of the transaction
  runner (\<open>theory Events\<close>, \<open>theory WriteQueue\<close>); the unique key on \<open>event_id\<close> makes a repeated
  event a reported duplicate. The worker (\<open>theory Worker\<close>) sweeps expired leases, reads the due
  jobs, and claims each by a conditional UPDATE (\<open>theory Queue\<close>). \<open>DeliveryService\<close> (\<open>theory
  Delivery\<close>) opens an attempt (\<open>theory Attempts\<close>), posts the signed event (\<open>theory Webhook\<close>),
  classifies the answer and consults the budget (\<open>theory Policy\<close>, from the parsed environment of
  \<open>theory Config\<close>), and settles job, event and attempt; every step is counted (\<open>theory Metrics\<close>)
  and published (\<open>theory Realtime\<close>). The statistics (\<open>theory Dashboard\<close>) and the health check
  (\<open>theory Health\<close>) read the same tables; the bundled receiver (\<open>theory Receiver\<close>) can be the
  webhook. The client calls the API (\<open>theory Api\<close>), formats and classifies (\<open>theory ClientLib\<close>),
  keeps snapshot and feed up to date (\<open>theory ClientState\<close>), derives what its components show
  (\<open>theory ClientView\<close>, \<open>theory ClientForms\<close>) and draws it (\<open>theory Views\<close>). What crosses the network
  between them is in \<open>theory Responses\<close>, the read path from the table to the page in \<open>theory Http\<close>; the
  server's modules and its start are in \<open>theory Wiring\<close>, its tables as DDL in \<open>theory Schema\<close>.

  Theories and sources (server paths under \<open>apps/server/src\<close>, client paths under \<open>apps/client\<close>).

  \<^item> \<open>Prelude\<close>: the rule collections, facts on lists, association lists and growing tables.
  \<^item> \<open>Prog\<close>: an asynchronous method as a tree of atomic actions, its run alone, its interleaving
    with others, and the rely/guarantee judgement \<open>sat\<close>; the locale \<open>concurrent_system\<close>.
  \<^item> \<open>JsLib\<close>: numbers, their printing and parsing, dates, \<open>JSON.stringify\<close>. \<open>JsonText\<close>: \<open>JSON.parse\<close>, which
    reads back what was printed. \<open>IsoDate\<close>: the calendar, and ISO strings read back. \<open>WireFormat\<close>: the
    signed text of a webhook read by its receiver.
  \<^item> \<open>Common\<close>: \<open>common/\<close> (statuses, the transition table, errors, realtime events).
  \<^item> \<open>Config\<close>: \<open>config/configuration.ts\<close>. \<open>Webhook\<close>: \<open>delivery/webhook.client.ts\<close>. \<open>Policy\<close>:
    \<open>delivery/retry-policy.ts\<close>. \<open>Metrics\<close>: \<open>metrics/metrics.service.ts\<close>.
  \<^item> \<open>NodeTypes\<close>, \<open>World\<close>: the records of a node, the three entities and the tables of
    \<open>database/migrations\<close>, the environment and the database actions.
  \<^item> \<open>Realtime\<close>: \<open>realtime/\<close>. \<open>Attempts\<close>: \<open>attempts/attempts.service.ts\<close>. \<open>Queue\<close>:
    \<open>delivery/delivery.repository.ts\<close>. \<open>Delivery\<close>: \<open>delivery/delivery.service.ts\<close>. \<open>Worker\<close>:
    \<open>delivery/delivery.worker.ts\<close>. \<open>Events\<close>: \<open>events/\<close>.
  \<^item> \<open>Dashboard\<close>: \<open>dashboard/dashboard.service.ts\<close>. \<open>Health\<close>: \<open>health/health.controller.ts\<close>,
    \<open>database/typeorm-options.ts\<close>, \<open>database/column-types.ts\<close>. \<open>Receiver\<close>: \<open>test-receiver/\<close>.
    \<open>WriteQueue\<close>: \<open>database/transaction.runner.ts\<close>.
  \<^item> \<open>ClientLib\<close>: \<open>lib/format.ts\<close>, \<open>lib/status.ts\<close>, \<open>lib/history.ts\<close>. \<open>ClientState\<close>:
    \<open>hooks/useEngineState.ts\<close>, \<open>hooks/useEventDetail.ts\<close>. \<open>ClientView\<close>: \<open>components/\<close>. \<open>Api\<close>:
    \<open>lib/api.ts\<close> and the server's DTOs under \<open>events/dto\<close>. \<open>ClientForms\<close>: the forms, the rows of the
    tables and what the pages (\<open>app/\<close>) say. \<open>Views\<close>: the trees the components and pages return.
  \<^item> \<open>Schema\<close>: \<open>database/migrations\<close> as DDL and the entities as their decorators declare them, with what
    fits their columns. \<open>Responses\<close>: \<open>types/index.ts\<close>, each type with its JSON, by the locale \<open>json_codec\<close>.
    \<open>Http\<close>: the controllers' reads and the calls of \<open>lib/api.ts\<close>. \<open>Wiring\<close>: every \<open>*.module.ts\<close>, the
    constructors and \<open>main.ts\<close>.

  The groups of lemmas.

  \<^item> \<open>Contract\<close> states what a program needs of the database as the locales \<open>store\<close>,
    \<open>ingest_store\<close> and \<open>delivery_store\<close>, and carries the whole of \<open>create\<close> and \<open>tick\<close> over any
    such contract; \<open>Endpoints\<close> does so for the reading endpoints. \<open>Invariant\<close> interprets the
    contracts for any number of workers and requests, \<open>Single\<close> for one worker at a time;
    \<open>System\<close> assembles the cluster. \<open>Guarantees\<close> are the theorems on every reachable state.
  \<^item> \<open>Runs\<close>, \<open>Uptime\<close>, \<open>Outcomes\<close>, \<open>Lifecycle\<close>, \<open>Passes\<close>: a program that runs alone, without
    failing statements, operation by operation up to whole passes of the worker, in worlds whose
    predicates satisfy the locales \<open>steady_node\<close> and \<open>steady_worker\<close>; \<open>Batch\<close>: a pass over any
    number of jobs gives each of its batch one attempt. \<open>Operations\<close> and
    \<open>Recovery\<close> are the theorems on single operations, \<open>ReadSide\<close> those on the queries,
    \<open>EndToEnd\<close> the engine and the bundled receiver together. \<open>Sample\<close> is the deployment at which
    the witnesses evaluate.
  \<^item> \<open>Lease\<close>: what a worker may still do after its lease has been taken over.
  \<^item> \<open>Announcements\<close>: what the realtime channel says is in the database. The guarantee of the contracts
    has two parts, what a step does to the database and what it emits (\<open>tells\<close> of \<open>theory World\<close>): the
    parameter \<open>T\<close> of \<open>store\<close> is what makes an announced status true, the job's own status for the one
    worker and the mere existence of the job for requests and for many workers.
  \<^item> \<open>Schema\<close> shows that entities and migration agree, that the inserts of \<open>World\<close> enforce exactly the declared
    keys, and that the migration is undone by its \<open>down\<close>; \<open>Http\<close>, that the client reads the table through
    every layer; \<open>Wiring\<close>, that each service that keeps state is one object, as the record of a node has it;
    \<open>Views\<close>, where the links lead, what is said without colours, and by the locale \<open>guarded_form\<close> that a form
    has one request under way at most.

  Conventions of the model.

  \<^item> A statement of the database is one atomic action; a transaction of ingestion is one too. Any
    other program may act between two of them. Every statement may fail, before or after its
    effect, and every program may die between two actions.
  \<^item> What is not under the repository is a field of the environment \<open>env\<close> (the clocks, the UUIDs,
    the HTTP exchange, the HMAC, the sockets, the collation, LIKE, LIMIT and the order of rows) or a
    parameter (the browser's locale and random numbers, \<open>fetch\<close>, process uptime). What is relied on of Nest's
    routing is \<open>answers_reads\<close>, and a router that satisfies it is given. \<open>sane_env\<close> names what the code relies
    on, and each theorem that assumes it is instantiated at \<open>Sample\<close>.
  \<^item> A JavaScript number is an exact rational, a date is its milliseconds, a string is a list of
    code units; non-ASCII literals of the client are written as their UTF-8 bytes. The bounds
    assumed on numbers are stated where they matter.
  \<^item> The queries of a \<open>Promise.all\<close> run one after the other.
  \<^item> Errors are values: a program returns or throws (\<open>Ret\<close>, \<open>Raise\<close>), a parser of the configuration
    gives \<open>Inl\<close> of its error.

  Bounds and fuel. Printing a fraction (\<open>show_fraction\<close>) stops after 20 digits, more than a double
  carries; \<open>short_decimal\<close> names the numbers it prints in full. \<open>json_parse\<close> gives its readers twice the
  length of the text, and \<open>fuel_is_enough\<close> shows that more changes nothing. \<open>findExistingWithRetry\<close> makes the three reads of the source. The padding loop of
  \<open>readRetryDelays\<close> is a terminating recursion on the number of missing delays. Nothing else has
  fuel: the worker's loop is a recursion on the list of due ids, and the unbounded polling is one program
  per tick.

  What the model showed. A worker that lost its lease may reopen a DELIVERED job, and rewrite an
  attempt the sweep has closed (\<open>theory Lease\<close>); a partial update of the receiver through HTTP
  forgets the settings it does not name (\<open>theory Receiver\<close>); a gap in the attempt numbers hides a
  scheduled retry, and a permanent failure on the last attempt is explained as a spent budget
  (\<open>theory ClientView\<close>); refreshes of the client may settle out of order (\<open>theory ClientState\<close>); the ids
  \<open>-\<close>, \<open>.\<close> and \<open>..\<close> are accepted and have no page (\<open>theory Api\<close>); a negative
  \<open>RETRY_DELAY_n_MS\<close> is accepted (\<open>theory Config\<close>); a worker's id longer than its column is accepted, and such a
  worker claims nothing, and a date beyond the year 9999 is accepted that no column holds (\<open>theory Schema\<close>); a
  list of origins written with spaces admits its first only (\<open>theory Wiring\<close>).

  Not modelled: the server's logging but for the lines of its start; the conversion of
  raw bodies by class-transformer; the storage engine and character set of the tables; the
  throttle \<open>auditTime\<close>, for which a push may happen at any time; a setting of the receiver that
  is \<open>null\<close>; the rounding of doubles; class names, keys and layout of the client's components.
\<close>

end
